(* ===== verification/Prelude.thy ===== *)
theory Prelude
  imports "HOL-Library.Word" "HOL-Library.AList" "HOL-Library.Multiset"
begin

text \<open>
  What the component theories share: names for the machine types of the LP64
  targets the hook is built for, the collections of rewrite rules that carry
  the component proofs, and generic facts on words, lists and association lists.
\<close>

section \<open>Machine types\<close>

type_synonym u64 = "64 word"
type_synonym u32 = "32 word"
type_synonym u8 = "8 word"
type_synonym ptr = "64 word"
type_synonym ('k, 'v) umap = "('k \<times> 'v) list"

abbreviation nullptr :: ptr where
  "nullptr \<equiv> 0"

abbreviation SIZE_MAX :: u64 where
  "SIZE_MAX \<equiv> - 1"

abbreviation MAP_FAILED :: ptr where
  "MAP_FAILED \<equiv> - 1"

section \<open>Collections of rewrite rules\<close>

named_theorems umap_lengths \<open>lengths of association lists used as unordered maps\<close>
named_theorems unat_fits \<open>64-bit arithmetic that does not wrap, read as natural numbers\<close>

section \<open>Words\<close>

lemma unat_add_fits [unat_fits]: "unat (a :: u64) + unat b < 2 ^ 64 \<Longrightarrow> unat (a + b) = unat a + unat b"
  by (subst unat_add_lem [THEN iffD1]) simp_all

lemma unat_mult_fits [unat_fits]: "unat (a :: u64) * unat b < 2 ^ 64 \<Longrightarrow> unat (a * b) = unat a * unat b"
  by (subst unat_mult_lem [THEN iffD1]) simp_all

lemma unat_of_nat_small [unat_fits]: "m < 2 ^ 64 \<Longrightarrow> unat (of_nat m :: u64) = m"
  by (simp add: unat_of_nat take_bit_nat_eq_self)

lemma unat_max_minus [unat_fits]: "unat (SIZE_MAX - b) = 2 ^ 64 - 1 - unat b" for b :: u64
  by (simp add: unat_sub unsigned_minus_1_eq_mask mask_eq_exp_minus_1)

lemma inj_unat: "inj (unat :: u64 \<Rightarrow> nat)"
  by (rule injI) (simp add: word_unat_eq_iff)

lemma u64_range: "unat v < 2 ^ 64" for v :: u64
  using unsigned_less [of v, where 'a = nat] by simp

lemma word_count_down: "i \<noteq> k \<Longrightarrow> unat (k - (i + 1)) < unat (k - i)" for i k :: "'a :: len word"
  by (metis diff_diff_add eq_iff_diff_eq_0 measure_unat)

section \<open>Lists and searches\<close>

lemma ex_nat_split: "(\<exists>n. P n) \<longleftrightarrow> P 0 \<or> (\<exists>n. P (Suc n))"
  by (metis not0_implies_Suc)

lemma length_removeAll_le: "length (removeAll x xs) \<le> length xs"
  by (simp add: removeAll_filter_not_eq)

lemma find_upt: "find P [0..<n] = Some p \<longleftrightarrow> p < n \<and> P p \<and> (\<forall>j<p. \<not> P j)"
  by (auto simp: find_Some_iff)

lemma find_upt_None: "find P [0..<n] = None \<longleftrightarrow> (\<forall>j<n. \<not> P j)"
  by (auto simp: find_None_iff)

section \<open>Association lists\<close>

lemma length_update_new [umap_lengths]: "k \<notin> fst ` set es \<Longrightarrow> length (AList.update k v es) = length es + 1"
  by (induction es) auto

lemma length_update_same [umap_lengths]: "map_of m k \<noteq> None \<Longrightarrow> length (AList.update k v m) = length m"
  by (induction m) auto

lemma length_delete [umap_lengths]:
  "distinct (map fst es) \<Longrightarrow> k \<in> fst ` set es \<Longrightarrow> length (AList.delete k es) = length es - 1"
proof (induction es)
  case (Cons e es)
  show ?case
  proof (cases "fst e = k")
    case True
    then have "k \<notin> fst ` set es" using Cons.prems by auto
    then show ?thesis using True by (cases e) simp
  next
    case False
    then have "k \<in> fst ` set es" using Cons.prems by auto
    then show ?thesis using Cons False by (cases es; cases e) auto
  qed
qed simp

lemma length_delete_less: "k \<in> fst ` set es \<Longrightarrow> length (AList.delete k es) < length es"
  by (auto simp: AList.delete_eq intro: length_filter_less)

lemma length_delete_le: "length (AList.delete k m) \<le> length m"
  by (simp add: AList.delete_eq)

lemma set_delete: "snd ` set (AList.delete k m) \<subseteq> snd ` set m"
  by (auto simp: AList.delete_eq)

lemma set_update: "snd ` set (AList.update k v m) \<subseteq> insert v (snd ` set m)"
  by (induction m) auto

end
