(* ===== verification/CText.thy ===== *)
theory CText
  imports Prelude
begin

text \<open>
  The pieces of the C string library the hook's parsers are written with:
  character classes, digit strings in base 10 and 16, \<^verbatim>\<open>strtol\<close>-style number
  readers that report where they stopped, case-insensitive comparison and
  prefix tests, together with a decimal printer and its round trip.
\<close>

section \<open>Characters and prefixes\<close>

definition is_space :: "char \<Rightarrow> bool" where
  "is_space c \<longleftrightarrow> c = CHR '' '' \<or> (9 \<le> (of_char c :: nat) \<and> (of_char c :: nat) \<le> 13)"

definition digit_val :: "nat \<Rightarrow> char \<Rightarrow> nat option" where
  "digit_val base c =
     (let n = (of_char c :: nat);
          d = (if 48 \<le> n \<and> n \<le> 57 then n - 48
               else if 97 \<le> n \<and> n \<le> 122 then n - 87
               else if 65 \<le> n \<and> n \<le> 90 then n - 55
               else 36)
      in if d < base then Some d else None)"

definition to_lower :: "char \<Rightarrow> char" where
  "to_lower c = (let n = (of_char c :: nat) in if 65 \<le> n \<and> n \<le> 90 then char_of (n + 32) else c)"

definition strcaseeq :: "string \<Rightarrow> string \<Rightarrow> bool" where
  "strcaseeq s t \<longleftrightarrow> map to_lower s = map to_lower t"

fun strip_prefix :: "string \<Rightarrow> string \<Rightarrow> string option" where
  "strip_prefix [] s = Some s"
| "strip_prefix (p # ps) [] = None"
| "strip_prefix (p # ps) (c # s) = (if p = c then strip_prefix ps s else None)"

lemma strip_prefix_iff: "strip_prefix p s = Some r \<longleftrightarrow> s = p @ r"
  by (induction p s rule: strip_prefix.induct) auto

definition has_prefix :: "string \<Rightarrow> string \<Rightarrow> bool" where
  "has_prefix p s \<longleftrightarrow> take (length p) s = p"

definition has_suffix :: "string \<Rightarrow> string \<Rightarrow> bool" where
  "has_suffix p s \<longleftrightarrow> length p \<le> length s \<and> drop (length s - length p) s = p"

fun contains_sub :: "string \<Rightarrow> string \<Rightarrow> bool" where
  "contains_sub p [] \<longleftrightarrow> p = []"
| "contains_sub p (c # s) \<longleftrightarrow> has_prefix p (c # s) \<or> contains_sub p s"

lemma has_prefix_iff: "has_prefix p s \<longleftrightarrow> (\<exists>r. s = p @ r)"
  by (auto simp: has_prefix_def) (metis append_take_drop_id)

lemma has_suffix_iff: "has_suffix p s \<longleftrightarrow> (\<exists>r. s = r @ p)"
  by (auto simp: has_suffix_def) (metis append_take_drop_id)

lemma contains_sub_iff: "contains_sub p s \<longleftrightarrow> (\<exists>a b. s = a @ p @ b)"
proof (induction s)
  case (Cons c s)
  show ?case
  proof
    assume "contains_sub p (c # s)"
    then show "\<exists>a b. c # s = a @ p @ b"
      using Cons by (auto simp: has_prefix_iff) (metis append_Cons append_Nil)+
  next
    assume "\<exists>a b. c # s = a @ p @ b"
    then obtain a b where "c # s = a @ p @ b" by blast
    then have "has_prefix p (c # s) \<or> contains_sub p s"
      using Cons by (cases a) (auto simp: has_prefix_iff)
    then show "contains_sub p (c # s)" by simp
  qed
qed simp

section \<open>Digit strings\<close>

text \<open>The value of the longest digit run and the rest of the text.\<close>

fun read_digits :: "nat \<Rightarrow> nat \<Rightarrow> string \<Rightarrow> nat \<times> string" where
  "read_digits base acc [] = (acc, [])"
| "read_digits base acc (c # s) =
     (case digit_val base c of
        None \<Rightarrow> (acc, c # s)
      | Some d \<Rightarrow> read_digits base (acc * base + d) s)"

lemma read_digits_length: "length (snd (read_digits base acc s)) \<le> length s"
  by (induction base acc s rule: read_digits.induct) (auto split: option.splits intro: le_SucI)

text \<open>A printer for decimals, as \<^verbatim>\<open>%zu\<close> prints them.\<close>

definition digit_char :: "nat \<Rightarrow> char" where
  "digit_char d = char_of (d + 48)"

fun show_nat :: "nat \<Rightarrow> string" where
  "show_nat n = (if n < 10 then [digit_char n] else show_nat (n div 10) @ [digit_char (n mod 10)])"

declare show_nat.simps [simp del]

lemma digit_val_digit_char: "d < 10 \<Longrightarrow> digit_val 10 (digit_char d) = Some d"
  by (simp add: digit_val_def digit_char_def Let_def)

lemma read_digits_append:
  "\<forall>c \<in> set s. digit_val base c \<noteq> None \<Longrightarrow>
   read_digits base acc (s @ t) = read_digits base (fst (read_digits base acc s)) t"
  by (induction s arbitrary: acc) (auto split: option.splits)

lemma show_nat_digits: "\<forall>c \<in> set (show_nat n). digit_val 10 c \<noteq> None"
proof (induction n rule: show_nat.induct)
  case (1 n)
  then show ?case
    by (subst show_nat.simps) (auto simp: digit_val_digit_char)
qed

lemma show_nat_nonempty: "show_nat n \<noteq> []"
  by (subst show_nat.simps) simp

lemma read_digits_show_nat:
  "read_digits 10 0 (show_nat n) = (n, [])"
proof (induction n rule: show_nat.induct)
  case (1 n)
  show ?case
  proof (cases "n < 10")
    case True
    then show ?thesis
      by (subst show_nat.simps) (simp add: digit_val_digit_char)
  next
    case False
    with 1 show ?thesis
      by (subst show_nat.simps)
        (simp add: read_digits_append [OF show_nat_digits] digit_val_digit_char)
  qed
qed

section \<open>Number readers\<close>

fun skip_space :: "string \<Rightarrow> string" where
  "skip_space [] = []"
| "skip_space (c # s) = (if is_space c then skip_space s else c # s)"

lemma skip_space_length: "length (skip_space s) \<le> length s"
  by (induction s) auto

text \<open>
  \<^verbatim>\<open>strtol(value, &end, 10)\<close> on LP64: the value clamped to a \<^verbatim>\<open>long\<close>, the text at
  \<^verbatim>\<open>end\<close>, and whether \<^verbatim>\<open>errno\<close> was set to \<^verbatim>\<open>ERANGE\<close>. Without a digit nothing is
  consumed.
\<close>

definition read_sign :: "string \<Rightarrow> bool \<times> string" where
  "read_sign s = (case s of
       [] \<Rightarrow> (False, [])
     | c # r \<Rightarrow> if c = CHR ''-'' then (True, r)
               else if c = CHR ''+'' then (False, r) else (False, s))"

definition strtol10 :: "string \<Rightarrow> int \<times> string \<times> bool" where
  "strtol10 s =
     (let (neg, t) = read_sign (skip_space s);
          (n, rest) = read_digits 10 0 t;
          v = (if neg then - int n else int n)
      in if rest = t then (0, s, False)
         else if v > 2 ^ 63 - 1 then (2 ^ 63 - 1, rest, True)
         else if v < - (2 ^ 63) then (- (2 ^ 63), rest, True)
         else (v, rest, False))"

text \<open>\<^verbatim>\<open>strtoull\<close>: modulo negation and clamping, value, rest and range error.\<close>

definition strtoull :: "nat \<Rightarrow> string \<Rightarrow> u64 \<times> string \<times> bool" where
  "strtoull base s =
     (let (neg, t) = read_sign (skip_space s);
          (n, rest) = read_digits base 0 t
      in if rest = t then (0, s, False)
         else if n \<ge> 2 ^ 64 then (- 1, rest, True)
         else (if neg then - of_nat n else of_nat n, rest, False))"

lemma digit_not_space: "digit_val 10 c \<noteq> None \<Longrightarrow> \<not> is_space c \<and> c \<noteq> CHR ''-'' \<and> c \<noteq> CHR ''+''"
  by (auto simp: digit_val_def is_space_def Let_def split: if_splits)

lemma skip_sign_show_nat: "read_sign (skip_space (show_nat n)) = (False, show_nat n)"
proof -
  obtain c r where cr: "show_nat n = c # r"
    using show_nat_nonempty by (metis list.exhaust)
  then have "digit_val 10 c \<noteq> None" using show_nat_digits [of n] by simp
  then show ?thesis using digit_not_space [of c] by (simp add: cr read_sign_def)
qed

lemma strtol10_show_nat: "n < 2 ^ 63 \<Longrightarrow> strtol10 (show_nat n) = (int n, [], False)"
  by (auto simp: strtol10_def skip_sign_show_nat read_digits_show_nat show_nat_nonempty Let_def
      dest: sym)

lemma strtoull10_show_nat: "n < 2 ^ 64 \<Longrightarrow> strtoull 10 (show_nat n) = (of_nat n, [], False)"
  by (auto simp: strtoull_def skip_sign_show_nat read_digits_show_nat show_nat_nonempty Let_def
      dest: sym)

end
