(* ===== verification/LiveMap.thy ===== *)
theory LiveMap
  imports Prelude
begin

text \<open>
  The interface of the containers the tracker keeps its records in: find, assign
  and erase by key, and the entries an iteration visits. Sums and counts over
  the entries are derived once from the interface, and the association lists
  that stand for \<^verbatim>\<open>std::unordered_map\<close> are its first implementation; the sharded
  pointer table is the second.
\<close>

definition total :: "('v \<Rightarrow> 'a::comm_monoid_add) \<Rightarrow> ('k \<times> 'v) list \<Rightarrow> 'a" where
  "total f es = (\<Sum>e\<leftarrow>es. f (snd e))"

lemma total_Nil [simp]: "total f [] = 0"
  by (simp add: total_def)

lemma total_Cons [simp]: "total f (e # es) = f (snd e) + total f es"
  by (simp add: total_def)

lemma total_append [simp]: "total f (xs @ ys) = total f xs + total f ys"
  by (simp add: total_def)

lemma total_mset: "mset es = mset es' \<Longrightarrow> total f es = total f es'"
  by (simp only: total_def sum_mset_sum_list [symmetric] mset_map)

lemma total_mono_split:
  "(\<And>v. f v = g v + h v) \<Longrightarrow> total f es = total g es + total h es"
  by (induction es) (auto simp: ac_simps)

locale live_map =
  fixes invar :: "'s \<Rightarrow> bool"
    and lookup :: "'s \<Rightarrow> 'k \<Rightarrow> 'v option"
    and put :: "'k \<Rightarrow> 'v \<Rightarrow> 's \<Rightarrow> 's"
    and erase :: "'k \<Rightarrow> 's \<Rightarrow> 's"
    and entries :: "'s \<Rightarrow> ('k \<times> 'v) list"
  assumes invar_put: "invar s \<Longrightarrow> invar (put k v s)"
    and invar_erase: "invar s \<Longrightarrow> invar (erase k s)"
    and lookup_put: "invar s \<Longrightarrow> lookup (put k v s) = (lookup s)(k \<mapsto> v)"
    and lookup_erase: "invar s \<Longrightarrow> lookup (erase k s) = (lookup s)(k := None)"
    and lookup_entries: "invar s \<Longrightarrow> map_of (entries s) = lookup s"
    and distinct_entries: "invar s \<Longrightarrow> distinct (map fst (entries s))"
begin

lemma in_entries: "invar s \<Longrightarrow> (k, v) \<in> set (entries s) \<longleftrightarrow> lookup s k = Some v"
  by (simp add: lookup_entries [symmetric] distinct_entries)

lemma distinct_entries': "invar s \<Longrightarrow> distinct (entries s)"
  using distinct_entries [of s] by (simp add: distinct_map)

lemma set_mset_eqI:
  assumes "invar s" "invar t" "set (entries s) = set (entries t)"
  shows "mset (entries s) = mset (entries t)"
  using assms by (simp add: set_eq_iff_mset_eq_distinct [symmetric] distinct_entries')

lemma mset_put_new:
  assumes "invar s" "lookup s k = None"
  shows "mset (entries (put k v s)) = mset ((k, v) # entries s)"
proof (rule set_eq_iff_mset_eq_distinct [THEN iffD1])
  show "distinct (entries (put k v s))"
    using assms by (simp add: distinct_entries' invar_put)
  show "distinct ((k, v) # entries s)"
    using assms by (simp add: distinct_entries' in_entries)
  show "set (entries (put k v s)) = set ((k, v) # entries s)"
    using assms by (auto simp: in_entries invar_put lookup_put split: if_splits)
qed

lemma mset_erase:
  assumes "invar s" "lookup s k = Some v"
  shows "mset (entries s) = mset ((k, v) # entries (erase k s))"
proof (rule set_eq_iff_mset_eq_distinct [THEN iffD1])
  show "distinct (entries s)"
    using assms by (simp add: distinct_entries')
  show "distinct ((k, v) # entries (erase k s))"
    using assms by (simp add: distinct_entries' in_entries invar_erase lookup_erase)
  show "set (entries s) = set ((k, v) # entries (erase k s))"
    using assms by (auto simp: in_entries invar_erase lookup_erase split: if_splits)
qed

lemma total_put_new:
  "invar s \<Longrightarrow> lookup s k = None \<Longrightarrow> total f (entries (put k v s)) = f v + total f (entries s)"
  by (drule (1) mset_put_new [THEN total_mset]) simp

lemma total_erase:
  "invar s \<Longrightarrow> lookup s k = Some v \<Longrightarrow> total f (entries s) = f v + total f (entries (erase k s))"
  by (drule (1) mset_erase [THEN total_mset]) simp

lemma total_erase_missing:
  assumes "invar s" "lookup s k = None"
  shows "total f (entries (erase k s)) = total f (entries s)"
  using assms
  by (intro total_mset set_mset_eqI)
    (auto simp: invar_erase in_entries lookup_erase fun_upd_idem)

lemma total_put:
  assumes "invar s"
  shows "total f (entries (put k v s)) = f v + total f (entries (erase k s))"
proof -
  have "mset (entries (put k v s)) = mset (entries (put k v (erase k s)))"
    using assms
    by (intro set_mset_eqI) (auto simp: invar_put invar_erase in_entries lookup_put lookup_erase)
  then show ?thesis
    using assms total_put_new [of "erase k s" k f v]
    by (simp add: total_mset [of "entries (put k v s)" "entries (put k v (erase k s))"]
        invar_erase lookup_erase)
qed

lemma erase_put_entries:
  "invar s \<Longrightarrow> lookup s k = None \<Longrightarrow> mset (entries (erase k (put k v s))) = mset (entries s)"
  by (intro set_mset_eqI)
    (auto simp: invar_put invar_erase in_entries lookup_put lookup_erase split: if_splits)

lemma put_erase_entries:
  "invar s \<Longrightarrow> lookup s k = Some v \<Longrightarrow> mset (entries (put k v (erase k s))) = mset (entries s)"
  by (intro set_mset_eqI)
    (auto simp: invar_put invar_erase in_entries lookup_put lookup_erase split: if_splits)

end

section \<open>Unordered maps\<close>

definition umap_ok :: "('k, 'v) umap \<Rightarrow> bool" where
  "umap_ok m \<longleftrightarrow> distinct (map fst m)"

definition umap_entries :: "('k, 'v) umap \<Rightarrow> ('k \<times> 'v) list" where
  "umap_entries m = m"

lemma umap_ok_Nil [simp]: "umap_ok []"
  by (simp add: umap_ok_def)

interpretation um: live_map umap_ok map_of AList.update AList.delete umap_entries
  by unfold_locales
    (auto simp: umap_ok_def umap_entries_def distinct_update distinct_delete update_conv' delete_conv')

lemmas um_simps =
  um.invar_put um.invar_erase um.lookup_put um.lookup_erase

end
