(* ===== verification/SortBy.thy ===== *)
theory SortBy
  imports Prelude
begin

text \<open>
  \<^verbatim>\<open>std::sort\<close> with a comparator, as an executable insertion sort, and the contract
  of comparators it needs. For a comparator that decides every pair the sorted
  sequence is unique, so the model returns what any correct sort returns.
\<close>

fun insort_less :: "('a \<Rightarrow> 'a \<Rightarrow> bool) \<Rightarrow> 'a \<Rightarrow> 'a list \<Rightarrow> 'a list" where
  "insort_less lt x [] = [x]"
| "insort_less lt x (y # ys) = (if lt y x then y # insort_less lt x ys else x # y # ys)"

definition std_sort :: "('a \<Rightarrow> 'a \<Rightarrow> bool) \<Rightarrow> 'a list \<Rightarrow> 'a list" where
  "std_sort lt xs = foldr (insort_less lt) xs []"

lemma mset_insort_less [simp]: "mset (insort_less lt x ys) = add_mset x (mset ys)"
  by (induction ys) auto

lemma mset_std_sort [simp]: "mset (std_sort lt xs) = mset xs"
  unfolding std_sort_def by (induction xs) auto

lemma set_std_sort [simp]: "set (std_sort lt xs) = set xs"
  by (metis mset_std_sort set_mset_mset)

lemma length_std_sort [simp]: "length (std_sort lt xs) = length xs"
  by (metis mset_std_sort size_mset)

locale strict_weak_order =
  fixes lt :: "'a \<Rightarrow> 'a \<Rightarrow> bool"
  assumes irrefl: "\<not> lt a a"
    and trans: "lt a b \<Longrightarrow> lt b c \<Longrightarrow> lt a c"
    and incomparable_trans: "\<not> lt a b \<Longrightarrow> \<not> lt b c \<Longrightarrow> \<not> lt a c"
begin

lemma sorted_insort_less:
  "sorted_wrt (\<lambda>a b. \<not> lt b a) ys \<Longrightarrow> sorted_wrt (\<lambda>a b. \<not> lt b a) (insort_less lt x ys)"
proof (induction ys)
  case (Cons y ys)
  have set: "set (insort_less lt x ys) = insert x (set ys)"
    by (metis mset_insort_less set_mset_add_mset_insert set_mset_mset)
  have "\<not> lt x y" if "lt y x" using that trans irrefl by blast
  moreover have "\<not> lt z x" if "\<not> lt y x" "z \<in> set ys" for z
    using that Cons.prems incomparable_trans [of z y x] by simp
  ultimately show ?case using Cons by (simp add: set)
qed simp

lemma sorted_std_sort: "sorted_wrt (\<lambda>a b. \<not> lt b a) (std_sort lt xs)"
  unfolding std_sort_def by (induction xs) (auto intro: sorted_insort_less)

lemma sorted_unique:
  assumes "mset xs = mset ys"
    and "sorted_wrt (\<lambda>a b. \<not> lt b a) xs" "sorted_wrt (\<lambda>a b. \<not> lt b a) ys"
    and "\<And>a b. a \<in> set xs \<Longrightarrow> b \<in> set xs \<Longrightarrow> a \<noteq> b \<Longrightarrow> lt a b \<or> lt b a"
  shows "xs = ys"
  using assms
proof (induction xs arbitrary: ys)
  case (Cons x xs)
  then obtain y ys' where ys: "ys = y # ys'" by (cases ys) auto
  have set: "insert x (set xs) = insert y (set ys')"
    using Cons.prems(1) ys by (metis list.simps(15) set_mset_mset)
  have "x = y"
  proof (rule ccontr)
    assume "x \<noteq> y"
    moreover have "y \<in> insert x (set xs)" "x \<in> insert y (set ys')"
      using set by (auto simp del: insert_iff)
    ultimately have "y \<in> set xs" "x \<in> set ys'" by simp_all
    then have "\<not> lt y x" "\<not> lt x y" using Cons.prems(2,3) ys by auto
    then show False using Cons.prems(4) [of x y] \<open>x \<noteq> y\<close> \<open>y \<in> set xs\<close> by auto
  qed
  then show ?case
    using Cons.IH [of ys'] Cons.prems ys by simp
qed simp

text \<open>Any rearrangement sorted by a deciding comparator is the one computed.\<close>

lemma std_sort_unique:
  assumes "mset ys = mset xs" "sorted_wrt (\<lambda>a b. \<not> lt b a) ys"
    and "\<And>a b. a \<in> set xs \<Longrightarrow> b \<in> set xs \<Longrightarrow> a \<noteq> b \<Longrightarrow> lt a b \<or> lt b a"
  shows "std_sort lt xs = ys"
  by (rule sorted_unique) (use assms sorted_std_sort in auto)

end

text \<open>A comparator that compares a key in a linear order.\<close>

lemma strict_weak_order_key:
  fixes key :: "'a \<Rightarrow> 'k::linorder"
  assumes "\<And>a b. lt a b \<longleftrightarrow> key a < key b"
  shows "strict_weak_order lt"
  by unfold_locales (auto simp: assms)

end
