(* ===== verification/HookSource.thy ===== *)
theory HookSource
  imports Prelude
begin

text \<open>
  The decisions the wrappers take on what libc answered
  (\<^verbatim>\<open>backtrace/include/HookSourcePolicy.h\<close>) and the per-thread switch that
  keeps the tracker from observing its own allocations
  (\<^verbatim>\<open>backtrace/src/debug_disable.cpp\<close>, \<^verbatim>\<open>backtrace/include/debug_disable.h\<close>).
\<close>

unbundle bit_operations_syntax

section \<open>Results of the wrapped calls\<close>

definition AllocationSucceeded :: "ptr \<Rightarrow> bool" where
  "AllocationSucceeded result \<longleftrightarrow> result \<noteq> nullptr"

definition MappingSucceeded :: "ptr \<Rightarrow> bool" where
  "MappingSucceeded result \<longleftrightarrow> result \<noteq> nullptr \<and> result \<noteq> MAP_FAILED"

definition SyscallSucceeded :: "int \<Rightarrow> bool" where
  "SyscallSucceeded result \<longleftrightarrow> result = 0"

datatype MmapCaptureKind = CaptureNone | CaptureAnonymous | CapturePendingIoctl

definition MAP_ANONYMOUS :: u32 where
  "MAP_ANONYMOUS = 0x20"

definition ClassifyMmap :: "ptr \<Rightarrow> u32 \<Rightarrow> int \<Rightarrow> bool \<Rightarrow> MmapCaptureKind" where
  "ClassifyMmap result flags fd pending_ioctl =
     (if result = MAP_FAILED then CaptureNone
      else if pending_ioctl then CapturePendingIoctl
      else if fd < 0 \<and> flags AND MAP_ANONYMOUS \<noteq> 0 then CaptureAnonymous
      else CaptureNone)"

record PendingIoctlAllocation =
  pia_request :: u32

definition pia_init :: PendingIoctlAllocation where
  "pia_init = \<lparr> pia_request = 0 \<rparr>"

definition Mark :: "u32 \<Rightarrow> PendingIoctlAllocation \<Rightarrow> PendingIoctlAllocation" where
  "Mark request p = p\<lparr> pia_request := request \<rparr>"

definition Take :: "PendingIoctlAllocation \<Rightarrow> u32 \<times> PendingIoctlAllocation" where
  "Take p = (pia_request p, p\<lparr> pia_request := 0 \<rparr>)"

lemma Take_Mark: "fst (Take (Mark r p)) = r"
  by (simp add: Take_def Mark_def)

lemma Take_once: "fst (Take (snd (Take p))) = 0"
  by (simp add: Take_def)

section \<open>The per-thread disable switch\<close>

text \<open>The thread specific value of \<^verbatim>\<open>g_disable_key\<close>: null or 1.\<close>

type_synonym disable_slot = ptr

definition DebugCallsDisabled :: "disable_slot \<Rightarrow> bool" where
  "DebugCallsDisabled k \<longleftrightarrow> k \<noteq> nullptr"

definition DebugDisableSet :: "bool \<Rightarrow> disable_slot" where
  "DebugDisableSet disable = (if disable then 1 else nullptr)"

text \<open>Constructor and destructor of \<^verbatim>\<open>ScopedDisableDebugCalls\<close>.\<close>

definition ScopedDisable_enter :: "disable_slot \<Rightarrow> bool \<times> disable_slot" where
  "ScopedDisable_enter k =
     (let disabled = DebugCallsDisabled k
      in (disabled, if \<not> disabled then DebugDisableSet True else k))"

definition ScopedDisable_leave :: "bool \<Rightarrow> disable_slot \<Rightarrow> disable_slot" where
  "ScopedDisable_leave disabled k = (if \<not> disabled then DebugDisableSet False else k)"

text \<open>A body run inside such a scope.\<close>

definition scoped_disable ::
    "(disable_slot \<Rightarrow> 'a \<times> disable_slot) \<Rightarrow> disable_slot \<Rightarrow> 'a \<times> disable_slot" where
  "scoped_disable body k =
     (let (disabled, k1) = ScopedDisable_enter k;
          (r, k2) = body k1
      in (r, ScopedDisable_leave disabled k2))"

lemma ScopedDisable_enter_disables: "DebugCallsDisabled (snd (ScopedDisable_enter k))"
  by (simp add: ScopedDisable_enter_def DebugCallsDisabled_def DebugDisableSet_def Let_def)

text \<open>
  A scope entered on a slot in any state hands its body a disabled slot and,
  whenever the body leaves the slot as it found it (as every nested scope
  does), restores exactly the state before the scope; scopes therefore nest.
\<close>

theorem scoped_disable_restores:
  assumes "\<And>k1. DebugCallsDisabled k1 \<Longrightarrow> snd (body k1) = k1"
  shows "snd (scoped_disable body k) = k
    \<and> snd (scoped_disable (scoped_disable body) k) = k"
proof -
  have one: "snd (scoped_disable b k) = k"
    if "\<And>k1. DebugCallsDisabled k1 \<Longrightarrow> snd (b k1) = k1" for b :: "disable_slot \<Rightarrow> 'a \<times> disable_slot" and k
    using that [OF ScopedDisable_enter_disables [of k]]
    by (auto simp: scoped_disable_def ScopedDisable_enter_def ScopedDisable_leave_def
        DebugCallsDisabled_def DebugDisableSet_def Let_def split: prod.splits)
  show ?thesis
    using one [of body k] one [of "scoped_disable body" k] one [of body] assms by blast
qed

theorem scoped_disable_restores_witness:
  "snd (scoped_disable (\<lambda>k. (DebugCallsDisabled k, k)) nullptr) = nullptr"
  using scoped_disable_restores [of "\<lambda>k. (DebugCallsDisabled k, k)" nullptr] by simp

end
