(* ===== verification/StackCapture.thy ===== *)
theory StackCapture
  imports CText
begin

text \<open>
  Stack capture (\<^verbatim>\<open>backtrace/include/UnwindBacktrace.h\<close>,
  \<^verbatim>\<open>backtrace/src/UnwindBacktrace.cpp\<close>): the raw stack record, the four capture
  backends and the entry point \<^verbatim>\<open>CaptureStackInto\<close> with its re-entry guard. What
  the backends ask of the platform (the thread's stack memory and bounds, the
  frames the compiler unwinder visits, \<^verbatim>\<open>backtrace()\<close>, the Android unwinder) is
  the record \<open>capture_env\<close>; the build-time switches are the record \<open>build\<close>.
\<close>

unbundle bit_operations_syntax

section \<open>Data\<close>

datatype StackCaptureState = StateEmpty | StateComplete | StatePartial | StateError
datatype StackCaptureMode = Fast | Accurate
datatype StackCaptureBackend =
  BackendUnknown | CompilerUnwind | AndroidUnwindstack | LinuxNative | OhosNative
  | BackendFallback | FramePointer

definition kMaxAsyncRawFrames :: nat where
  "kMaxAsyncRawFrames = 256"

definition UINT16_MAX :: nat where
  "UINT16_MAX = 65535"

text \<open>
  Only the first \<open>raw_frame_count\<close> entries of the PC array are ever defined;
  \<open>raw_pcs\<close> holds exactly those.
\<close>

record RawStackRecord =
  raw_capture_state :: StackCaptureState
  raw_mode :: StackCaptureMode
  raw_backend :: StackCaptureBackend
  raw_terminal_error :: nat
  raw_skipped_frames :: nat
  raw_module_generation :: u64
  raw_frame_count :: nat
  raw_pcs :: "u64 list"

definition RawStackRecord_init :: RawStackRecord where
  "RawStackRecord_init = \<lparr> raw_capture_state = StateEmpty, raw_mode = Fast,
     raw_backend = BackendUnknown, raw_terminal_error = 0, raw_skipped_frames = 0,
     raw_module_generation = 0, raw_frame_count = 0, raw_pcs = [] \<rparr>"

definition HasFrames :: "RawStackRecord \<Rightarrow> bool" where
  "HasFrames r \<longleftrightarrow> raw_frame_count r \<noteq> 0"

definition IsUsable :: "RawStackRecord \<Rightarrow> bool" where
  "IsUsable r \<longleftrightarrow> raw_capture_state r = StateComplete \<or> raw_capture_state r = StatePartial"

text \<open>\<^verbatim>\<open>pcs[frame_count++] = pc\<close>\<close>

definition push_pc :: "u64 \<Rightarrow> RawStackRecord \<Rightarrow> RawStackRecord" where
  "push_pc pc r = r\<lparr> raw_pcs := take (raw_frame_count r) (raw_pcs r) @ [pc],
                     raw_frame_count := raw_frame_count r + 1 \<rparr>"

datatype target_os = TargetLinux | TargetAndroid | TargetOhos | TargetOther

record build =
  b_aarch64 :: bool
  b_os :: target_os
  b_have_compiler_unwind :: bool
  b_legacy_unwindstack :: bool

definition kReturnAddressPcAdjust :: "build \<Rightarrow> u64" where
  "kReturnAddressPcAdjust b = (if b_aarch64 b then 4 else 1)"

definition CallSitePcFromReturnAddress :: "build \<Rightarrow> u64 \<Rightarrow> u64" where
  "CallSitePcFromReturnAddress b return_address =
     (if return_address > kReturnAddressPcAdjust b
      then return_address - kReturnAddressPcAdjust b else return_address)"

section \<open>Platform\<close>

text \<open>
  \<open>ce_getstack\<close>: address and size from \<^verbatim>\<open>pthread_attr_getstack\<close> when both pthread
  calls succeed. \<open>ce_ips\<close>: the instruction pointers \<^verbatim>\<open>_Unwind_Backtrace\<close> visits,
  innermost first; \<open>ce_unwind_end\<close> and \<open>ce_unwind_stopped\<close>: its reason code when
  the frames run out, and when the callback stopped it. \<open>ce_backtrace n\<close>: the
  frames \<^verbatim>\<open>backtrace(buf, n)\<close> writes. \<open>ce_android n\<close>: the error code and the
  frames of the Android unwinder.
\<close>

record capture_env =
  ce_getstack :: "(u64 \<times> u64) option"
  ce_frame_address :: u64
  ce_stack_word :: "u64 \<Rightarrow> u64"
  ce_strip_pac :: "u64 \<Rightarrow> u64"
  ce_ips :: "u64 list"
  ce_unwind_end :: nat
  ce_unwind_stopped :: nat
  ce_backtrace :: "nat \<Rightarrow> u64 list"
  ce_android :: "nat \<Rightarrow> nat \<times> u64 list"
  ce_fast_unwinder :: "string option"

definition URC_END_OF_STACK :: nat where
  "URC_END_OF_STACK = 5"

text \<open>The thread-local variables of the capture code.\<close>

record capture_tls =
  g_capture_active :: bool
  g_stack_bounds_valid :: bool
  g_stack_low :: u64
  g_stack_high :: u64

section \<open>Backends\<close>

definition FrameRecordFitsStack :: "u64 \<Rightarrow> u64 \<Rightarrow> u64 \<Rightarrow> bool" where
  "FrameRecordFitsStack fp stack_low stack_high \<longleftrightarrow>
     fp AND 7 = 0 \<and> fp \<ge> stack_low \<and> fp \<le> stack_high \<and> stack_high - fp \<ge> 16"

definition BuildCapturedRecord ::
    "StackCaptureMode \<Rightarrow> StackCaptureBackend \<Rightarrow> nat \<Rightarrow> u64 list \<Rightarrow> nat \<Rightarrow> nat \<Rightarrow> RawStackRecord" where
  "BuildCapturedRecord mode backend terminal_error frames max_frames skipped_frames =
     (let output_limit = min max_frames kMaxAsyncRawFrames;
          first = min skipped_frames (length frames);
          frame_count = min output_limit (length frames - first)
      in RawStackRecord_init\<lparr> raw_mode := mode, raw_backend := backend,
           raw_terminal_error := terminal_error,
           raw_skipped_frames := min skipped_frames UINT16_MAX,
           raw_pcs := take frame_count (drop first frames),
           raw_frame_count := frame_count,
           raw_capture_state :=
             (if frame_count = 0
              then (if terminal_error = 0 then StateEmpty else StateError)
              else (if terminal_error = 0 then StateComplete else StatePartial)) \<rparr>)"

text \<open>
  The callback of the compiler unwinder: the new skip count and record, and
  whether it asks the unwinder to stop.
\<close>

definition CaptureFrame ::
    "nat \<Rightarrow> u64 \<Rightarrow> nat \<times> RawStackRecord \<Rightarrow> bool \<times> nat \<times> RawStackRecord" where
  "CaptureFrame max_frames pc = (\<lambda>(skip, record).
     if pc = 0 then (False, skip, record)
     else if skip \<noteq> 0 then (False, skip - 1, record)
     else if raw_frame_count record \<ge> max_frames
       then (True, skip, record\<lparr> raw_capture_state := StatePartial, raw_terminal_error := 1 \<rparr>)
     else (False, skip, push_pc pc record))"

fun Unwind_Backtrace ::
    "capture_env \<Rightarrow> nat \<Rightarrow> u64 list \<Rightarrow> nat \<times> RawStackRecord \<Rightarrow> nat \<times> RawStackRecord" where
  "Unwind_Backtrace ce max_frames [] st = (ce_unwind_end ce, snd st)"
| "Unwind_Backtrace ce max_frames (pc # ips) st =
     (let (stop, st') = CaptureFrame max_frames pc st
      in if stop then (ce_unwind_stopped ce, snd st')
         else Unwind_Backtrace ce max_frames ips st')"

definition CaptureWithCompiler ::
    "capture_env \<Rightarrow> RawStackRecord \<Rightarrow> StackCaptureMode \<Rightarrow> StackCaptureBackend \<Rightarrow> nat \<Rightarrow> nat
     \<Rightarrow> RawStackRecord" where
  "CaptureWithCompiler ce record0 mode backend max_frames skipped_frames =
     (let record1 = record0\<lparr> raw_mode := mode, raw_backend := backend,
                            raw_skipped_frames := min skipped_frames UINT16_MAX \<rparr>
      in if max_frames = 0 then record1
         else let limit = min max_frames kMaxAsyncRawFrames;
                  (reason, record) = Unwind_Backtrace ce limit (ce_ips ce) (skipped_frames, record1)
              in if raw_frame_count record \<noteq> 0
                 then (if raw_capture_state record \<noteq> StatePartial
                       then record\<lparr> raw_capture_state :=
                              (if reason = URC_END_OF_STACK then StateComplete else StatePartial) \<rparr>
                       else record)
                 else (if reason \<noteq> URC_END_OF_STACK
                       then record\<lparr> raw_capture_state := StateError, raw_terminal_error := reason mod 256 \<rparr>
                       else record))"

definition CaptureLinuxNative ::
    "capture_env \<Rightarrow> RawStackRecord \<Rightarrow> StackCaptureMode \<Rightarrow> nat \<Rightarrow> nat \<Rightarrow> RawStackRecord" where
  "CaptureLinuxNative ce record0 mode max_frames skipped_frames =
     (let record = record0\<lparr> raw_mode := mode, raw_backend := LinuxNative,
                            raw_skipped_frames := min skipped_frames UINT16_MAX \<rparr>;
          output_limit = min max_frames kMaxAsyncRawFrames
      in if output_limit = 0 then record
         else
           let skip_limit = min skipped_frames kMaxAsyncRawFrames;
               capture_limit = min kMaxAsyncRawFrames (output_limit + skip_limit);
               captured_pcs = take capture_limit (ce_backtrace ce capture_limit);
               captured_count = length captured_pcs
           in if captured_count = 0
              then record\<lparr> raw_capture_state := StateError, raw_terminal_error := 5 \<rparr>
              else
                let first = min skip_limit captured_count;
                    frame_count = min output_limit (captured_count - first);
                    record = record\<lparr> raw_pcs := take frame_count (drop first captured_pcs),
                                     raw_frame_count := frame_count \<rparr>
                in if frame_count = 0 then record
                   else if captured_count = capture_limit
                     then record\<lparr> raw_capture_state := StatePartial, raw_terminal_error := 1 \<rparr>
                     else record\<lparr> raw_capture_state := StateComplete \<rparr>)"

text \<open>
  The frame-pointer walk of \<^verbatim>\<open>CaptureWithFramePointer\<close>: the saved frame pointer is
  the word at \<open>fp\<close>, the saved link register the next one. Result: the record and
  whether the walk stopped because the record was full.
\<close>

lemma FrameRecordFitsStack_less:
  "FrameRecordFitsStack fp low high \<Longrightarrow> unat fp + 16 \<le> unat high"
  by (auto simp: FrameRecordFitsStack_def word_le_nat_alt unat_sub)

function fp_walk ::
    "capture_env \<Rightarrow> u64 \<Rightarrow> u64 \<Rightarrow> nat \<Rightarrow> u64 \<Rightarrow> nat \<Rightarrow> RawStackRecord \<Rightarrow> RawStackRecord \<times> bool" where
  "fp_walk ce low high limit fp skip record =
     (if \<not> FrameRecordFitsStack fp low high then (record, False)
      else
        let next_fp = ce_stack_word ce fp;
            lr = ce_stack_word ce (fp + 8)
        in if lr \<noteq> 0 \<and> skip = 0 \<and> raw_frame_count record \<ge> limit then (record, True)
           else
             let skip' = (if lr \<noteq> 0 \<and> skip \<noteq> 0 then skip - 1 else skip);
                 record' = (if lr \<noteq> 0 \<and> skip = 0 then push_pc (ce_strip_pac ce lr) record else record)
             in if next_fp \<le> fp then (record', False)
                else fp_walk ce low high limit next_fp skip' record')"
  by pat_completeness auto
termination
  by (relation "measure (\<lambda>(ce, low, high, limit, fp, skip, record). unat high - unat fp)")
    (auto dest!: FrameRecordFitsStack_less simp: word_le_nat_alt)

declare fp_walk.simps [simp del]

text \<open>\<^verbatim>\<open>CurrentStackBounds\<close>: read once per thread, then cached.\<close>

definition CurrentStackBounds :: "capture_env \<Rightarrow> capture_tls \<Rightarrow> bool \<times> capture_tls" where
  "CurrentStackBounds ce t =
     (let t = (if \<not> g_stack_bounds_valid t
               then (case ce_getstack ce of
                       Some (addr, sz) \<Rightarrow>
                         if addr \<noteq> 0 \<and> sz \<noteq> 0
                         then t\<lparr> g_stack_bounds_valid := True, g_stack_low := addr,
                                 g_stack_high := addr + sz \<rparr>
                         else t\<lparr> g_stack_bounds_valid := True \<rparr>
                     | None \<Rightarrow> t\<lparr> g_stack_bounds_valid := True \<rparr>)
               else t)
      in (g_stack_low t \<noteq> 0, t))"

definition CaptureWithFramePointer ::
    "capture_env \<Rightarrow> capture_tls \<Rightarrow> RawStackRecord \<Rightarrow> StackCaptureMode \<Rightarrow> nat \<Rightarrow> nat
     \<Rightarrow> RawStackRecord \<times> capture_tls" where
  "CaptureWithFramePointer ce t record0 mode max_frames skipped_frames =
     (let record = record0\<lparr> raw_mode := mode, raw_backend := FramePointer,
                            raw_skipped_frames := min skipped_frames UINT16_MAX \<rparr>;
          output_limit = min max_frames kMaxAsyncRawFrames
      in if output_limit = 0 then (record, t)
         else
           let (ok, t) = CurrentStackBounds ce t
           in if \<not> ok
              then (record\<lparr> raw_capture_state := StateError, raw_terminal_error := 6 \<rparr>, t)
              else
                let (record, truncated) =
                      fp_walk ce (g_stack_low t) (g_stack_high t) output_limit
                        (ce_frame_address ce) skipped_frames record
                in (if raw_frame_count record = 0 then record\<lparr> raw_capture_state := StateEmpty \<rparr>
                    else if truncated
                      then record\<lparr> raw_capture_state := StatePartial, raw_terminal_error := 1 \<rparr>
                    else record\<lparr> raw_capture_state := StateComplete \<rparr>, t))"

definition ForceCompilerUnwindForFast :: "capture_env \<Rightarrow> bool" where
  "ForceCompilerUnwindForFast ce \<longleftrightarrow> ce_fast_unwinder ce = Some ''compiler''"

section \<open>Entry point\<close>

definition capture_fallback :: "nat \<Rightarrow> RawStackRecord \<Rightarrow> RawStackRecord" where
  "capture_fallback code record =
     record\<lparr> raw_backend := BackendFallback, raw_capture_state := StateError,
             raw_terminal_error := code \<rparr>"

definition capture_accurate ::
    "build \<Rightarrow> capture_env \<Rightarrow> RawStackRecord \<Rightarrow> nat \<Rightarrow> nat \<Rightarrow> RawStackRecord" where
  "capture_accurate b ce record max_frames skipped_frames =
     (if b_os b = TargetAndroid \<and> b_legacy_unwindstack b then
        let skip_limit = min skipped_frames kMaxAsyncRawFrames;
            output_limit = min max_frames kMaxAsyncRawFrames;
            capture_limit = min kMaxAsyncRawFrames (output_limit + skip_limit);
            (error, frames) = ce_android ce capture_limit
        in BuildCapturedRecord Accurate AndroidUnwindstack (error mod 256) frames
             max_frames skipped_frames
      else if b_os b = TargetLinux then
        CaptureLinuxNative ce record Accurate max_frames skipped_frames
      else if b_os b = TargetOhos then
        (if b_have_compiler_unwind b
         then CaptureWithCompiler ce record Accurate CompilerUnwind max_frames skipped_frames
         else capture_fallback 3 record)
      else capture_fallback 4 record)"

definition CaptureStackInto ::
    "build \<Rightarrow> capture_env \<Rightarrow> capture_tls \<Rightarrow> RawStackRecord \<Rightarrow> StackCaptureMode \<Rightarrow> nat \<Rightarrow> nat
     \<Rightarrow> RawStackRecord \<times> capture_tls" where
  "CaptureStackInto b ce t record0 mode max_frames skipped_frames =
     (let record = record0\<lparr> raw_capture_state := StateEmpty, raw_backend := BackendUnknown,
            raw_terminal_error := 0, raw_module_generation := 0, raw_frame_count := 0,
            raw_pcs := [], raw_mode := mode, raw_skipped_frames := min skipped_frames UINT16_MAX \<rparr>
      in if g_capture_active t then (capture_fallback 2 record, t)
         else
           let t = t\<lparr> g_capture_active := True \<rparr>;
               (record, t) =
                 (if mode = Fast then
                    (if b_aarch64 b \<and> \<not> ForceCompilerUnwindForFast ce
                     then CaptureWithFramePointer ce t record mode max_frames skipped_frames
                     else if b_have_compiler_unwind b
                     then (CaptureWithCompiler ce record mode CompilerUnwind max_frames skipped_frames, t)
                     else (capture_fallback 3 record, t))
                  else (capture_accurate b ce record max_frames skipped_frames, t))
           in (record, t\<lparr> g_capture_active := False \<rparr>))"

definition CaptureStack ::
    "build \<Rightarrow> capture_env \<Rightarrow> capture_tls \<Rightarrow> StackCaptureMode \<Rightarrow> nat \<Rightarrow> nat
     \<Rightarrow> RawStackRecord \<times> capture_tls" where
  "CaptureStack b ce t mode max_frames skipped_frames =
     CaptureStackInto b ce t RawStackRecord_init mode max_frames skipped_frames"

section \<open>What the walks collect\<close>

definition raw_wf :: "RawStackRecord \<Rightarrow> bool" where
  "raw_wf r \<longleftrightarrow> raw_frame_count r = length (raw_pcs r)"

definition append_pcs :: "u64 list \<Rightarrow> RawStackRecord \<Rightarrow> RawStackRecord" where
  "append_pcs ps r = r\<lparr> raw_pcs := raw_pcs r @ ps, raw_frame_count := raw_frame_count r + length ps \<rparr>"

lemma push_pc_append: "raw_wf r \<Longrightarrow> push_pc pc r = append_pcs [pc] r"
  by (simp add: push_pc_def append_pcs_def raw_wf_def)

lemma append_pcs_Nil [simp]: "append_pcs [] r = r"
  by (simp add: append_pcs_def)

lemma append_pcs_append_pcs [simp]: "append_pcs qs (append_pcs ps r) = append_pcs (ps @ qs) r"
  by (simp add: append_pcs_def)

lemma append_pcs_sel [simp]:
  "raw_frame_count (append_pcs ps r) = raw_frame_count r + length ps"
  "raw_pcs (append_pcs ps r) = raw_pcs r @ ps"
  "raw_capture_state (append_pcs ps r) = raw_capture_state r"
  "raw_terminal_error (append_pcs ps r) = raw_terminal_error r"
  by (simp_all add: append_pcs_def)

lemma raw_wf_append_pcs [simp]: "raw_wf (append_pcs ps r) = raw_wf r"
  by (simp add: raw_wf_def)

text \<open>The saved link registers along the frame-pointer chain, innermost first.\<close>

function fp_chain :: "capture_env \<Rightarrow> u64 \<Rightarrow> u64 \<Rightarrow> u64 \<Rightarrow> u64 list" where
  "fp_chain ce low high fp =
     (if \<not> FrameRecordFitsStack fp low high then []
      else ce_stack_word ce (fp + 8) #
        (if ce_stack_word ce fp \<le> fp then []
         else fp_chain ce low high (ce_stack_word ce fp)))"
  by pat_completeness auto
termination
  by (relation "measure (\<lambda>(ce, low, high, fp). unat high - unat fp)")
    (auto dest!: FrameRecordFitsStack_less simp: word_le_nat_alt)

declare fp_chain.simps [simp del]

definition usable_lrs :: "capture_env \<Rightarrow> u64 list \<Rightarrow> u64 list" where
  "usable_lrs ce lrs = map (ce_strip_pac ce) (filter (\<lambda>lr. lr \<noteq> 0) lrs)"

lemma usable_lrs_simps [simp]:
  "usable_lrs ce [] = []"
  "usable_lrs ce (0 # lrs) = usable_lrs ce lrs"
  "lr \<noteq> 0 \<Longrightarrow> usable_lrs ce (lr # lrs) = ce_strip_pac ce lr # usable_lrs ce lrs"
  by (simp_all add: usable_lrs_def)

lemma diff_Suc_of_diff: "(l::nat) - a = Suc n \<Longrightarrow> l - Suc a = n"
  by simp

lemma fp_walk_collects:
  assumes "raw_wf r" "raw_frame_count r \<le> limit"
  shows "fp_walk ce low high limit fp skip r =
    (let ws = drop skip (usable_lrs ce (fp_chain ce low high fp));
         room = limit - raw_frame_count r
     in (append_pcs (take room ws) r, room < length ws))"
  using assms
proof (induction ce low high limit fp skip r rule: fp_walk.induct)
  case (1 ce low high limit fp skip r)
  show ?case
  proof (cases "FrameRecordFitsStack fp low high")
    case True
    then show ?thesis
      using "1.IH" "1.prems"
      by (subst fp_walk.simps, subst fp_chain.simps)
        (cases skip; cases "limit - raw_frame_count r";
          auto simp: Let_def push_pc_append Suc_le_eq diff_Suc_of_diff)
  qed (simp add: fp_walk.simps fp_chain.simps)
qed

lemma Unwind_Backtrace_collects:
  assumes "raw_wf r" "raw_frame_count r \<le> limit"
  shows "Unwind_Backtrace ce limit ips (skip, r) =
    (let ws = drop skip (filter (\<lambda>pc. pc \<noteq> 0) ips);
         room = limit - raw_frame_count r
     in if room < length ws
        then (ce_unwind_stopped ce,
              (append_pcs (take room ws) r)\<lparr> raw_capture_state := StatePartial,
                                             raw_terminal_error := 1 \<rparr>)
        else (ce_unwind_end ce, append_pcs ws r))"
  using assms
proof (induction ips arbitrary: skip r)
  case (Cons pc ips)
  show ?case
    using Cons
    by (cases skip; cases "limit - raw_frame_count r")
      (auto simp: CaptureFrame_def Let_def push_pc_append diff_Suc_of_diff)
qed simp

section \<open>Properties\<close>

text \<open>A capture record is sane for a frame limit.\<close>

definition raw_ok :: "nat \<Rightarrow> RawStackRecord \<Rightarrow> bool" where
  "raw_ok max_frames r \<longleftrightarrow>
     raw_frame_count r = length (raw_pcs r) \<and> raw_frame_count r \<le> min max_frames kMaxAsyncRawFrames
     \<and> (IsUsable r \<longleftrightarrow> HasFrames r)"

lemma raw_ok_BuildCapturedRecord:
  "raw_ok max_frames (BuildCapturedRecord mode backend err frames max_frames skipped)"
  by (auto simp: raw_ok_def BuildCapturedRecord_def Let_def IsUsable_def HasFrames_def
      RawStackRecord_init_def)

lemma raw_ok_CaptureWithCompiler:
  assumes "raw_pcs r = []" "raw_frame_count r = 0" "raw_capture_state r = StateEmpty"
  shows "raw_ok max_frames (CaptureWithCompiler ce r mode backend max_frames skipped)"
  using assms
  by (auto simp: raw_ok_def CaptureWithCompiler_def Let_def IsUsable_def HasFrames_def raw_wf_def
      Unwind_Backtrace_collects append_pcs_def kMaxAsyncRawFrames_def split: if_splits)

lemma raw_ok_CaptureLinuxNative:
  assumes "raw_pcs r = []" "raw_frame_count r = 0" "raw_capture_state r = StateEmpty"
  shows "raw_ok max_frames (CaptureLinuxNative ce r mode max_frames skipped)"
proof -
  define out where "out = min max_frames kMaxAsyncRawFrames"
  define sk where "sk = min skipped kMaxAsyncRawFrames"
  define cl where "cl = min kMaxAsyncRawFrames (out + sk)"
  define cp where "cp = take cl (ce_backtrace ce cl)"
  define first where "first = min sk (length cp)"
  define n where "n = min out (length cp - first)"
  have n: "n \<le> out" "n \<le> length cp - first" by (simp_all add: n_def)
  show ?thesis
    using assms n
    unfolding raw_ok_def CaptureLinuxNative_def Let_def out_def [symmetric] sk_def [symmetric]
      cl_def [symmetric] cp_def [symmetric] first_def [symmetric] n_def [symmetric]
    by (simp add: IsUsable_def HasFrames_def min_absorb2)
qed

lemma raw_ok_CaptureWithFramePointer:
  assumes "raw_pcs r = []" "raw_frame_count r = 0" "raw_capture_state r = StateEmpty"
  shows "raw_ok max_frames (fst (CaptureWithFramePointer ce t r mode max_frames skipped))"
  using assms
  by (auto simp: raw_ok_def CaptureWithFramePointer_def Let_def IsUsable_def HasFrames_def raw_wf_def
      fp_walk_collects append_pcs_def split: prod.splits)

lemma raw_ok_capture_fallback:
  "raw_pcs r = [] \<Longrightarrow> raw_frame_count r = 0 \<Longrightarrow> raw_ok max_frames (capture_fallback code r)"
  by (simp add: raw_ok_def capture_fallback_def IsUsable_def HasFrames_def)

lemmas raw_ok_backends =
  raw_ok_BuildCapturedRecord raw_ok_CaptureWithCompiler raw_ok_CaptureLinuxNative
  raw_ok_CaptureWithFramePointer raw_ok_capture_fallback

lemma CaptureWithFramePointer_tls:
  "g_capture_active (snd (CaptureWithFramePointer ce t r mode m s)) = g_capture_active t"
  by (auto simp: CaptureWithFramePointer_def CurrentStackBounds_def Let_def
      split: prod.splits option.splits)

lemma CaptureStackInto_ok:
  "raw_ok max_frames (fst (CaptureStackInto b ce t r mode max_frames skipped))"
  by (simp add: CaptureStackInto_def capture_accurate_def Let_def case_prod_beta raw_ok_backends)

text \<open>
  C36: whatever the platform, the build and the thread state, a capture ends and
  yields at most \<open>min max_frames 256\<close> frames, its frame count is the number of
  recorded PCs, and the record is usable exactly when it has frames.
\<close>

theorem CaptureStackInto_bounded:
  "let r = fst (CaptureStackInto b ce t r0 mode max_frames skipped)
   in raw_frame_count r = length (raw_pcs r) \<and> raw_frame_count r \<le> max_frames
      \<and> raw_frame_count r \<le> kMaxAsyncRawFrames \<and> (IsUsable r \<longleftrightarrow> HasFrames r)"
  using CaptureStackInto_ok [of max_frames b ce t r0 mode skipped] by (simp add: raw_ok_def Let_def)

text \<open>
  The re-entry guard. A capture that starts while one is active on the same
  thread touches nothing but its own record, which reports error 2 and no
  frames; a capture that starts otherwise leaves the guard released.
\<close>

theorem CaptureStackInto_reentry:
  "case CaptureStackInto b ce t r0 mode max_frames skipped of (r, t') \<Rightarrow>
     if g_capture_active t
     then t' = t \<and> raw_capture_state r = StateError \<and> raw_terminal_error r = 2 \<and> \<not> HasFrames r
     else \<not> g_capture_active t'"
  by (simp add: CaptureStackInto_def Let_def case_prod_beta capture_fallback_def HasFrames_def)

text \<open>
  The optimised frame-pointer walk computes what it should: after the
  skipped ones, the non-zero link registers of the frame chain, authentication
  stripped, cut at the frame limit; it says Partial exactly when frames were
  left out and Complete exactly when none were.
\<close>

theorem CaptureWithFramePointer_frames:
  assumes "raw_pcs r0 = []" "raw_frame_count r0 = 0" "raw_capture_state r0 = StateEmpty"
    and "g_stack_bounds_valid t" "g_stack_low t \<noteq> 0"
  shows "let r = fst (CaptureWithFramePointer ce t r0 mode max_frames skipped);
             ws = drop skipped (usable_lrs ce
                    (fp_chain ce (g_stack_low t) (g_stack_high t) (ce_frame_address ce)));
             limit = min max_frames kMaxAsyncRawFrames
         in raw_pcs r = take limit ws
            \<and> (raw_capture_state r = StatePartial \<longleftrightarrow> 0 < limit \<and> limit < length ws)
            \<and> (raw_capture_state r = StateComplete \<longleftrightarrow> ws \<noteq> [] \<and> length ws \<le> limit)"
  using assms
  by (auto simp: CaptureWithFramePointer_def CurrentStackBounds_def Let_def raw_wf_def
      fp_walk_collects min_absorb2 split: if_splits)

definition demo_stack :: capture_env where
  "demo_stack = \<lparr> ce_getstack = Some (0x1000, 0x40), ce_frame_address = 0x1000,
     ce_stack_word = (\<lambda>a. if a = 0x1000 then 0x1010 else if a = 0x1008 then 0x401
                         else if a = 0x1010 then 0x1020 else if a = 0x1018 then 0x402
                         else if a = 0x1028 then 0x403 else 0),
     ce_strip_pac = id, ce_ips = [], ce_unwind_end = 5, ce_unwind_stopped = 3,
     ce_backtrace = (\<lambda>n. []), ce_android = (\<lambda>n. (0, [])), ce_fast_unwinder = None \<rparr>"

definition demo_tls :: capture_tls where
  "demo_tls = \<lparr> g_capture_active = False, g_stack_bounds_valid = True,
     g_stack_low = 0x1000, g_stack_high = 0x1040 \<rparr>"

lemma demo_stack_chain: "fp_chain demo_stack 0x1000 0x1040 0x1000 = [0x401, 0x402, 0x403]"
  by (simp add: fp_chain.simps demo_stack_def FrameRecordFitsStack_def)

lemma demo_sel:
  "ce_frame_address demo_stack = 0x1000" "ce_strip_pac demo_stack = id"
  "g_stack_bounds_valid demo_tls" "g_stack_low demo_tls = 0x1000" "g_stack_high demo_tls = 0x1040"
  "raw_pcs RawStackRecord_init = []" "raw_frame_count RawStackRecord_init = 0"
  "raw_capture_state RawStackRecord_init = StateEmpty"
  by (simp_all add: demo_stack_def demo_tls_def RawStackRecord_init_def)

theorem CaptureWithFramePointer_frames_witness:
  "raw_pcs (fst (CaptureWithFramePointer demo_stack demo_tls RawStackRecord_init Fast 1 1)) = [0x402]
   \<and> raw_capture_state (fst (CaptureWithFramePointer demo_stack demo_tls RawStackRecord_init Fast 1 1))
     = StatePartial"
  using CaptureWithFramePointer_frames [of RawStackRecord_init demo_tls demo_stack Fast 1 1]
  by (simp add: demo_sel demo_stack_chain usable_lrs_def Let_def kMaxAsyncRawFrames_def)

lemma fits_reads:
  assumes "FrameRecordFitsStack fp low high"
  shows "low \<le> fp" "unat fp + 8 \<le> unat high" "low \<le> fp + 8" "unat (fp + 8) + 8 \<le> unat high"
proof -
  have b: "unat fp + 16 \<le> unat high" "low \<le> fp"
    using FrameRecordFitsStack_less [OF assms] assms by (simp_all add: FrameRecordFitsStack_def)
  have "unat fp + 8 < 2 ^ 64"
    using b(1) unsigned_less [of high, where 'a = nat] by simp
  then have "unat (fp + 8) = unat fp + 8"
    by (subst unat_add_lem [THEN iffD1]) simp_all
  with b show "low \<le> fp" "unat fp + 8 \<le> unat high" "low \<le> fp + 8" "unat (fp + 8) + 8 \<le> unat high"
    by (simp_all add: word_le_nat_alt)
qed

text \<open>
  C37: the frame-pointer walk reads only words that lie wholly inside the
  thread's stack: two memories that agree on those give the same capture, from
  any starting frame pointer.
\<close>

theorem fp_walk_confined:
  assumes "\<And>a. low \<le> a \<Longrightarrow> unat a + 8 \<le> unat high \<Longrightarrow> ce_stack_word ce a = ce_stack_word ce' a"
    and "ce_strip_pac ce = ce_strip_pac ce'"
  shows "fp_walk ce low high limit fp skip r = fp_walk ce' low high limit fp skip r"
  using assms
proof (induction ce low high limit fp skip r rule: fp_walk.induct)
  case (1 ce low high limit fp skip r)
  show ?case
  proof (cases "FrameRecordFitsStack fp low high")
    case True
    then have rd: "ce_stack_word ce fp = ce_stack_word ce' fp"
      "ce_stack_word ce (fp + 8) = ce_stack_word ce' (fp + 8)"
      using "1.prems"(1) fits_reads [OF True] by blast+
    show ?thesis
      using "1.IH" [OF _ refl refl _ refl refl _ "1.prems"] True rd "1.prems"(2)
      by (subst fp_walk.simps, subst (2) fp_walk.simps) (auto simp: Let_def split: if_splits)
  qed (simp add: fp_walk.simps)
qed

theorem fp_walk_confined_witness:
  "fp_walk (demo_stack\<lparr> ce_stack_word := (\<lambda>a. if a < 0x1040 then ce_stack_word demo_stack a else 7) \<rparr>)
     0x1000 0x1040 8 0x1000 0 RawStackRecord_init
   = fp_walk demo_stack 0x1000 0x1040 8 0x1000 0 RawStackRecord_init"
  by (rule fp_walk_confined) (auto simp: word_less_nat_alt)

end
