(* ===== verification/HookConfig.thy ===== *)
theory HookConfig
  imports StackCapture
begin

text \<open>
  Configuration from the environment (\<^verbatim>\<open>backtrace/include/Config.h\<close>,
  \<^verbatim>\<open>backtrace/src/Config.cpp\<close>): the option word, the number parser, the sampling
  cadence a host framework publishes, the observe-only decision and
  \<^verbatim>\<open>Config::Init\<close>. The environment is the block of \<^verbatim>\<open>NAME=value\<close> entries
  \<^verbatim>\<open>environ\<close> points to, absent when that pointer is null.
\<close>

unbundle bit_operations_syntax

section \<open>Data\<close>

definition BACKTRACE :: u64 where "BACKTRACE = 0x1"
definition TRACK_ALLOCS :: u64 where "TRACK_ALLOCS = 0x2"
definition BACKTRACE_SPECIFIC_SIZES :: u64 where "BACKTRACE_SPECIFIC_SIZES = 0x4"
definition RECORD_MEMORY_PEAK :: u64 where "RECORD_MEMORY_PEAK = 0x8"
definition DUMP_ON_SINGAL :: u64 where "DUMP_ON_SINGAL = 0x80"

lemmas option_bits =
  BACKTRACE_def TRACK_ALLOCS_def BACKTRACE_SPECIFIC_SIZES_def RECORD_MEMORY_PEAK_def
  DUMP_ON_SINGAL_def

datatype PeakRetention = ChaseMax | FirstCrossing

record Config =
  cfg_dump_signal :: int
  cfg_frames :: nat
  cfg_dump_on_exit :: bool
  cfg_dump_prefix :: string
  cfg_min_size_bytes :: u64
  cfg_max_size_bytes :: u64
  cfg_dump_peak_val :: u64
  cfg_peak_step_bytes :: u64
  cfg_peak_retention :: PeakRetention
  cfg_peak_sample_ms :: u32
  cfg_capture_mode :: StackCaptureMode
  cfg_options :: u64

definition has_option :: "u64 \<Rightarrow> Config \<Rightarrow> bool" where
  "has_option opt cfg \<longleftrightarrow> cfg_options cfg AND opt \<noteq> 0"

type_synonym environ = "string list option"

definition DEFAULT_BACKTRACE_DUMP_PREFIX :: string where
  "DEFAULT_BACKTRACE_DUMP_PREFIX = ''/data/local/tmp/trace/backtrace_heap''"

definition kExternalSampleIntervalSuffix :: string where
  "kExternalSampleIntervalSuffix = ''AUTO_SHOW_MEM_USE_DURATION_MS''"

text \<open>\<^verbatim>\<open>getenv\<close>: the value of the first entry with that name.\<close>

fun getenv_in :: "string list \<Rightarrow> string \<Rightarrow> string option" where
  "getenv_in [] name = None"
| "getenv_in (entry # es) name =
     (case strip_prefix (name @ ''='') entry of
        Some v \<Rightarrow> Some v
      | None \<Rightarrow> getenv_in es name)"

definition getenv :: "environ \<Rightarrow> string \<Rightarrow> string option" where
  "getenv env name = (case env of None \<Rightarrow> None | Some es \<Rightarrow> getenv_in es name)"

section \<open>Parsing\<close>

definition ParseCaptureMode :: "string option \<Rightarrow> StackCaptureMode" where
  "ParseCaptureMode value =
     (case value of
        Some v \<Rightarrow> if strcaseeq v ''accurate'' then Accurate else Fast
      | None \<Rightarrow> Fast)"

text \<open>
  \<^verbatim>\<open>ParseValueQuiet\<close>: whether it parsed, and otherwise why not; the out-parameter
  is zeroed on every failure.
\<close>

datatype parse_result = Parsed u64 | NotSet | RangeError | NotDecimal

definition ParseValueQuiet :: "string option \<Rightarrow> parse_result" where
  "ParseValueQuiet value =
     (case value of
        None \<Rightarrow> NotSet
      | Some s \<Rightarrow>
          (let (long_value, rest, erange) = strtol10 s
           in if erange then RangeError
              else if length rest = length s \<or> rest \<noteq> [] \<or> long_value < 0 then NotDecimal
              else Parsed (word_of_int long_value)))"

fun parsed_ok :: "parse_result \<Rightarrow> bool" where
  "parsed_ok (Parsed v) = True"
| "parsed_ok _ = False"

fun parsed_value :: "parse_result \<Rightarrow> u64" where
  "parsed_value (Parsed v) = v"
| "parsed_value _ = 0"

text \<open>\<^verbatim>\<open>ParseValue\<close> answers the same and prints the reason of a failure.\<close>

definition ParseValue :: "string option \<Rightarrow> parse_result" where
  "ParseValue value = ParseValueQuiet value"

text \<open>The name and the value of an entry, split at the first \<^verbatim>\<open>=\<close>.\<close>

fun split_equals :: "string \<Rightarrow> (string \<times> string) option" where
  "split_equals [] = None"
| "split_equals (c # s) =
     (if c = CHR ''='' then Some ([], s)
      else map_option (\<lambda>(n, v). (c # n, v)) (split_equals s))"

fun FindExternal_in :: "string list \<Rightarrow> u64 \<Rightarrow> bool \<times> u64" where
  "FindExternal_in [] interval_ms = (False, interval_ms)"
| "FindExternal_in (entry # es) interval_ms =
     (case split_equals entry of
        None \<Rightarrow> FindExternal_in es interval_ms
      | Some (name, v) \<Rightarrow>
          if \<not> has_suffix kExternalSampleIntervalSuffix name then FindExternal_in es interval_ms
          else let r = ParseValueQuiet (Some v)
               in if parsed_ok r \<and> parsed_value r > 0 then (True, parsed_value r)
                  else FindExternal_in es (parsed_value r))"

definition FindExternalSampleIntervalMs :: "environ \<Rightarrow> u64 \<Rightarrow> bool \<times> u64" where
  "FindExternalSampleIntervalMs env interval_ms =
     (case env of None \<Rightarrow> (False, interval_ms) | Some es \<Rightarrow> FindExternal_in es interval_ms)"

section \<open>The two modes\<close>

text \<open>\<^verbatim>\<open>Config::ObserveOnlyRequested\<close>: the answer and the interval.\<close>

definition ObserveOnlyRequested :: "environ \<Rightarrow> bool \<times> u32" where
  "ObserveOnlyRequested env =
     (let floor_mb = ParseValueQuiet (getenv env ''DUMP_PEAK_VALUE_MB'')
      in if parsed_ok floor_mb \<and> parsed_value floor_mb > 0 then (False, 0)
         else
           let sample = ParseValueQuiet (getenv env ''ALLOC_HOOK_PEAK_SAMPLE_MS'');
               step = ParseValueQuiet (getenv env ''DUMP_PEAK_STEP_MB'')
           in if parsed_ok sample \<and> parsed_value sample > 0 \<and> parsed_ok step \<and> parsed_value step > 0
              then (False, 0)
              else
                let (found, peak_sample_ms) =
                      (if parsed_ok sample then (True, parsed_value sample)
                       else FindExternalSampleIntervalMs env (parsed_value sample))
                in if \<not> found then (False, 0)
                   else if peak_sample_ms = 0 then (False, 0)
                   else (True, ucast peak_sample_ms))"

record signals =
  sig_bionic_backtrace :: int
  sig_rtmin :: int

definition DefaultBacktraceSignal :: "build \<Rightarrow> signals \<Rightarrow> int" where
  "DefaultBacktraceSignal b sg =
     (if b_os b = TargetAndroid then sig_bionic_backtrace sg
      else if b_os b = TargetOhos then 46 else sig_rtmin sg + 6)"

definition DumpSignal :: "build \<Rightarrow> signals \<Rightarrow> int" where
  "DumpSignal b sg = DefaultBacktraceSignal b sg"

text \<open>\<^verbatim>\<open>Config::Init\<close>\<close>

definition Config_Init :: "build \<Rightarrow> signals \<Rightarrow> environ \<Rightarrow> Config" where
  "Config_Init b sg env =
     (let dump_prefix =
            (case getenv env ''ALLOC_HOOK_DUMP_PREFIX'' of
               Some p \<Rightarrow> if p \<noteq> [] then p else DEFAULT_BACKTRACE_DUMP_PREFIX
             | None \<Rightarrow> DEFAULT_BACKTRACE_DUMP_PREFIX);
          capture_mode = ParseCaptureMode (getenv env ''ALLOC_HOOK_CAPTURE_MODE'');
          platform_min = (if b_os b = TargetOhos then 40960 else 0);
          min_size = ParseValue (getenv env ''BACKTRACE_MIN_SIZE'');
          explicit_min_size = parsed_ok min_size;
          min_size_bytes = (if explicit_min_size then parsed_value min_size else platform_min);
          sample = ParseValue (getenv env ''ALLOC_HOOK_PEAK_SAMPLE_MS'');
          explicit_sample_interval = parsed_ok sample;
          (adopted_sample_interval, peak_sample_ms) =
            (if \<not> explicit_sample_interval
             then FindExternalSampleIntervalMs env (parsed_value sample)
             else (False, parsed_value sample));
          peak_floor_mb = parsed_value (ParseValue (getenv env ''DUMP_PEAK_VALUE_MB''));
          has_peak_floor = peak_floor_mb > 0;
          peak_step_mb = parsed_value (ParseValue (getenv env ''DUMP_PEAK_STEP_MB''));
          has_peak_step = peak_step_mb > 0;
          record_peak = (has_peak_floor \<or>
            explicit_sample_interval \<and> peak_sample_ms > 0 \<and> has_peak_step)
      in \<lparr> cfg_dump_signal = DumpSignal b sg,
           cfg_frames = 128,
           cfg_dump_on_exit = record_peak,
           cfg_dump_prefix = dump_prefix,
           cfg_min_size_bytes =
             (if record_peak \<and> \<not> explicit_min_size \<and> min_size_bytes = 0 then 1024 else min_size_bytes),
           cfg_max_size_bytes = SIZE_MAX,
           cfg_dump_peak_val = peak_floor_mb * 1024 * 1024,
           cfg_peak_step_bytes = peak_step_mb * 1024 * 1024,
           cfg_peak_retention = (if has_peak_floor then FirstCrossing else ChaseMax),
           cfg_peak_sample_ms =
             (if record_peak
              then (if explicit_sample_interval \<or> adopted_sample_interval
                    then ucast peak_sample_ms else 50)
              else 0),
           cfg_capture_mode = capture_mode,
           cfg_options =
             BACKTRACE_SPECIFIC_SIZES OR TRACK_ALLOCS
             OR (if record_peak then RECORD_MEMORY_PEAK OR BACKTRACE else 0)
             OR DUMP_ON_SINGAL \<rparr>)"

section \<open>Properties\<close>

lemma ParseValueQuiet_show_nat:
  "n < 2 ^ 63 \<Longrightarrow> ParseValueQuiet (Some (show_nat n)) = Parsed (of_nat n)"
  by (simp add: ParseValueQuiet_def strtol10_show_nat show_nat_nonempty)

lemma getenv_in_head: "getenv_in ((name @ ''='' @ v) # es) name = Some v"
proof -
  have "strip_prefix (name @ ''='') (name @ ''='' @ v) = Some v"
    by (simp add: strip_prefix_iff)
  then show ?thesis by simp
qed

text \<open>
  A setting written as a plain decimal below \<open>2^63\<close> reads back as that
  number, whatever entries follow it in the environment.
\<close>

theorem setting_roundtrip:
  assumes "n < 2 ^ 63"
  shows "ParseValueQuiet (getenv (Some ((name @ ''='' @ show_nat n) # es)) name) = Parsed (of_nat n)"
  using assms unfolding getenv_def
  by (simp only: getenv_in_head option.case ParseValueQuiet_show_nat)

theorem setting_roundtrip_witness:
  "ParseValueQuiet (getenv (Some [''DUMP_PEAK_STEP_MB'' @ ''='' @ show_nat 64]) ''DUMP_PEAK_STEP_MB'')
   = Parsed 64"
  using setting_roundtrip [of 64 "''DUMP_PEAK_STEP_MB''" "[]"] by simp

lemma FindExternal_in_found: "fst (FindExternal_in es 0) \<longleftrightarrow> snd (FindExternal_in es 0) > 0"
proof -
  have "v = 0 \<Longrightarrow> fst (FindExternal_in es v) \<longleftrightarrow> snd (FindExternal_in es v) > 0" for v
  proof (induction es v rule: FindExternal_in.induct)
    case (2 entry es v)
    then show ?case
      by (auto simp: Let_def word_gt_0 split: option.splits)
        (metis parsed_value.elims word_gt_0 parsed_ok.simps(1))+
  qed simp
  then show ?thesis by simp
qed

definition setting :: "environ \<Rightarrow> string \<Rightarrow> u64" where
  "setting env name = parsed_value (ParseValueQuiet (getenv env name))"

text \<open>The cadence both modes agree on: the explicit one, else the published one.\<close>

definition cadence :: "environ \<Rightarrow> u64" where
  "cadence env =
     (if parsed_ok (ParseValueQuiet (getenv env ''ALLOC_HOOK_PEAK_SAMPLE_MS''))
      then setting env ''ALLOC_HOOK_PEAK_SAMPLE_MS''
      else snd (FindExternalSampleIntervalMs env 0))"

definition record_peak :: "environ \<Rightarrow> bool" where
  "record_peak env \<longleftrightarrow> setting env ''DUMP_PEAK_VALUE_MB'' > 0 \<or>
     setting env ''ALLOC_HOOK_PEAK_SAMPLE_MS'' > 0 \<and> setting env ''DUMP_PEAK_STEP_MB'' > 0"

lemma parsed_value_pos: "parsed_value r > 0 \<Longrightarrow> parsed_ok r"
  by (cases r) auto

lemma parsed_not_ok: "\<not> parsed_ok r \<Longrightarrow> parsed_value r = 0"
  by (cases r) auto

lemma FindExternal_found:
  "fst (FindExternalSampleIntervalMs env 0) \<longleftrightarrow> snd (FindExternalSampleIntervalMs env 0) > 0"
  by (simp add: FindExternalSampleIntervalMs_def FindExternal_in_found split: option.splits)

lemma Config_Init_records:
  "has_option RECORD_MEMORY_PEAK (Config_Init b sg env) \<longleftrightarrow> record_peak env"
  "has_option BACKTRACE (Config_Init b sg env) \<longleftrightarrow> record_peak env"
  "has_option TRACK_ALLOCS (Config_Init b sg env)"
  "cfg_dump_on_exit (Config_Init b sg env) \<longleftrightarrow> record_peak env"
  by (auto simp: has_option_def Config_Init_def Let_def ParseValue_def record_peak_def setting_def
      option_bits case_prod_beta dest: parsed_value_pos)

lemma ObserveOnlyRequested_iff:
  "fst (ObserveOnlyRequested env) \<longleftrightarrow> \<not> record_peak env \<and> cadence env > 0"
  using FindExternal_found [of env]
  by (auto simp: ObserveOnlyRequested_def Let_def record_peak_def cadence_def setting_def
      case_prod_beta parsed_not_ok word_gt_0 dest: parsed_value_pos)

text \<open>
  The two modes never apply to one process. Peak recording, stack capture
  and the report at exit are switched on together, exactly when the environment
  asks for a report; the observe-only probe is selected exactly when it does not
  and a positive cadence is available. Allocation tracking is always on.
\<close>

theorem modes_disjoint:
  "(has_option RECORD_MEMORY_PEAK (Config_Init b sg env) \<longleftrightarrow> record_peak env)
   \<and> (has_option BACKTRACE (Config_Init b sg env) \<longleftrightarrow> record_peak env)
   \<and> (cfg_dump_on_exit (Config_Init b sg env) \<longleftrightarrow> record_peak env)
   \<and> has_option TRACK_ALLOCS (Config_Init b sg env)
   \<and> (fst (ObserveOnlyRequested env) \<longleftrightarrow> \<not> record_peak env \<and> 0 < cadence env)"
  by (simp add: Config_Init_records ObserveOnlyRequested_iff)

lemma ObserveOnlyRequested_interval:
  "fst (ObserveOnlyRequested env) \<Longrightarrow> snd (ObserveOnlyRequested env) = ucast (cadence env)"
  using FindExternal_found [of env]
  by (auto simp: ObserveOnlyRequested_def Let_def cadence_def setting_def
      case_prod_beta parsed_not_ok split: if_splits)

lemma sample_4294967296:
  "ParseValueQuiet (getenv (Some [''ALLOC_HOOK_PEAK_SAMPLE_MS=4294967296'']) ''ALLOC_HOOK_PEAK_SAMPLE_MS'')
   = Parsed 4294967296"
  by (simp add: getenv_def ParseValueQuiet_def strtol10_def read_sign_def is_space_def digit_val_def
      Let_def)

text \<open>
  The interval the probe is given is its cadence cut to 32 bits, so a cadence
  of exactly \<open>2^32\<close> milliseconds selects the probe with an interval of zero.
\<close>

theorem observe_interval_truncated:
  "(\<exists>env. fst (ObserveOnlyRequested env) \<and> snd (ObserveOnlyRequested env) = 0)
   \<and> (\<forall>env. cadence env < 2 ^ 32 \<longrightarrow> fst (ObserveOnlyRequested env) \<longrightarrow>
        unat (snd (ObserveOnlyRequested env)) = unat (cadence env))"
proof (intro conjI exI allI impI)
  let ?env = "Some [''ALLOC_HOOK_PEAK_SAMPLE_MS=4294967296'']"
  have c: "cadence ?env = 4294967296" "setting ?env ''DUMP_PEAK_VALUE_MB'' = 0"
    "setting ?env ''DUMP_PEAK_STEP_MB'' = 0"
    using sample_4294967296
    by (simp_all add: cadence_def setting_def getenv_def ParseValueQuiet_def)
  then show obs: "fst (ObserveOnlyRequested ?env)"
    by (simp add: ObserveOnlyRequested_iff record_peak_def)
  show "snd (ObserveOnlyRequested ?env) = 0"
    by (simp add: ObserveOnlyRequested_interval [OF obs] c(1))
next
  fix env :: environ
  assume "cadence env < 2 ^ 32" "fst (ObserveOnlyRequested env)"
  then show "unat (snd (ObserveOnlyRequested env)) = unat (cadence env)"
    by (simp add: ObserveOnlyRequested_interval word_less_nat_alt
        unsigned_ucast_eq take_bit_nat_eq_self_iff)
qed

theorem observe_interval_truncated_witness:
  "unat (snd (ObserveOnlyRequested (Some [''ALLOC_HOOK_PEAK_SAMPLE_MS=10'']))) = 10"
proof -
  let ?env = "Some [''ALLOC_HOOK_PEAK_SAMPLE_MS=10'']"
  have p: "ParseValueQuiet (getenv ?env ''ALLOC_HOOK_PEAK_SAMPLE_MS'') = Parsed 10"
    by (simp add: getenv_def ParseValueQuiet_def strtol10_def read_sign_def is_space_def digit_val_def
        Let_def)
  then have "cadence ?env = 10" "setting ?env ''DUMP_PEAK_VALUE_MB'' = 0"
    "setting ?env ''DUMP_PEAK_STEP_MB'' = 0"
    by (simp_all add: cadence_def setting_def getenv_def ParseValueQuiet_def)
  then show ?thesis
    using observe_interval_truncated
    by (simp add: ObserveOnlyRequested_iff record_peak_def)
qed

end
