(* ===== verification/PointerFilter.thy ===== *)
theory PointerFilter
  imports Prelude
begin

text \<open>
  The pointer hash and the probabilistic membership filter of
  \<^verbatim>\<open>backtrace/src/PointerData.cpp\<close> (\<^verbatim>\<open>HashPointer\<close>, \<^verbatim>\<open>MightContain\<close>,
  \<^verbatim>\<open>MarkPointerFilter\<close>), with the contract the release path relies on: a pointer
  that was marked is never reported absent.
\<close>

unbundle bit_operations_syntax

section \<open>Hash\<close>

definition HashPointer :: "u64 \<Rightarrow> u64" where
  "HashPointer pointer =
     (let h0 = pointer;
          h1 = h0 XOR drop_bit 33 h0;
          h2 = h1 * 0xff51afd7ed558ccd;
          h3 = h2 XOR drop_bit 33 h2;
          h4 = h3 * 0xc4ceb9fe1a85ec53
      in h4 XOR drop_bit 33 h4)"

section \<open>Filter\<close>

definition kPointerFilterWords :: nat where
  "kPointerFilterWords = 8192"

type_synonym pointer_filter = "u64 list"

definition filter_slot0 :: "u64 \<Rightarrow> nat \<times> u64" where
  "filter_slot0 h = (unat (h AND 8191), push_bit (unat (drop_bit 16 h AND 63)) 1)"

definition filter_slot1 :: "u64 \<Rightarrow> nat \<times> u64" where
  "filter_slot1 h = (unat (drop_bit 6 h AND 8191), push_bit (unat (drop_bit 22 h AND 63)) 1)"

definition MightContain :: "pointer_filter \<Rightarrow> ptr \<Rightarrow> bool" where
  "MightContain flt p =
     (let h = HashPointer p;
          (index0, bit0) = filter_slot0 h
      in if flt ! index0 AND bit0 = 0 then False
         else let (index1, bit1) = filter_slot1 h in flt ! index1 AND bit1 \<noteq> 0)"

definition fetch_or :: "nat \<times> u64 \<Rightarrow> pointer_filter \<Rightarrow> pointer_filter" where
  "fetch_or sl flt = flt[fst sl := flt ! fst sl OR snd sl]"

definition MarkPointerFilter :: "ptr \<Rightarrow> pointer_filter \<Rightarrow> pointer_filter" where
  "MarkPointerFilter p flt =
     (let h = HashPointer p in fetch_or (filter_slot1 h) (fetch_or (filter_slot0 h) flt))"

definition filter_init :: pointer_filter where
  "filter_init = replicate kPointerFilterWords 0"

definition filter_ok :: "pointer_filter \<Rightarrow> bool" where
  "filter_ok flt \<longleftrightarrow> length flt = kPointerFilterWords"

section \<open>The contract of a membership filter\<close>

locale membership_filter =
  fixes ok :: "'f \<Rightarrow> bool"
    and mark :: "'p \<Rightarrow> 'f \<Rightarrow> 'f"
    and might :: "'f \<Rightarrow> 'p \<Rightarrow> bool"
  assumes mark_ok: "ok f \<Longrightarrow> ok (mark p f)"
    and mark_might: "ok f \<Longrightarrow> might (mark p f) p"
    and mark_keeps: "ok f \<Longrightarrow> might f q \<Longrightarrow> might (mark p f) q"
begin

text \<open>Every pointer of the set is still reported after marking one more.\<close>

definition covers :: "'f \<Rightarrow> 'p set \<Rightarrow> bool" where
  "covers f P \<longleftrightarrow> ok f \<and> (\<forall>p \<in> P. might f p)"

lemma covers_mark: "covers f P \<Longrightarrow> covers (mark p f) (insert p P)"
  by (auto simp: covers_def mark_ok mark_might mark_keeps)

lemma covers_mono: "covers f P \<Longrightarrow> Q \<subseteq> P \<Longrightarrow> covers f Q"
  by (auto simp: covers_def)

lemma covers_fold: "covers f P \<Longrightarrow> covers (fold mark ps f) (set ps \<union> P)"
proof (induction ps arbitrary: f P)
  case (Cons p ps)
  from Cons.IH [OF covers_mark [OF Cons.prems, of p]] show ?case by simp
qed simp

end

definition slot_set :: "pointer_filter \<Rightarrow> nat \<times> u64 \<Rightarrow> bool" where
  "slot_set flt sl \<longleftrightarrow> flt ! fst sl AND snd sl \<noteq> 0"

lemma MightContain_slots:
  "MightContain flt p \<longleftrightarrow>
     slot_set flt (filter_slot0 (HashPointer p)) \<and> slot_set flt (filter_slot1 (HashPointer p))"
  by (simp add: MightContain_def slot_set_def Let_def case_prod_beta)

lemma unat_and_less: "unat m < n \<Longrightarrow> unat (h AND m) < n" for h m :: u64
  by (meson le_less_trans word_and_le1 word_le_nat_alt)

lemma and_8191_less: "unat (h AND (8191 :: u64)) < kPointerFilterWords"
  by (rule unat_and_less) (simp add: kPointerFilterWords_def)

lemma and_63_less: "unat (h AND (63 :: u64)) < 64"
  by (rule unat_and_less) simp

lemma or_and_keeps: "w AND b \<noteq> 0 \<Longrightarrow> (w OR c) AND b \<noteq> 0" for w b c :: u64
  by (auto simp: bit_eq_iff bit_and_iff bit_or_iff)

lemma or_and_same: "c \<noteq> 0 \<Longrightarrow> (w OR c) AND c \<noteq> 0" for w c :: u64
  by (auto simp: bit_eq_iff bit_and_iff bit_or_iff)

lemma filter_slot_bounds:
  "fst (filter_slot0 h) < kPointerFilterWords" "fst (filter_slot1 h) < kPointerFilterWords"
  by (simp_all add: filter_slot0_def filter_slot1_def and_8191_less)

lemma filter_slot_nonzero: "snd (filter_slot0 h) \<noteq> 0" "snd (filter_slot1 h) \<noteq> 0"
  using and_63_less
  by (simp_all add: filter_slot0_def filter_slot1_def push_bit_eq_mult power_eq_0_iff)
    (metis and_63_less exp_eq_zero_iff len_num1 linorder_not_le word_exp_length_eq_0)+

lemma length_fetch_or [simp]: "length (fetch_or sl flt) = length flt"
  by (simp add: fetch_or_def)

lemma slot_set_fetch_or_same:
  "fst sl < length flt \<Longrightarrow> snd sl \<noteq> 0 \<Longrightarrow> slot_set (fetch_or sl flt) sl"
  by (simp add: slot_set_def fetch_or_def or_and_same)

lemma slot_set_fetch_or: "slot_set flt sl' \<Longrightarrow> slot_set (fetch_or sl flt) sl'"
  by (cases "fst sl < length flt")
    (auto simp: slot_set_def fetch_or_def nth_list_update or_and_keeps not_less list_update_beyond)

interpretation pf: membership_filter filter_ok MarkPointerFilter MightContain
proof
  fix f :: pointer_filter and p q :: ptr
  assume ok: "filter_ok f"
  then show "filter_ok (MarkPointerFilter p f)"
    by (simp add: filter_ok_def MarkPointerFilter_def Let_def)
  from ok show "MightContain (MarkPointerFilter p f) p"
    by (simp add: filter_ok_def MightContain_slots MarkPointerFilter_def Let_def
        filter_slot_bounds filter_slot_nonzero slot_set_fetch_or_same slot_set_fetch_or)
  assume "MightContain f q"
  then show "MightContain (MarkPointerFilter p f) q"
    by (auto simp: MightContain_slots MarkPointerFilter_def Let_def intro!: slot_set_fetch_or)
qed

lemma covers_filter_init: "pf.covers filter_init {}"
  by (simp add: pf.covers_def filter_ok_def filter_init_def)

end
