(* ===== verification/FrameTable.thy ===== *)
theory FrameTable
  imports HookConfig LiveMap
begin

text \<open>
  The table of unique allocation stacks of \<^verbatim>\<open>backtrace/include/PointerData.h\<close> and
  \<^verbatim>\<open>backtrace/src/PointerData.cpp\<close>: the borrowed dedup key, the reference-counted
  frame records, \<^verbatim>\<open>AddBacktrace\<close> and \<^verbatim>\<open>RemoveBacktrace\<close>. The invariant ties the
  two maps together and every reference count to the references handed out.
\<close>

unbundle bit_operations_syntax

section \<open>Data\<close>

record FrameKeyType =
  fk_frame_count :: nat
  fk_module_generation :: u64
  fk_pcs :: "u64 list"

text \<open>\<^verbatim>\<open>FrameKeyType::operator==\<close>\<close>

definition FrameKey_eq :: "FrameKeyType \<Rightarrow> FrameKeyType \<Rightarrow> bool" where
  "FrameKey_eq k c \<longleftrightarrow>
     fk_frame_count k = fk_frame_count c \<and> fk_module_generation k = fk_module_generation c
     \<and> list_all (\<lambda>i. fk_pcs k ! i = fk_pcs c ! i) [0..<fk_frame_count k]"

text \<open>\<^verbatim>\<open>std::hash<FrameKeyType>\<close>\<close>

definition FrameKey_hash :: "FrameKeyType \<Rightarrow> u64" where
  "FrameKey_hash key =
     (if fk_frame_count key = 0 then fk_module_generation key
      else fold (\<lambda>i cur_hash. cur_hash XOR fk_pcs key ! i)
             [1..<(if fk_frame_count key > 5 then 5 else fk_frame_count key)]
             (fk_pcs key ! 0 XOR fk_module_generation key))"

text \<open>A key that borrows the first \<open>n\<close> PCs of an array.\<close>

definition mk_key :: "nat \<Rightarrow> u64 \<Rightarrow> u64 list \<Rightarrow> FrameKeyType" where
  "mk_key n gen pcs = \<lparr> fk_frame_count = n, fk_module_generation = gen, fk_pcs = take n pcs \<rparr>"

record SymbolizedFrame =
  sf_pc :: u64
  sf_rel_pc :: u64
  sf_sp :: u64
  sf_module_start :: u64
  sf_module_generation :: u64
  sf_function_offset :: u64
  sf_module_name :: string
  sf_build_id :: string
  sf_function_name :: string

record FrameInfoType =
  fi_references :: nat
  fi_frames :: "u64 list option"
  fi_module_generation :: u64
  fi_capture_state :: StackCaptureState
  fi_terminal_error :: nat

definition FrameInfo_init :: FrameInfoType where
  "FrameInfo_init = \<lparr> fi_references = 0, fi_frames = None, fi_module_generation = 0,
     fi_capture_state = StateEmpty, fi_terminal_error = 0 \<rparr>"

record FrameTable =
  key_to_index :: "(FrameKeyType, nat) umap"
  frames :: "(nat, FrameInfoType) umap"
  backtraces_info :: "(nat, SymbolizedFrame list) umap"
  cur_hash_index :: nat

definition kBacktraceExitIndex :: nat where "kBacktraceExitIndex = 0"
definition kBacktraceEmptyIndex :: nat where "kBacktraceEmptyIndex = 1"
definition kHookCaptureSkipFrames :: nat where "kHookCaptureSkipFrames = 3"

lemmas hash_indices = kBacktraceExitIndex_def kBacktraceEmptyIndex_def

section \<open>Operations\<close>

definition ShouldBacktraceAllocSize :: "Config \<Rightarrow> u64 \<Rightarrow> bool" where
  "ShouldBacktraceAllocSize cfg size_bytes \<longleftrightarrow>
     \<not> has_option BACKTRACE_SPECIFIC_SIZES cfg
     \<or> size_bytes \<ge> cfg_min_size_bytes cfg \<and> size_bytes \<le> cfg_max_size_bytes cfg"

text \<open>\<^verbatim>\<open>emplace\<close> keeps an existing entry; \<^verbatim>\<open>operator[]\<close> creates a default one.\<close>

definition umap_emplace :: "'k \<Rightarrow> 'v \<Rightarrow> ('k, 'v) umap \<Rightarrow> ('k, 'v) umap" where
  "umap_emplace k v m = (case map_of m k of None \<Rightarrow> AList.update k v m | Some _ \<Rightarrow> m)"

definition size_dec :: "nat \<Rightarrow> nat" where
  "size_dec n = (if n = 0 then 2 ^ 64 - 1 else n - 1)"

text \<open>The critical section of \<^verbatim>\<open>AddBacktrace\<close>: look the stack up, create or share it.\<close>

definition intern_stack :: "RawStackRecord \<Rightarrow> 'a FrameTable_scheme \<Rightarrow> nat \<times> 'a FrameTable_scheme" where
  "intern_stack raw ft =
     (let probe = mk_key (raw_frame_count raw) (raw_module_generation raw) (raw_pcs raw)
      in case map_of (key_to_index ft) probe of
           None \<Rightarrow>
             let hash_index = cur_hash_index ft;
                 info = \<lparr> fi_references = 1,
                          fi_frames = Some (take (raw_frame_count raw) (raw_pcs raw)),
                          fi_module_generation = raw_module_generation raw,
                          fi_capture_state = raw_capture_state raw,
                          fi_terminal_error = raw_terminal_error raw \<rparr>
             in (hash_index,
                 ft\<lparr> cur_hash_index := hash_index + 1,
                     frames := umap_emplace hash_index info (frames ft),
                     key_to_index := umap_emplace probe hash_index (key_to_index ft) \<rparr>)
         | Some hash_index \<Rightarrow>
             let info = (case map_of (frames ft) hash_index of
                           None \<Rightarrow> FrameInfo_init | Some fi \<Rightarrow> fi)
             in (hash_index,
                 ft\<lparr> frames := AList.update hash_index
                       (info\<lparr> fi_references := fi_references info + 1 \<rparr>) (frames ft) \<rparr>))"

text \<open>
  \<open>capture\<close> is what \<^verbatim>\<open>CaptureStackInto\<close> records for the current call chain when
  asked with a mode, a frame limit and a skip count.
\<close>

type_synonym capture_fn = "StackCaptureMode \<Rightarrow> nat \<Rightarrow> nat \<Rightarrow> RawStackRecord"

definition AddBacktrace ::
    "Config \<Rightarrow> capture_fn \<Rightarrow> nat \<Rightarrow> u64 \<Rightarrow> 'a FrameTable_scheme \<Rightarrow> nat \<times> 'a FrameTable_scheme" where
  "AddBacktrace cfg capture num_frames size_bytes ft =
     (if \<not> ShouldBacktraceAllocSize cfg size_bytes then (kBacktraceEmptyIndex, ft)
      else if \<not> has_option BACKTRACE cfg then (kBacktraceEmptyIndex, ft)
      else
        let raw = capture (cfg_capture_mode cfg) num_frames kHookCaptureSkipFrames
        in if raw_frame_count raw = 0 \<or> raw_capture_state raw \<noteq> StateComplete
              \<and> raw_capture_state raw \<noteq> StatePartial
           then (kBacktraceEmptyIndex, ft)
           else intern_stack raw ft)"

definition RemoveBacktrace :: "Config \<Rightarrow> nat \<Rightarrow> 'a FrameTable_scheme \<Rightarrow> 'a FrameTable_scheme" where
  "RemoveBacktrace cfg hash_index ft =
     (if hash_index \<le> kBacktraceEmptyIndex then ft
      else case map_of (frames ft) hash_index of
        None \<Rightarrow> ft
      | Some info \<Rightarrow>
          let references = size_dec (fi_references info);
              pcs = (case fi_frames info of None \<Rightarrow> [] | Some fs \<Rightarrow> fs)
          in if references = 0
             then ft\<lparr> key_to_index :=
                        AList.delete
                          (mk_key (min (length pcs) kMaxAsyncRawFrames) (fi_module_generation info) pcs)
                          (key_to_index ft),
                      frames := AList.delete hash_index (frames ft),
                      backtraces_info :=
                        (if has_option BACKTRACE cfg
                         then AList.delete hash_index (backtraces_info ft)
                         else backtraces_info ft) \<rparr>
             else ft\<lparr> frames := AList.update hash_index
                        (info\<lparr> fi_references := references \<rparr>) (frames ft) \<rparr>)"

definition FrameTable_init :: FrameTable where
  "FrameTable_init = \<lparr> key_to_index = [], frames = [], backtraces_info = [],
     cur_hash_index = kBacktraceEmptyIndex + 1 \<rparr>"

section \<open>Keys\<close>

text \<open>On keys that borrow exactly their frames, the code's comparison is equality.\<close>

lemma FrameKey_eq_mk_key:
  assumes "n \<le> length xs" "m \<le> length ys"
  shows "FrameKey_eq (mk_key n g xs) (mk_key m h ys) \<longleftrightarrow> mk_key n g xs = mk_key m h ys"
  using assms by (auto simp: FrameKey_eq_def mk_key_def list_all_iff list_eq_iff_nth_eq)

section \<open>Invariant\<close>

definition info_key :: "FrameInfoType \<Rightarrow> FrameKeyType" where
  "info_key fi =
     (case fi_frames fi of
        None \<Rightarrow> mk_key 0 (fi_module_generation fi) []
      | Some fs \<Rightarrow> mk_key (length fs) (fi_module_generation fi) fs)"

definition stack_ok :: "FrameInfoType \<Rightarrow> bool" where
  "stack_ok fi \<longleftrightarrow>
     (case fi_frames fi of None \<Rightarrow> False
      | Some fs \<Rightarrow> 0 < length fs \<and> length fs \<le> kMaxAsyncRawFrames)
     \<and> 0 < fi_references fi"

definition live_references :: "'a FrameTable_scheme \<Rightarrow> nat \<Rightarrow> nat" where
  "live_references ft h = (case map_of (frames ft) h of None \<Rightarrow> 0 | Some fi \<Rightarrow> fi_references fi)"

text \<open>
  \<open>refs h\<close> is the number of references to stack \<open>h\<close> that are outstanding: held by
  live entries and by operations in flight.
\<close>

definition frames_inv :: "(nat \<Rightarrow> nat) \<Rightarrow> 'a FrameTable_scheme \<Rightarrow> bool" where
  "frames_inv refs ft \<longleftrightarrow>
     umap_ok (key_to_index ft) \<and> umap_ok (frames ft) \<and> kBacktraceEmptyIndex < cur_hash_index ft
     \<and> (\<forall>h fi. map_of (frames ft) h = Some fi \<longrightarrow>
          kBacktraceEmptyIndex < h \<and> h < cur_hash_index ft \<and> stack_ok fi
          \<and> map_of (key_to_index ft) (info_key fi) = Some h)
     \<and> (\<forall>k h. map_of (key_to_index ft) k = Some h \<longrightarrow>
          (\<exists>fi. map_of (frames ft) h = Some fi \<and> info_key fi = k))
     \<and> (\<forall>h. kBacktraceEmptyIndex < h \<longrightarrow> refs h = live_references ft h)"

lemma frames_invI:
  assumes "umap_ok (key_to_index ft)" "umap_ok (frames ft)" "kBacktraceEmptyIndex < cur_hash_index ft"
    and "\<And>h fi. map_of (frames ft) h = Some fi \<Longrightarrow>
          kBacktraceEmptyIndex < h \<and> h < cur_hash_index ft \<and> stack_ok fi
          \<and> map_of (key_to_index ft) (info_key fi) = Some h"
    and "\<And>k h. map_of (key_to_index ft) k = Some h \<Longrightarrow>
          \<exists>fi. map_of (frames ft) h = Some fi \<and> info_key fi = k"
    and "\<And>h. kBacktraceEmptyIndex < h \<Longrightarrow> refs h = live_references ft h"
  shows "frames_inv refs ft"
  using assms unfolding frames_inv_def by blast

lemma frames_invD:
  assumes "frames_inv refs ft"
  shows "umap_ok (key_to_index ft)" "umap_ok (frames ft)" "kBacktraceEmptyIndex < cur_hash_index ft"
    and "map_of (frames ft) h = Some fi \<Longrightarrow>
          kBacktraceEmptyIndex < h \<and> h < cur_hash_index ft \<and> stack_ok fi
          \<and> map_of (key_to_index ft) (info_key fi) = Some h"
    and "map_of (key_to_index ft) k = Some h \<Longrightarrow>
          \<exists>fi. map_of (frames ft) h = Some fi \<and> info_key fi = k"
    and "kBacktraceEmptyIndex < h \<Longrightarrow> refs h = live_references ft h"
  using assms unfolding frames_inv_def by blast+

lemma frames_inv_cong:
  "(\<And>h. kBacktraceEmptyIndex < h \<Longrightarrow> refs h = refs' h) \<Longrightarrow> frames_inv refs ft = frames_inv refs' ft"
  by (simp add: frames_inv_def)

lemma frames_inv_low [simp]:
  "\<not> kBacktraceEmptyIndex < h \<Longrightarrow> frames_inv (refs(h := n)) ft = frames_inv refs ft"
  by (rule frames_inv_cong) auto

lemma frames_inv_init: "frames_inv (\<lambda>h. 0) FrameTable_init"
  by (simp add: frames_inv_def FrameTable_init_def live_references_def)

definition raw_storable :: "RawStackRecord \<Rightarrow> bool" where
  "raw_storable raw \<longleftrightarrow> raw_frame_count raw = length (raw_pcs raw)
     \<and> 0 < raw_frame_count raw \<and> raw_frame_count raw \<le> kMaxAsyncRawFrames"

text \<open>The three ways the table changes.\<close>

lemma frames_inv_create:
  assumes inv: "frames_inv refs ft" and h: "h = cur_hash_index ft"
    and info: "stack_ok info" "fi_references info = 1" "map_of (key_to_index ft) (info_key info) = None"
  shows "frames_inv (refs(h := refs h + 1)) (ft\<lparr> cur_hash_index := h + 1,
           frames := AList.update h info (frames ft),
           key_to_index := AList.update (info_key info) h (key_to_index ft) \<rparr>)"
proof -
  note inv' = frames_invD [OF inv]
  have fresh: "map_of (frames ft) h = None"
    using inv'(4) [of h] h by (cases "map_of (frames ft) h") auto
  have other: "info_key fi \<noteq> info_key info" if "map_of (frames ft) i = Some fi" for i fi
    using inv'(4) [OF that] info(3) by auto
  show ?thesis
  proof (rule frames_invI, goal_cases)
    case (4 i fi)
    then show ?case using inv'(1-4) other info(1) h
      by (auto simp: um_simps less_Suc_eq split: if_splits)
  next
    case (5 k i)
    then show ?case using inv'(1,2,5) fresh by (fastforce simp: um_simps split: if_splits)
  next
    case (6 i)
    then show ?case using inv'(2,6) fresh info(2) by (auto simp: um_simps live_references_def)
  qed (use inv'(1-3) h in \<open>auto simp: um_simps\<close>)
qed

lemma frames_inv_recount:
  assumes inv: "frames_inv refs ft" and fi: "map_of (frames ft) h = Some fi" and n: "0 < n"
  shows "frames_inv (refs(h := n))
           (ft\<lparr> frames := AList.update h (fi\<lparr> fi_references := n \<rparr>) (frames ft) \<rparr>)"
proof -
  note inv' = frames_invD [OF inv]
  have same: "info_key (fi\<lparr> fi_references := n \<rparr>) = info_key fi" "stack_ok (fi\<lparr> fi_references := n \<rparr>)"
    using inv'(4) [OF fi] n by (auto simp: info_key_def stack_ok_def split: option.splits)
  show ?thesis
  proof (rule frames_invI, goal_cases)
    case (4 i gi)
    then show ?case using inv'(2,4) fi same by (auto simp: um_simps split: if_splits)
  next
    case (5 k i)
    then show ?case using inv'(2,5) fi same by (fastforce simp: um_simps split: if_splits)
  next
    case (6 i)
    then show ?case using inv'(2,6) by (auto simp: um_simps live_references_def)
  qed (use inv'(1-3) in \<open>auto simp: um_simps\<close>)
qed

lemma frames_inv_drop:
  assumes inv: "frames_inv refs ft" and fi: "map_of (frames ft) h = Some fi"
  shows "frames_inv (refs(h := 0))
           (ft\<lparr> key_to_index := AList.delete (info_key fi) (key_to_index ft),
               frames := AList.delete h (frames ft), backtraces_info := bi \<rparr>)"
proof -
  note inv' = frames_invD [OF inv]
  show ?thesis
  proof (rule frames_invI, goal_cases)
    case (4 i gi)
    then have "i \<noteq> h" "map_of (frames ft) i = Some gi"
      using inv'(2) by (auto simp: um_simps split: if_splits)
    moreover from this have "info_key gi \<noteq> info_key fi"
      using inv'(4) [of i gi] inv'(4) [OF fi] by auto
    ultimately show ?case using inv'(1,2,4) by (auto simp: um_simps)
  next
    case (5 k i)
    then show ?case using inv'(1,2,5) inv'(4) [OF fi] fi
      by (fastforce simp: um_simps split: if_splits)
  next
    case (6 i)
    then show ?case using inv'(2,6) by (auto simp: um_simps live_references_def)
  qed (use inv'(1-3) in \<open>auto simp: um_simps\<close>)
qed

lemma frames_inv_intern_stack:
  assumes inv: "frames_inv refs ft" and raw: "raw_storable raw"
    and call: "intern_stack raw ft = (h, ft')"
  shows "kBacktraceEmptyIndex < h \<and> frames_inv (refs(h := refs h + 1)) ft'"
proof -
  note inv' = frames_invD [OF inv]
  define probe where "probe = mk_key (raw_frame_count raw) (raw_module_generation raw) (raw_pcs raw)"
  show ?thesis
  proof (cases "map_of (key_to_index ft) probe")
    case None
    define info where "info = \<lparr> fi_references = 1, fi_frames = Some (raw_pcs raw),
      fi_module_generation = raw_module_generation raw, fi_capture_state = raw_capture_state raw,
      fi_terminal_error = raw_terminal_error raw \<rparr>"
    have key: "info_key info = probe" "stack_ok info" "fi_references info = 1"
      using raw by (auto simp: info_key_def probe_def info_def raw_storable_def stack_ok_def)
    have "map_of (frames ft) (cur_hash_index ft) = None"
      using inv'(4) [of "cur_hash_index ft"] by (cases "map_of (frames ft) (cur_hash_index ft)") auto
    then have "h = cur_hash_index ft" "ft' = ft\<lparr> cur_hash_index := h + 1,
        frames := AList.update h info (frames ft),
        key_to_index := AList.update probe h (key_to_index ft) \<rparr>"
      using call None raw
      by (auto simp: intern_stack_def probe_def [symmetric] Let_def umap_emplace_def info_def
          raw_storable_def)
    then show ?thesis
      using frames_inv_create [OF inv _ key(2,3), unfolded key(1)] None inv'(3) by simp
  next
    case (Some i)
    then obtain fi where fi: "map_of (frames ft) i = Some fi"
      using inv'(5) by blast
    then have "h = i" "ft' = ft\<lparr> frames :=
        AList.update h (fi\<lparr> fi_references := fi_references fi + 1 \<rparr>) (frames ft) \<rparr>"
      using call Some by (auto simp: intern_stack_def probe_def [symmetric] Let_def)
    then show ?thesis
      using frames_inv_recount [OF inv fi, of "fi_references fi + 1"] inv'(4) [OF fi] inv'(6) [of h] fi
      by (simp add: live_references_def)
  qed
qed

lemma frames_inv_RemoveBacktrace:
  assumes inv: "frames_inv refs ft" and h: "kBacktraceEmptyIndex < h" "0 < refs h"
  shows "frames_inv (refs(h := refs h - 1)) (RemoveBacktrace cfg h ft)"
proof -
  note inv' = frames_invD [OF inv]
  from h inv'(6) obtain fi where fi: "map_of (frames ft) h = Some fi" "refs h = fi_references fi"
    by (force simp: live_references_def split: option.splits)
  with inv'(4) obtain fs where fs: "fi_frames fi = Some fs" "length fs \<le> kMaxAsyncRawFrames"
    by (force simp: stack_ok_def split: option.splits)
  show ?thesis
  proof (cases "fi_references fi = 1")
    case True
    with fi fs h show ?thesis
      using frames_inv_drop [OF inv fi(1)]
      by (simp add: RemoveBacktrace_def size_dec_def info_key_def min_absorb1)
  next
    case False
    with fi h show ?thesis
      using frames_inv_recount [OF inv fi(1), of "refs h - 1"]
      by (simp add: RemoveBacktrace_def size_dec_def Let_def)
  qed
qed

definition capture_ok :: "capture_fn \<Rightarrow> bool" where
  "capture_ok capture \<longleftrightarrow> (\<forall>m n s. raw_ok n (capture m n s))"

lemma CaptureStack_capture_ok: "capture_ok (\<lambda>m n s. fst (CaptureStack b ce t m n s))"
  by (simp add: capture_ok_def CaptureStack_def CaptureStackInto_ok)

lemma raw_ok_storable: "raw_ok n raw \<Longrightarrow> raw_frame_count raw \<noteq> 0 \<Longrightarrow> raw_storable raw"
  by (simp add: raw_ok_def raw_storable_def)

lemma AddBacktrace_cases:
  assumes "AddBacktrace cfg capture n sz ft = (h, ft')" "capture_ok capture"
  obtains (none) "h = kBacktraceEmptyIndex" "ft' = ft"
  | (some) raw where "raw_storable raw" "intern_stack raw ft = (h, ft')"
      "raw = capture (cfg_capture_mode cfg) n kHookCaptureSkipFrames"
proof -
  let ?raw = "capture (cfg_capture_mode cfg) n kHookCaptureSkipFrames"
  have "raw_ok n ?raw" using assms(2) by (simp add: capture_ok_def)
  with assms(1) none some [of ?raw] show ?thesis
    by (auto simp: AddBacktrace_def Let_def raw_ok_storable split: if_splits)
qed

lemma frames_inv_AddBacktrace:
  assumes "frames_inv refs ft" "capture_ok capture"
    and "AddBacktrace cfg capture n sz ft = (h, ft')"
  shows "kBacktraceEmptyIndex \<le> h \<and> frames_inv (refs(h := refs h + 1)) ft'"
  using assms(3,2)
proof (cases rule: AddBacktrace_cases)
  case none
  then show ?thesis
    using assms(1) by simp
next
  case (some raw)
  then show ?thesis using frames_inv_intern_stack [OF assms(1)] by fastforce
qed

lemma frames_inv_RemoveBacktrace':
  assumes "frames_inv refs ft" "kBacktraceEmptyIndex < h \<longrightarrow> 0 < refs h"
  shows "frames_inv (refs(h := refs h - 1)) (RemoveBacktrace cfg h ft)"
proof (cases "kBacktraceEmptyIndex < h")
  case False
  then show ?thesis
    using assms(1) by (simp add: RemoveBacktrace_def)
qed (use assms frames_inv_RemoveBacktrace in auto)

lemma intern_stack_key:
  assumes "frames_inv refs ft" "intern_stack raw ft = (h, ft')"
  shows "map_of (key_to_index ft') (mk_key (raw_frame_count raw) (raw_module_generation raw) (raw_pcs raw))
           = Some h"
    and "map_of (key_to_index ft) k = Some i \<Longrightarrow> map_of (key_to_index ft') k = Some i"
  using assms frames_invD(1) [OF assms(1)]
  by (auto simp: intern_stack_def Let_def umap_emplace_def um_simps split: option.splits)

section \<open>Properties\<close>

text \<open>
  Keys the code's comparison calls equal have equal hashes, the law
  \<^verbatim>\<open>std::unordered_map\<close> needs of the pair.
\<close>

theorem FrameKey_eq_hash:
  assumes "FrameKey_eq k c"
  shows "FrameKey_hash k = FrameKey_hash c"
proof -
  have n: "fk_frame_count k = fk_frame_count c" "fk_module_generation k = fk_module_generation c"
    and eq: "\<And>i. i < fk_frame_count c \<Longrightarrow> fk_pcs k ! i = fk_pcs c ! i"
    using assms by (auto simp: FrameKey_eq_def list_all_iff)
  show ?thesis
    using eq by (cases "fk_frame_count c = 0") (auto simp: FrameKey_hash_def n intro!: List.fold_cong)
qed

theorem FrameKey_eq_hash_witness:
  "FrameKey_hash (mk_key 2 7 [1, 2, 9]) = FrameKey_hash (mk_key 2 7 [1, 2, 8])"
  by (rule FrameKey_eq_hash) (simp add: FrameKey_eq_def mk_key_def numeral_2_eq_2)

text \<open>
  C34: stacks are shared exactly when they are the same stack. Of two stacks
  interned one after the other, the second gets the index of the first exactly
  when the dedup comparison of their keys holds, and the index leads back to the
  captured PCs.
\<close>

theorem intern_stack_dedup:
  assumes "frames_inv refs ft" "raw_storable r1" "raw_storable r2"
    and "intern_stack r1 ft = (h1, ft1)" "intern_stack r2 ft1 = (h2, ft2)"
  shows "(h1 = h2 \<longleftrightarrow>
           FrameKey_eq (mk_key (raw_frame_count r1) (raw_module_generation r1) (raw_pcs r1))
                       (mk_key (raw_frame_count r2) (raw_module_generation r2) (raw_pcs r2)))
         \<and> (\<exists>fi. map_of (frames ft2) h2 = Some fi \<and> fi_frames fi = Some (raw_pcs r2))"
proof -
  let ?k1 = "mk_key (raw_frame_count r1) (raw_module_generation r1) (raw_pcs r1)"
    and ?k2 = "mk_key (raw_frame_count r2) (raw_module_generation r2) (raw_pcs r2)"
  obtain refs1 refs2 where inv: "frames_inv refs1 ft1" "frames_inv refs2 ft2"
    using frames_inv_intern_stack assms by metis
  have k: "map_of (key_to_index ft1) ?k1 = Some h1" "map_of (key_to_index ft2) ?k2 = Some h2"
    "map_of (key_to_index ft2) ?k1 = Some h1"
    using intern_stack_key assms inv by metis+
  obtain fi where fi: "map_of (frames ft2) h2 = Some fi" "info_key fi = ?k2" "stack_ok fi"
    using frames_invD(4,5) [OF inv(2)] k(2) by metis
  have "h1 = h2 \<longleftrightarrow> ?k1 = ?k2"
    using frames_invD(5) [OF inv(2) k(3)] fi k by auto
  moreover have "fi_frames fi = Some (raw_pcs r2)"
    using fi(2,3) assms(3)
    by (auto simp: info_key_def mk_key_def raw_storable_def stack_ok_def split: option.splits)
  ultimately show ?thesis
    using fi(1) assms(2,3) FrameKey_eq_mk_key [of "raw_frame_count r1" "raw_pcs r1"]
    by (auto simp: raw_storable_def)
qed

definition demo_raw :: "u64 list \<Rightarrow> RawStackRecord" where
  "demo_raw pcs = RawStackRecord_init\<lparr> raw_capture_state := StateComplete,
     raw_frame_count := length pcs, raw_pcs := pcs \<rparr>"

theorem intern_stack_dedup_witness:
  "let (h1, ft1) = intern_stack (demo_raw [4, 5]) FrameTable_init;
       (h2, ft2) = intern_stack (demo_raw [4, 6]) ft1
   in h1 \<noteq> h2"
proof -
  obtain h1 ft1 where 1: "intern_stack (demo_raw [4, 5]) FrameTable_init = (h1, ft1)" by fastforce
  obtain h2 ft2 where 2: "intern_stack (demo_raw [4, 6]) ft1 = (h2, ft2)" by fastforce
  have "raw_storable (demo_raw [4, 5])" "raw_storable (demo_raw [4, 6])"
    by (simp_all add: raw_storable_def demo_raw_def kMaxAsyncRawFrames_def)
  from intern_stack_dedup [OF frames_inv_init this 1 2] have "h1 \<noteq> h2"
    by (simp add: FrameKey_eq_def mk_key_def demo_raw_def numeral_2_eq_2)
  then show ?thesis by (simp add: 1 2)
qed

end
