(* ===== verification/PointerTable.thy ===== *)
theory PointerTable
  imports FrameTable PointerFilter
begin

text \<open>
  The live-pointer table of \<^verbatim>\<open>backtrace/src/PointerData.cpp\<close>: 64 shards keyed by
  mangled pointers, the live and peak byte counters, and the critical sections
  of \<^verbatim>\<open>Add\<close>, \<^verbatim>\<open>Remap\<close>, \<^verbatim>\<open>TakeEntry\<close> and \<^verbatim>\<open>RestoreEntry\<close>. Each definition here runs
  under the shard locks of the pointers it names, so an interleaving of calls is
  a sequence of these steps. The invariant \<open>table_inv\<close> says that the counters are
  the sums of the live entries, that the filter covers them, and that every
  stack reference is held by a live entry or by a call in flight.
\<close>

unbundle bit_operations_syntax

section \<open>Data\<close>

datatype MemType = HOST | MMAP | DMA

record timeval =
  tv_sec :: int
  tv_usec :: int

text \<open>\<^verbatim>\<open>operator<(timeval, timeval)\<close>\<close>

definition timeval_less :: "timeval \<Rightarrow> timeval \<Rightarrow> bool" where
  "timeval_less lhs rhs \<longleftrightarrow> tv_sec lhs * 1000000 + tv_usec lhs < tv_sec rhs * 1000000 + tv_usec rhs"

record PointerInfoType =
  pi_size :: u64
  pi_hash_index :: nat
  pi_mem_type :: MemType
  pi_alloc_time :: timeval

definition RealSize :: "PointerInfoType \<Rightarrow> u64" where
  "RealSize info = pi_size info AND ucast (NOT (push_bit 31 1 :: u32))"

definition MaxSize :: u64 where
  "MaxSize = ucast ((push_bit 31 1 :: u32) - 1)"

datatype TraceEvent =
    AllocMarker char ptr nat MemType u64
  | PeakMarker u64 u64 u64

record PointerTable = FrameTable +
  shards :: "(u64, PointerInfoType) umap list"
  pointer_filter :: pointer_filter
  current_used :: u64
  current_host :: u64
  current_dma :: u64
  peak_tot :: u64
  peak_host :: u64
  peak_dma :: u64
  trace_log :: "TraceEvent list"

text \<open>
  What the operations read besides the table: the configuration \<^verbatim>\<open>g_debug\<close> holds,
  and whether trace markers are enabled and their file open.
\<close>

record debug_ctx =
  dc_config :: Config
  dc_trace :: bool

section \<open>Shards\<close>

definition kPointerShards :: nat where
  "kPointerShards = 64"

definition ManglePointer :: "ptr \<Rightarrow> u64" where
  "ManglePointer p = p XOR (- 1)"

definition DemanglePointer :: "u64 \<Rightarrow> ptr" where
  "DemanglePointer p = p XOR (- 1)"

definition ShardFor :: "u64 \<Rightarrow> nat" where
  "ShardFor mangled = unat (HashPointer mangled AND 63)"

type_synonym shard_list = "(u64, PointerInfoType) umap list"

definition shard_find :: "shard_list \<Rightarrow> u64 \<Rightarrow> PointerInfoType option" where
  "shard_find shs k = map_of (shs ! ShardFor k) k"

definition shard_put :: "u64 \<Rightarrow> PointerInfoType \<Rightarrow> shard_list \<Rightarrow> shard_list" where
  "shard_put k v shs = shs[ShardFor k := AList.update k v (shs ! ShardFor k)]"

definition shard_erase :: "u64 \<Rightarrow> shard_list \<Rightarrow> shard_list" where
  "shard_erase k shs = shs[ShardFor k := AList.delete k (shs ! ShardFor k)]"

definition shards_ok :: "shard_list \<Rightarrow> bool" where
  "shards_ok shs \<longleftrightarrow> length shs = kPointerShards
     \<and> (\<forall>i < kPointerShards. umap_ok (shs ! i) \<and> (\<forall>k \<in> fst ` set (shs ! i). ShardFor k = i))"

section \<open>Counters and trace markers\<close>

definition RaisePeak :: "u64 \<Rightarrow> u64 \<Rightarrow> bool \<times> u64" where
  "RaisePeak peak candidate = (if candidate > peak then (True, candidate) else (False, peak))"

definition count_sub :: "u64 \<Rightarrow> MemType \<Rightarrow> 'a PointerTable_scheme \<Rightarrow> 'a PointerTable_scheme" where
  "count_sub n type st =
     (let st = st\<lparr> current_used := current_used st - n \<rparr>
      in if type = DMA then st\<lparr> current_dma := current_dma st - n \<rparr>
         else st\<lparr> current_host := current_host st - n \<rparr>)"

definition count_add :: "u64 \<Rightarrow> MemType \<Rightarrow> 'a PointerTable_scheme \<Rightarrow> 'a PointerTable_scheme" where
  "count_add n type st =
     (let st = st\<lparr> current_used := current_used st + n \<rparr>
      in if type = DMA then st\<lparr> current_dma := current_dma st + n \<rparr>
         else st\<lparr> current_host := current_host st + n \<rparr>)"

text \<open>Raise the peak of one side to its current value.\<close>

definition raise_side :: "MemType \<Rightarrow> 'a PointerTable_scheme \<Rightarrow> 'a PointerTable_scheme" where
  "raise_side type st =
     (if type = DMA then st\<lparr> peak_dma := snd (RaisePeak (peak_dma st) (current_dma st)) \<rparr>
      else st\<lparr> peak_host := snd (RaisePeak (peak_host st) (current_host st)) \<rparr>)"

definition raise_total :: "u64 \<Rightarrow> 'a PointerTable_scheme \<Rightarrow> bool \<times> 'a PointerTable_scheme" where
  "raise_total tracked_total st =
     (let (raised, p) = RaisePeak (peak_tot st) tracked_total in (raised, st\<lparr> peak_tot := p \<rparr>))"

definition WriteAllocTraceMarker ::
    "debug_ctx \<Rightarrow> char \<Rightarrow> ptr \<Rightarrow> nat \<Rightarrow> MemType \<Rightarrow> u64 \<Rightarrow> 'a PointerTable_scheme
     \<Rightarrow> 'a PointerTable_scheme" where
  "WriteAllocTraceMarker dc phase p hash_index type size_bytes st =
     (if dc_trace dc
      then st\<lparr> trace_log := trace_log st @ [AllocMarker phase p hash_index type size_bytes] \<rparr>
      else st)"

section \<open>Critical sections\<close>

text \<open>
  The section of \<^verbatim>\<open>Add\<close>: reverse a displaced record, install the new one, count it
  and raise the peaks. Result: the displaced record, the tracked total and
  whether this call raised the total peak.
\<close>

definition add_section ::
    "ptr \<Rightarrow> u64 \<Rightarrow> nat \<Rightarrow> MemType \<Rightarrow> timeval \<Rightarrow> 'a PointerTable_scheme
     \<Rightarrow> PointerInfoType option \<times> u64 \<times> bool \<times> 'a PointerTable_scheme" where
  "add_section p tracked_size hash_index type tv st =
     (let mangled_ptr = ManglePointer p;
          displaced = shard_find (shards st) mangled_ptr;
          st = (case displaced of
                  None \<Rightarrow> st
                | Some d \<Rightarrow>
                    (count_sub (pi_size d) (pi_mem_type d) st)
                      \<lparr> shards := shard_erase mangled_ptr (shards st) \<rparr>);
          st = st\<lparr> shards := shard_put mangled_ptr
                     \<lparr> pi_size = tracked_size, pi_hash_index = hash_index,
                       pi_mem_type = type, pi_alloc_time = tv \<rparr> (shards st) \<rparr>;
          st = st\<lparr> pointer_filter := MarkPointerFilter p (pointer_filter st) \<rparr>;
          st = raise_side type (count_add tracked_size type st);
          tracked_total = current_used st;
          (raised_peak, st) = raise_total tracked_total st
      in (displaced, tracked_total, raised_peak, st))"

text \<open>
  The section of \<^verbatim>\<open>Remap\<close> under both shards: None when the source is untracked,
  otherwise the record as it was, the displaced destination, the tracked total
  and whether the total peak rose.
\<close>

definition remap_section ::
    "ptr \<Rightarrow> ptr \<Rightarrow> u64 \<Rightarrow> 'a PointerTable_scheme
     \<Rightarrow> (PointerInfoType \<times> PointerInfoType option \<times> u64 \<times> bool \<times> 'a PointerTable_scheme) option" where
  "remap_section old_ptr new_ptr new_size st =
     (let old_key = ManglePointer old_ptr;
          new_key = ManglePointer new_ptr
      in case shard_find (shards st) old_key of
           None \<Rightarrow> None
         | Some moved_info \<Rightarrow>
             let info = moved_info\<lparr> pi_size := new_size \<rparr>;
                 old_size = pi_size moved_info;
                 type = pi_mem_type info;
                 st = st\<lparr> shards := shard_erase old_key (shards st) \<rparr>;
                 displaced = shard_find (shards st) new_key;
                 st = (case displaced of
                         None \<Rightarrow> st
                       | Some d \<Rightarrow>
                           (count_sub (pi_size d) (pi_mem_type d) st)
                             \<lparr> shards := shard_erase new_key (shards st) \<rparr>);
                 st = st\<lparr> shards := shard_put new_key info (shards st) \<rparr>;
                 st = (if new_size \<ge> old_size
                       then raise_side type (count_add (new_size - old_size) type st)
                       else count_sub (old_size - new_size) type st);
                 tracked_total = current_used st;
                 (raised_peak, st) = raise_total tracked_total st;
                 st = st\<lparr> pointer_filter := MarkPointerFilter new_ptr (pointer_filter st) \<rparr>
             in Some (moved_info, displaced, tracked_total, raised_peak, st))"

definition TakeEntry :: "ptr \<Rightarrow> 'a PointerTable_scheme \<Rightarrow> PointerInfoType option \<times> 'a PointerTable_scheme" where
  "TakeEntry p st =
     (let mangled_ptr = ManglePointer p
      in case shard_find (shards st) mangled_ptr of
           None \<Rightarrow> (None, st)
         | Some info \<Rightarrow>
             (Some info,
              (count_sub (pi_size info) (pi_mem_type info) st)
                \<lparr> shards := shard_erase mangled_ptr (shards st) \<rparr>))"

definition RestoreEntry :: "ptr \<Rightarrow> PointerInfoType \<Rightarrow> 'a PointerTable_scheme \<Rightarrow> 'a PointerTable_scheme" where
  "RestoreEntry p info st =
     (let mangled_ptr = ManglePointer p;
          st = st\<lparr> shards := shard_put mangled_ptr info (shards st),
                   pointer_filter := MarkPointerFilter p (pointer_filter st) \<rparr>
      in count_add (pi_size info) (pi_mem_type info) st)"

definition TraceEntryReleased ::
    "debug_ctx \<Rightarrow> ptr \<Rightarrow> PointerInfoType \<Rightarrow> 'a PointerTable_scheme \<Rightarrow> 'a PointerTable_scheme" where
  "TraceEntryReleased dc p info st =
     (if pi_hash_index info > kBacktraceEmptyIndex
      then WriteAllocTraceMarker dc CHR ''F'' p (pi_hash_index info) (pi_mem_type info) (pi_size info) st
      else st)"

definition Remove :: "debug_ctx \<Rightarrow> ptr \<Rightarrow> 'a PointerTable_scheme \<Rightarrow> 'a PointerTable_scheme" where
  "Remove dc p st =
     (case TakeEntry p st of
        (None, st) \<Rightarrow> st
      | (Some info, st) \<Rightarrow>
          RemoveBacktrace (dc_config dc) (pi_hash_index info)
            (if pi_hash_index info > kBacktraceEmptyIndex
             then WriteAllocTraceMarker dc CHR ''F'' p (pi_hash_index info) (pi_mem_type info)
                    (pi_size info) st
             else st))"

definition ShouldTrackAllocation :: "u64 \<Rightarrow> MemType \<Rightarrow> bool \<times> u64" where
  "ShouldTrackAllocation pointer_size type = (True, pointer_size)"

section \<open>The sharded table as one map\<close>

lemma Demangle_Mangle [simp]: "DemanglePointer (ManglePointer p) = p"
  by (simp add: DemanglePointer_def ManglePointer_def xor.assoc)

lemma Mangle_Demangle [simp]: "ManglePointer (DemanglePointer k) = k"
  by (simp add: DemanglePointer_def ManglePointer_def xor.assoc)

lemma Mangle_inject [simp]: "ManglePointer p = ManglePointer q \<longleftrightarrow> p = q"
  by (metis Demangle_Mangle)

lemma ShardFor_less [simp]: "ShardFor k < kPointerShards"
  by (simp add: ShardFor_def kPointerShards_def and_63_less)

lemma shards_okD:
  assumes "shards_ok shs"
  shows "length shs = kPointerShards" "i < kPointerShards \<Longrightarrow> umap_ok (shs ! i)"
    "i < kPointerShards \<Longrightarrow> e \<in> set (shs ! i) \<Longrightarrow> ShardFor (fst e) = i"
  using assms by (auto simp: shards_ok_def)

lemma in_concat_shards:
  assumes "shards_ok shs"
  shows "e \<in> set (concat shs) \<longleftrightarrow> e \<in> set (shs ! ShardFor (fst e))"
proof -
  have "e \<in> set (concat shs) \<longleftrightarrow> (\<exists>i < kPointerShards. e \<in> set (shs ! i))"
    using shards_okD(1) [OF assms] by (auto simp: in_set_conv_nth [of _ shs]) (metis nth_mem)
  then show ?thesis using shards_okD(3) [OF assms] ShardFor_less by blast
qed

lemma distinct_concat_shards:
  assumes "shards_ok shs"
  shows "distinct (map fst (concat shs))"
proof -
  have "distinct (map fst (concat (map (\<lambda>i. shs ! i) [0..<n])))" if "n \<le> kPointerShards" for n
    using that
  proof (induction n)
    case (Suc n)
    have low: "ShardFor (fst e) < n" if "e \<in> set (concat (map (\<lambda>i. shs ! i) [0..<n]))" for e
    proof -
      from that obtain i where "i < n" "e \<in> set (shs ! i)" by auto
      then show ?thesis using shards_okD(3) [OF assms, of i e] Suc.prems by simp
    qed
    have high: "ShardFor (fst e) = n" if "e \<in> set (shs ! n)" for e
      using shards_okD(3) [OF assms] Suc.prems that by simp
    have "fst ` set (concat (map (\<lambda>i. shs ! i) [0..<n])) \<inter> fst ` set (shs ! n) = {}"
    proof (rule equals0I)
      fix x
      assume "x \<in> fst ` set (concat (map (\<lambda>i. shs ! i) [0..<n])) \<inter> fst ` set (shs ! n)"
      then obtain e e' where "e \<in> set (concat (map (\<lambda>i. shs ! i) [0..<n]))" "x = fst e"
        "e' \<in> set (shs ! n)" "x = fst e'" by blast
      then show False using low [of e] high [of e'] by simp
    qed
    with Suc shards_okD(2) [OF assms, of n] show ?case by (simp add: umap_ok_def)
  qed simp
  from this [of kPointerShards] show ?thesis
    using shards_okD(1) [OF assms] map_nth [of shs] by simp
qed

interpretation sm: live_map shards_ok shard_find shard_put shard_erase concat
proof
  fix shs :: shard_list and k v
  assume ok: "shards_ok shs"
  note okD = shards_okD [OF ok]
  have "\<forall>x \<in> fst ` set (AList.update k v (shs ! ShardFor k)). ShardFor x = ShardFor k"
    using okD(3) [OF ShardFor_less] by (auto simp only: dom_update)
  then show "shards_ok (shard_put k v shs)"
    using okD um.invar_put [of "shs ! ShardFor k" k v]
    by (auto simp: shards_ok_def shard_put_def nth_list_update)
  show "shards_ok (shard_erase k shs)"
    using okD um.invar_erase [of "shs ! ShardFor k" k]
    by (auto simp: shards_ok_def shard_erase_def nth_list_update AList.delete_eq split: prod.splits)
  show "shard_find (shard_put k v shs) = (shard_find shs)(k \<mapsto> v)"
    using okD by (auto simp: shard_find_def shard_put_def nth_list_update update_conv' fun_eq_iff)
  show "shard_find (shard_erase k shs) = (shard_find shs)(k := None)"
    using okD by (auto simp: shard_find_def shard_erase_def nth_list_update delete_conv' fun_eq_iff)
  show d: "distinct (map fst (concat shs))"
    by (rule distinct_concat_shards [OF ok])
  show "map_of (concat shs) = shard_find shs"
  proof (rule ext, rule option.expand)
    fix x
    have *: "map_of (concat shs) x = Some w \<longleftrightarrow> shard_find shs x = Some w" for w
      using d okD(2) [OF ShardFor_less] in_concat_shards [OF ok, of "(x, w)"]
      by (simp add: shard_find_def umap_ok_def)
    then show "(map_of (concat shs) x = None) = (shard_find shs x = None)"
      by (metis not_None_eq)
    show "map_of (concat shs) x \<noteq> None \<Longrightarrow> shard_find shs x \<noteq> None \<Longrightarrow>
      the (map_of (concat shs) x) = the (shard_find shs x)"
      using * by force
  qed
qed

lemmas sm_simps = sm.invar_put sm.invar_erase sm.lookup_put sm.lookup_erase

section \<open>Invariant\<close>

definition host_size :: "PointerInfoType \<Rightarrow> u64" where
  "host_size info = (if pi_mem_type info = DMA then 0 else pi_size info)"

definition dma_size :: "PointerInfoType \<Rightarrow> u64" where
  "dma_size info = (if pi_mem_type info = DMA then pi_size info else 0)"

definition holds_ref :: "nat \<Rightarrow> PointerInfoType \<Rightarrow> nat" where
  "holds_ref h info = (if pi_hash_index info = h then 1 else 0)"

abbreviation live :: "'a PointerTable_scheme \<Rightarrow> (u64 \<times> PointerInfoType) list" where
  "live st \<equiv> concat (shards st)"

definition counters_ok :: "'a PointerTable_scheme \<Rightarrow> bool" where
  "counters_ok st \<longleftrightarrow>
     current_used st = total pi_size (live st)
     \<and> current_host st = total host_size (live st)
     \<and> current_dma st = total dma_size (live st)"

definition filter_covers :: "'a PointerTable_scheme \<Rightarrow> bool" where
  "filter_covers st \<longleftrightarrow> pf.covers (pointer_filter st) (DemanglePointer ` dom (shard_find (shards st)))"

text \<open>\<open>M\<close> holds the stack references of the calls in flight.\<close>

definition refs_ok :: "nat multiset \<Rightarrow> 'a PointerTable_scheme \<Rightarrow> bool" where
  "refs_ok M st \<longleftrightarrow> frames_inv (\<lambda>h. total (holds_ref h) (live st) + count M h) st"

definition table_inv :: "nat multiset \<Rightarrow> 'a PointerTable_scheme \<Rightarrow> bool" where
  "table_inv M st \<longleftrightarrow> shards_ok (shards st) \<and> counters_ok st \<and> filter_covers st \<and> refs_ok M st"

lemma table_invD:
  assumes "table_inv M st"
  shows "shards_ok (shards st)" "counters_ok st" "filter_covers st" "refs_ok M st"
  using assms by (auto simp: table_inv_def)

lemma frames_inv_same:
  "key_to_index st' = key_to_index st \<Longrightarrow> frames st' = frames st \<Longrightarrow>
   cur_hash_index st' = cur_hash_index st \<Longrightarrow> frames_inv refs st' = frames_inv refs st"
  by (simp add: frames_inv_def live_references_def)

text \<open>Installing a record in place of whatever the key held.\<close>

definition shard_replace :: "u64 \<Rightarrow> PointerInfoType \<Rightarrow> shard_list \<Rightarrow> shard_list" where
  "shard_replace k v shs =
     shard_put k v (case shard_find shs k of None \<Rightarrow> shs | Some _ \<Rightarrow> shard_erase k shs)"

definition opt_sum :: "('v \<Rightarrow> 'a::comm_monoid_add) \<Rightarrow> 'v option \<Rightarrow> 'a" where
  "opt_sum f d = (case d of None \<Rightarrow> 0 | Some v \<Rightarrow> f v)"

lemma shard_replace_ok: "shards_ok shs \<Longrightarrow> shards_ok (shard_replace k v shs)"
  by (simp add: shard_replace_def sm_simps split: option.splits)

lemma shard_replace_find:
  "shards_ok shs \<Longrightarrow> shard_find (shard_replace k v shs) = (shard_find shs)(k \<mapsto> v)"
  by (simp add: shard_replace_def sm_simps split: option.splits)

lemma total_shard_replace:
  assumes "shards_ok shs"
  shows "total f (concat (shard_replace k v shs)) + opt_sum f (shard_find shs k)
         = f v + total f (concat shs)"
proof (cases "shard_find shs k")
  case None
  then show ?thesis using assms by (simp add: shard_replace_def opt_sum_def sm.total_put_new)
next
  case (Some d)
  then show ?thesis
    using assms sm.total_put_new [of "shard_erase k shs" k f v] sm.total_erase [OF assms Some, of f]
    by (simp add: shard_replace_def opt_sum_def sm_simps ac_simps)
qed

lemma total_shard_erase:
  "shards_ok shs \<Longrightarrow> shard_find shs k = Some d \<Longrightarrow>
   f d + total f (concat (shard_erase k shs)) = total f (concat shs)"
  by (rule sm.total_erase [symmetric])

definition opt_refs :: "PointerInfoType option \<Rightarrow> nat multiset" where
  "opt_refs d = (case d of None \<Rightarrow> {#} | Some i \<Rightarrow> {# pi_hash_index i #})"

lemma opt_refs_simps [simp]: "opt_refs None = {#}" "opt_refs (Some i) = {# pi_hash_index i #}"
  by (simp_all add: opt_refs_def)

lemma opt_sum_simps [simp]: "opt_sum f None = 0" "opt_sum f (Some v) = f v"
  by (simp_all add: opt_sum_def)

lemma count_opt_refs: "count (opt_refs d) h = opt_sum (holds_ref h) d"
  by (cases d) (auto simp: holds_ref_def)

lemma count_ops_sel [simp]:
  "shards (count_sub n t st) = shards st" "shards (count_add n t st) = shards st"
  "pointer_filter (count_sub n t st) = pointer_filter st"
  "pointer_filter (count_add n t st) = pointer_filter st"
  "frames (count_sub n t st) = frames st" "frames (count_add n t st) = frames st"
  "key_to_index (count_sub n t st) = key_to_index st" "key_to_index (count_add n t st) = key_to_index st"
  "cur_hash_index (count_sub n t st) = cur_hash_index st"
  "cur_hash_index (count_add n t st) = cur_hash_index st"
  "trace_log (count_sub n t st) = trace_log st" "trace_log (count_add n t st) = trace_log st"
  "peak_tot (count_sub n t st) = peak_tot st" "peak_tot (count_add n t st) = peak_tot st"
  "current_used (count_sub n t st) = current_used st - n"
  "current_used (count_add n t st) = current_used st + n"
  "current_host (count_sub n t st) = current_host st - (if t = DMA then 0 else n)"
  "current_host (count_add n t st) = current_host st + (if t = DMA then 0 else n)"
  "current_dma (count_sub n t st) = current_dma st - (if t = DMA then n else 0)"
  "current_dma (count_add n t st) = current_dma st + (if t = DMA then n else 0)"
  by (simp_all add: count_sub_def count_add_def Let_def)

lemma raise_ops_sel [simp]:
  "shards (raise_side t st) = shards st" "pointer_filter (raise_side t st) = pointer_filter st"
  "frames (raise_side t st) = frames st" "key_to_index (raise_side t st) = key_to_index st"
  "cur_hash_index (raise_side t st) = cur_hash_index st" "trace_log (raise_side t st) = trace_log st"
  "peak_tot (raise_side t st) = peak_tot st" "current_used (raise_side t st) = current_used st"
  "current_host (raise_side t st) = current_host st" "current_dma (raise_side t st) = current_dma st"
  by (simp_all add: raise_side_def)

lemma raise_total_eq:
  "raise_total n st = (n > peak_tot st, st\<lparr> peak_tot := max n (peak_tot st) \<rparr>)"
  by (auto simp: raise_total_def RaisePeak_def max_def)

lemma size_split: "host_size i = (if pi_mem_type i = DMA then 0 else pi_size i)"
  "dma_size i = (if pi_mem_type i = DMA then pi_size i else 0)"
  by (simp_all add: host_size_def dma_size_def)

lemma add_section_fields:
  assumes "add_section p n h ty tv st = (d, tot, raised, st')"
  defines "info \<equiv> \<lparr> pi_size = n, pi_hash_index = h, pi_mem_type = ty, pi_alloc_time = tv \<rparr>"
  shows "d = shard_find (shards st) (ManglePointer p)"
    and "shards st' = shard_replace (ManglePointer p) info (shards st)"
    and "pointer_filter st' = MarkPointerFilter p (pointer_filter st)"
    and "current_used st' = current_used st - opt_sum pi_size d + pi_size info"
    and "current_host st' = current_host st - opt_sum host_size d + host_size info"
    and "current_dma st' = current_dma st - opt_sum dma_size d + dma_size info"
    and "frames st' = frames st" "key_to_index st' = key_to_index st"
      "cur_hash_index st' = cur_hash_index st" "trace_log st' = trace_log st"
    and "tot = current_used st'" "raised = (tot > peak_tot st)" "peak_tot st' = max tot (peak_tot st)"
  using assms(1)
  by (auto simp: add_section_def Let_def raise_total_eq shard_replace_def info_def size_split
      split: option.splits)

lemma remap_section_fields:
  assumes "remap_section old new n st = Some (moved, d, tot, raised, st')"
  defines "info \<equiv> moved\<lparr> pi_size := n \<rparr>"
  shows "shard_find (shards st) (ManglePointer old) = Some moved"
    and "d = shard_find (shard_erase (ManglePointer old) (shards st)) (ManglePointer new)"
    and "shards st' = shard_replace (ManglePointer new) info (shard_erase (ManglePointer old) (shards st))"
    and "pointer_filter st' = MarkPointerFilter new (pointer_filter st)"
    and "current_used st' = current_used st - pi_size moved - opt_sum pi_size d + pi_size info"
    and "current_host st' = current_host st - host_size moved - opt_sum host_size d + host_size info"
    and "current_dma st' = current_dma st - dma_size moved - opt_sum dma_size d + dma_size info"
    and "frames st' = frames st" "key_to_index st' = key_to_index st"
      "cur_hash_index st' = cur_hash_index st" "trace_log st' = trace_log st"
    and "tot = current_used st'" "raised = (tot > peak_tot st)" "peak_tot st' = max tot (peak_tot st)"
  using assms(1)
  by (auto simp: remap_section_def Let_def raise_total_eq shard_replace_def info_def size_split
      split: option.splits if_splits)

section \<open>Every section keeps the invariant\<close>

lemma filter_covers_mark:
  assumes "filter_covers st" "dom (shard_find (shards st')) \<subseteq> insert (ManglePointer p) (dom (shard_find (shards st)))"
    and "pointer_filter st' = MarkPointerFilter p (pointer_filter st)"
  shows "filter_covers st'"
proof -
  have "DemanglePointer ` dom (shard_find (shards st'))
        \<subseteq> insert p (DemanglePointer ` dom (shard_find (shards st)))"
    using image_mono [OF assms(2), of DemanglePointer] by simp
  then show ?thesis
    using pf.covers_mono [OF pf.covers_mark [OF assms(1) [unfolded filter_covers_def]]] assms(3)
    by (simp add: filter_covers_def)
qed

lemma filter_covers_mono:
  assumes "filter_covers st" "dom (shard_find (shards st')) \<subseteq> dom (shard_find (shards st))"
    and "pointer_filter st' = pointer_filter st"
  shows "filter_covers st'"
  using assms pf.covers_mono [OF _ image_mono [OF assms(2), of DemanglePointer]]
  unfolding filter_covers_def by simp

lemma counter_follows_sum:
  "c' = c - a + b \<Longrightarrow> t' + a = b + t \<Longrightarrow> c = t \<Longrightarrow> c' = t'" for a b c c' t t' :: u64
proof -
  assume c: "c' = c - a + b" "c = t" and "t' + a = b + t"
  then have "t' = b + t - a" by (metis add_diff_cancel_right')
  with c show "c' = t'" by simp
qed

text \<open>
  A step that turns the sums of the live entries by the same amounts as the
  counters, and hands the references that left the table to the calls in flight.
\<close>

lemma table_inv_step:
  assumes inv: "table_inv M st" and ok: "shards_ok (shards st')" and flt: "filter_covers st'"
    and tot: "\<And>f :: PointerInfoType \<Rightarrow> u64. total f (live st') + opt_sum f d = opt_sum f i + total f (live st)"
    and refs: "\<And>f :: PointerInfoType \<Rightarrow> nat. total f (live st') + opt_sum f d = opt_sum f i + total f (live st)"
    and cnt: "current_used st' = current_used st - opt_sum pi_size d + opt_sum pi_size i"
      "current_host st' = current_host st - opt_sum host_size d + opt_sum host_size i"
      "current_dma st' = current_dma st - opt_sum dma_size d + opt_sum dma_size i"
    and same: "frames st' = frames st" "key_to_index st' = key_to_index st"
      "cur_hash_index st' = cur_hash_index st"
    and M: "M + opt_refs d = M' + opt_refs i"
  shows "table_inv M' st'"
proof -
  have "counters_ok st'"
    using table_invD(2) [OF inv] unfolding counters_ok_def
    by (intro conjI counter_follows_sum [OF cnt(1) tot] counter_follows_sum [OF cnt(2) tot]
        counter_follows_sum [OF cnt(3) tot]) simp_all
  moreover have "total (holds_ref h) (live st') + count M' h = total (holds_ref h) (live st) + count M h" for h
  proof -
    have "count M h + opt_sum (holds_ref h) d = count M' h + opt_sum (holds_ref h) i"
      using arg_cong [OF M, of "\<lambda>X. count X h"] by (simp add: count_opt_refs)
    with refs [of "holds_ref h"] show ?thesis by simp
  qed
  then have "refs_ok M' st'"
    using table_invD(4) [OF inv] by (simp add: refs_ok_def frames_inv_same [OF same(2,1,3)])
  ultimately show ?thesis using ok flt by (simp add: table_inv_def)
qed

lemma table_inv_add_section:
  assumes "table_inv (add_mset h M) st" "add_section p n h ty tv st = (d, tot, raised, st')"
  shows "table_inv (M + opt_refs d) st'"
proof -
  note f = add_section_fields [OF assms(2)]
  note inv = table_invD [OF assms(1)]
  show ?thesis
  proof (rule table_inv_step [OF assms(1), where d = d
        and i = "Some \<lparr> pi_size = n, pi_hash_index = h, pi_mem_type = ty, pi_alloc_time = tv \<rparr>"])
    show "filter_covers st'"
      by (rule filter_covers_mark [OF inv(3) _ f(3)]) (auto simp: f(2) shard_replace_find inv(1))
  qed (use f inv(1) total_shard_replace [OF inv(1)] in \<open>simp_all add: shard_replace_ok\<close>)
qed

lemma table_inv_remap_section:
  assumes "table_inv M st" "remap_section old new n st = Some (moved, d, tot, raised, st')"
  shows "table_inv (M + opt_refs d) st'"
proof -
  note f = remap_section_fields [OF assms(2)]
  note inv = table_invD [OF assms(1)]
  let ?sh = "shard_erase (ManglePointer old) (shards st)"
  have ok: "shards_ok ?sh" by (simp add: sm.invar_erase inv(1))
  define st1 where "st1 = (count_sub (pi_size moved) (pi_mem_type moved) st)\<lparr> shards := ?sh \<rparr>"
  have "table_inv (add_mset (pi_hash_index moved) M) st1"
  proof (rule table_inv_step [OF assms(1), where d = "Some moved" and i = None])
    show "filter_covers st1"
      by (rule filter_covers_mono [OF inv(3)]) (auto simp: st1_def sm_simps inv(1) split: if_splits)
  qed (use f(1) ok total_shard_erase [OF inv(1) f(1)] in
      \<open>simp_all add: st1_def size_split add.commute\<close>)
  from this show ?thesis
  proof (rule table_inv_step [where d = d and i = "Some (moved\<lparr> pi_size := n \<rparr>)"])
    show "filter_covers st'"
      by (rule filter_covers_mark [OF inv(3) _ f(4)])
        (auto simp: f(3) shard_replace_find ok sm_simps inv(1) split: if_splits)
  qed (use f ok total_shard_replace [OF ok] in
      \<open>simp_all add: shard_replace_ok st1_def size_split\<close>)
qed

lemma table_inv_TakeEntry:
  assumes "table_inv M st" "TakeEntry p st = (d, st')"
  shows "table_inv (M + opt_refs d) st'"
proof (cases d)
  case None
  with assms show ?thesis by (auto simp: TakeEntry_def Let_def split: option.splits)
next
  case (Some i)
  with assms(2) have f: "shard_find (shards st) (ManglePointer p) = Some i"
    "st' = (count_sub (pi_size i) (pi_mem_type i) st)\<lparr> shards := shard_erase (ManglePointer p) (shards st) \<rparr>"
    by (auto simp: TakeEntry_def Let_def split: option.splits)
  note inv = table_invD [OF assms(1)]
  show ?thesis
  proof (rule table_inv_step [OF assms(1), where d = d and i = None])
    show "filter_covers st'"
      by (rule filter_covers_mono [OF inv(3)]) (auto simp: f(2) sm_simps inv(1) split: if_splits)
  qed (use f inv(1) total_shard_erase [OF inv(1) f(1)] in
      \<open>simp_all add: Some size_split sm_simps add.commute\<close>)
qed

lemma table_inv_RestoreEntry:
  assumes "table_inv (add_mset (pi_hash_index i) M) st" "shard_find (shards st) (ManglePointer p) = None"
  shows "table_inv M (RestoreEntry p i st)"
proof -
  note inv = table_invD [OF assms(1)]
  show ?thesis
  proof (rule table_inv_step [OF assms(1), where d = None and i = "Some i"])
    show "filter_covers (RestoreEntry p i st)"
      by (rule filter_covers_mark [OF inv(3), where p = p])
        (auto simp: RestoreEntry_def Let_def sm_simps inv(1) split: if_splits)
  qed (use inv(1) assms(2) in
      \<open>simp_all add: RestoreEntry_def Let_def sm_simps sm.total_put_new size_split\<close>)
qed

section \<open>Stack references and trace markers\<close>

lemma RemoveBacktrace_sel [simp]:
  "shards (RemoveBacktrace cfg h st) = shards st"
  "pointer_filter (RemoveBacktrace cfg h st) = pointer_filter st"
  "current_used (RemoveBacktrace cfg h st) = current_used st"
  "current_host (RemoveBacktrace cfg h st) = current_host st"
  "current_dma (RemoveBacktrace cfg h st) = current_dma st"
  "peak_tot (RemoveBacktrace cfg h st) = peak_tot st"
  "trace_log (RemoveBacktrace cfg h st) = trace_log st"
  by (simp_all add: RemoveBacktrace_def Let_def split: option.splits)

lemma intern_stack_sel:
  assumes "intern_stack raw st = (h, st')"
  shows "shards st' = shards st" "pointer_filter st' = pointer_filter st"
    "current_used st' = current_used st" "current_host st' = current_host st"
    "current_dma st' = current_dma st" "peak_tot st' = peak_tot st" "trace_log st' = trace_log st"
  using assms by (auto simp: intern_stack_def Let_def split: option.splits)

lemma AddBacktrace_sel:
  assumes "AddBacktrace cfg capture n sz st = (h, st')"
  shows "shards st' = shards st" "pointer_filter st' = pointer_filter st"
    "current_used st' = current_used st" "current_host st' = current_host st"
    "current_dma st' = current_dma st" "peak_tot st' = peak_tot st" "trace_log st' = trace_log st"
  using assms intern_stack_sel [of _ st h st']
  by (auto simp: AddBacktrace_def Let_def split: if_splits)

lemma table_inv_frames:
  assumes "table_inv M st"
    and "shards st' = shards st" "pointer_filter st' = pointer_filter st"
      "current_used st' = current_used st" "current_host st' = current_host st"
      "current_dma st' = current_dma st"
    and "frames_inv (\<lambda>h. total (holds_ref h) (live st) + count M' h) st'"
  shows "table_inv M' st'"
  using assms by (simp add: table_inv_def counters_ok_def filter_covers_def refs_ok_def)

lemma table_inv_AddBacktrace:
  assumes "table_inv M st" "capture_ok capture" "AddBacktrace cfg capture n sz st = (h, st')"
  shows "kBacktraceEmptyIndex \<le> h \<and> table_inv (add_mset h M) st'"
proof -
  let ?refs = "\<lambda>x. total (holds_ref x) (live st) + count M x"
  have "kBacktraceEmptyIndex \<le> h \<and> frames_inv (?refs(h := ?refs h + 1)) st'"
    by (rule frames_inv_AddBacktrace [OF _ assms(2,3)])
      (use table_invD(4) [OF assms(1)] in \<open>simp add: refs_ok_def\<close>)
  moreover have "?refs(h := ?refs h + 1) = (\<lambda>x. total (holds_ref x) (live st) + count (add_mset h M) x)"
    by auto
  ultimately show ?thesis
    using table_inv_frames [OF assms(1) AddBacktrace_sel(1-5) [OF assms(3)]] by simp
qed

lemma table_inv_RemoveBacktrace:
  assumes "table_inv (add_mset h M) st"
  shows "table_inv M (RemoveBacktrace cfg h st)"
proof -
  let ?refs = "\<lambda>x. total (holds_ref x) (live st) + count (add_mset h M) x"
  have "frames_inv (?refs(h := ?refs h - 1)) (RemoveBacktrace cfg h st)"
    by (rule frames_inv_RemoveBacktrace')
      (use table_invD(4) [OF assms] in \<open>simp_all add: refs_ok_def\<close>)
  moreover have "?refs(h := ?refs h - 1) = (\<lambda>x. total (holds_ref x) (live st) + count M x)"
    by auto
  ultimately show ?thesis
    by (intro table_inv_frames [OF assms]) simp_all
qed

lemma WriteAllocTraceMarker_sel [simp]:
  "shards (WriteAllocTraceMarker dc c p h t n st) = shards st"
  "pointer_filter (WriteAllocTraceMarker dc c p h t n st) = pointer_filter st"
  "current_used (WriteAllocTraceMarker dc c p h t n st) = current_used st"
  "current_host (WriteAllocTraceMarker dc c p h t n st) = current_host st"
  "current_dma (WriteAllocTraceMarker dc c p h t n st) = current_dma st"
  "peak_tot (WriteAllocTraceMarker dc c p h t n st) = peak_tot st"
  "frames (WriteAllocTraceMarker dc c p h t n st) = frames st"
  "key_to_index (WriteAllocTraceMarker dc c p h t n st) = key_to_index st"
  "cur_hash_index (WriteAllocTraceMarker dc c p h t n st) = cur_hash_index st"
  by (simp_all add: WriteAllocTraceMarker_def)

lemma table_inv_same:
  assumes "shards st' = shards st" "pointer_filter st' = pointer_filter st"
    "current_used st' = current_used st" "current_host st' = current_host st"
    "current_dma st' = current_dma st" "frames st' = frames st" "key_to_index st' = key_to_index st"
    "cur_hash_index st' = cur_hash_index st"
  shows "table_inv M st' = table_inv M st"
  using assms frames_inv_same [OF assms(7,6,8)]
  by (simp add: table_inv_def counters_ok_def filter_covers_def refs_ok_def)

lemma table_inv_marker [simp]: "table_inv M (WriteAllocTraceMarker dc c p h t n st) = table_inv M st"
  by (rule table_inv_same) simp_all

lemma table_inv_TraceEntryReleased [simp]: "table_inv M (TraceEntryReleased dc p i st) = table_inv M st"
  by (simp add: TraceEntryReleased_def)

lemma table_inv_Remove:
  assumes "table_inv M st"
  shows "table_inv M (Remove dc p st)"
proof (cases "TakeEntry p st")
  case (Pair d st')
  from table_inv_TakeEntry [OF assms Pair] show ?thesis
    by (cases d) (auto simp: Remove_def Pair intro!: table_inv_RemoveBacktrace)
qed

section \<open>The initial table\<close>

definition shards_init :: shard_list where
  "shards_init = replicate kPointerShards []"

lemma shards_init_ok [simp]: "shards_ok shards_init"
  by (simp add: shards_ok_def shards_init_def)

lemma shards_init_find [simp]: "shard_find shards_init k = None"
  using ShardFor_less [of k] by (simp add: shard_find_def shards_init_def)

lemma shards_init_live [simp]: "concat shards_init = []"
  by (simp add: shards_init_def)

definition PointerTable_init :: PointerTable where
  "PointerTable_init = \<lparr> key_to_index = [], frames = [], backtraces_info = [],
     cur_hash_index = kBacktraceEmptyIndex + 1, shards = shards_init, pointer_filter = filter_init,
     current_used = 0, current_host = 0, current_dma = 0, peak_tot = 0, peak_host = 0, peak_dma = 0,
     trace_log = [] \<rparr>"

lemma table_inv_empty:
  assumes "shards st = shards_init" "pointer_filter st = filter_init" "current_used st = 0"
    "current_host st = 0" "current_dma st = 0" "frames st = []" "key_to_index st = []"
    "cur_hash_index st = kBacktraceEmptyIndex + 1"
  shows "table_inv {#} st"
  using assms covers_filter_init
  by (simp add: table_inv_def counters_ok_def filter_covers_def refs_ok_def frames_inv_def
      live_references_def dom_def)

lemma table_inv_init: "table_inv {#} PointerTable_init"
  by (rule table_inv_empty) (simp_all add: PointerTable_init_def)

section \<open>Properties\<close>


definition demo_tv :: timeval where
  "demo_tv = \<lparr> tv_sec = 1, tv_usec = 2 \<rparr>"

definition demo_table :: PointerTable where
  "demo_table = snd (snd (snd (add_section 0x5000 64 1 HOST demo_tv PointerTable_init)))"

lemma demo_table_inv: "table_inv {#} demo_table"
proof -
  have "table_inv (add_mset 1 {#}) PointerTable_init"
    using table_inv_init by (simp add: table_inv_def refs_ok_def frames_inv_def hash_indices)
  from table_inv_add_section [OF this, where p = "0x5000" and n = 64 and ty = HOST and tv = demo_tv] show ?thesis
    by (auto simp: demo_table_def add_section_def Let_def PointerTable_init_def raise_total_eq)
qed

lemma demo_table_find:
  "shard_find (shards demo_table) (ManglePointer 0x5000)
   = Some \<lparr> pi_size = 64, pi_hash_index = 1, pi_mem_type = HOST, pi_alloc_time = demo_tv \<rparr>"
  by (simp add: demo_table_def add_section_def Let_def PointerTable_init_def raise_total_eq
      sm.lookup_put)


text \<open>
  A detached record that is handed back leaves the tracker as it was. After
  \<^verbatim>\<open>TakeEntry\<close> and \<^verbatim>\<open>RestoreEntry\<close> of the same record every pointer has the record
  it had, the counters and the stack table are those of before and no peak
  moved: a failed \<^verbatim>\<open>realloc\<close> or \<^verbatim>\<open>munmap\<close> is invisible in the accounting.
\<close>

theorem take_restore_roundtrip:
  assumes "shards_ok (shards st)" "TakeEntry p st = (Some info, st1)"
  defines "st2 \<equiv> RestoreEntry p info st1"
  shows "shard_find (shards st2) = shard_find (shards st)
    \<and> st2\<lparr> shards := shards st, pointer_filter := pointer_filter st \<rparr> = st"
proof -
  from assms(2) have f: "shard_find (shards st) (ManglePointer p) = Some info"
    "st1 = (count_sub (pi_size info) (pi_mem_type info) st)\<lparr> shards := shard_erase (ManglePointer p) (shards st) \<rparr>"
    by (auto simp: TakeEntry_def Let_def split: option.splits)
  have "shard_find (shards st2) = shard_find (shards st)"
    using f(1) assms(1) by (simp add: st2_def f(2) RestoreEntry_def Let_def sm_simps fun_upd_idem)
  then show ?thesis
    by (simp add: st2_def f(2) RestoreEntry_def count_add_def count_sub_def Let_def)
qed

theorem take_restore_roundtrip_witness:
  "shard_find (shards (RestoreEntry 0x5000 (the (fst (TakeEntry 0x5000 demo_table)))
      (snd (TakeEntry 0x5000 demo_table)))) = shard_find (shards demo_table)"
proof -
  have "TakeEntry 0x5000 demo_table = (Some (the (fst (TakeEntry 0x5000 demo_table))),
      snd (TakeEntry 0x5000 demo_table))"
    by (simp add: TakeEntry_def demo_table_find Let_def)
  from take_restore_roundtrip [OF _ this] demo_table_inv show ?thesis
    by (simp add: table_inv_def)
qed

end
