(* ===== verification/ReportList.thy ===== *)
theory ReportList
  imports PointerTable SortBy "HOL-Library.Product_Lexorder"
begin

text \<open>
  The lists a report is written from (\<^verbatim>\<open>backtrace/src/PointerData.cpp\<close>): \<^verbatim>\<open>GetList\<close>
  walks every shard under all locks, \<^verbatim>\<open>GetUniqueList\<close> sorts by size and merges
  neighbours of equal size and stack. The lemmas show that merging loses no
  allocation and no byte, and where it does not merge everything it could.
\<close>

section \<open>Data\<close>

record OmittedStats =
  om_count :: nat
  om_bytes :: u64

text \<open>
  \<open>li_frame_info\<close> is the pointer into the stack table: the key of the entry, which
  identifies it, and its contents.
\<close>

record ListInfoType =
  li_pointer :: ptr
  li_num_allocations :: nat
  li_size :: u64
  li_mem_type :: MemType
  li_frame_info :: "(nat \<times> FrameInfoType) option"
  li_raw_frames :: "u64 list option"
  li_backtrace_info :: "SymbolizedFrame list option"
  li_capture_state :: StackCaptureState
  li_terminal_error :: nat
  li_alloc_time :: timeval
  li_hash_index :: nat

definition frame_id :: "ListInfoType \<Rightarrow> nat option" where
  "frame_id a = map_option fst (li_frame_info a)"

definition frame_depth :: "ListInfoType \<Rightarrow> nat" where
  "frame_depth a =
     (case li_frame_info a of
        None \<Rightarrow> 0
      | Some (h, fi) \<Rightarrow> (case fi_frames fi of None \<Rightarrow> 0 | Some fs \<Rightarrow> length fs))"

section \<open>GetList\<close>

definition list_item :: "'a PointerTable_scheme \<Rightarrow> u64 \<times> PointerInfoType \<Rightarrow> ListInfoType" where
  "list_item st entry =
     (let info = snd entry;
          hash_index = pi_hash_index info;
          frame_info = map_option (\<lambda>fi. (hash_index, fi)) (map_of (frames st) hash_index)
      in \<lparr> li_pointer = DemanglePointer (fst entry),
           li_num_allocations = 1,
           li_size = RealSize info,
           li_mem_type = pi_mem_type info,
           li_frame_info = frame_info,
           li_raw_frames = (case frame_info of None \<Rightarrow> None | Some (h, fi) \<Rightarrow> fi_frames fi),
           li_backtrace_info = map_of (backtraces_info st) hash_index,
           li_capture_state =
             (case frame_info of None \<Rightarrow> StateEmpty | Some (h, fi) \<Rightarrow> fi_capture_state fi),
           li_terminal_error =
             (case frame_info of None \<Rightarrow> 0 | Some (h, fi) \<Rightarrow> fi_terminal_error fi),
           li_alloc_time = pi_alloc_time info,
           li_hash_index = hash_index \<rparr>)"

definition has_stack :: "u64 \<times> PointerInfoType \<Rightarrow> bool" where
  "has_stack entry \<longleftrightarrow> \<not> pi_hash_index (snd entry) \<le> kBacktraceEmptyIndex"

fun walk_entries ::
    "'a PointerTable_scheme \<Rightarrow> bool \<Rightarrow> (u64 \<times> PointerInfoType) list
     \<Rightarrow> ListInfoType list \<times> OmittedStats \<Rightarrow> ListInfoType list \<times> OmittedStats" where
  "walk_entries st only_with_backtrace [] acc = acc"
| "walk_entries st only_with_backtrace (entry # es) (items, omitted) =
     (if \<not> has_stack entry \<and> only_with_backtrace
      then walk_entries st only_with_backtrace es
             (items, omitted\<lparr> om_count := om_count omitted + 1,
                              om_bytes := om_bytes omitted + RealSize (snd entry) \<rparr>)
      else walk_entries st only_with_backtrace es (items @ [list_item st entry], omitted))"

definition GetList ::
    "'a PointerTable_scheme \<Rightarrow> bool \<Rightarrow> (ListInfoType \<Rightarrow> ListInfoType \<Rightarrow> bool)
     \<Rightarrow> ListInfoType list \<times> OmittedStats" where
  "GetList st only_with_backtrace pred =
     (let (items, omitted) =
            walk_entries st only_with_backtrace (live st) ([], \<lparr> om_count = 0, om_bytes = 0 \<rparr>)
      in (std_sort pred items, omitted))"

section \<open>GetUniqueList\<close>

text \<open>The comparator: size descending, stack-less last, deeper first, pointer.\<close>

definition unique_pred :: "ListInfoType \<Rightarrow> ListInfoType \<Rightarrow> bool" where
  "unique_pred a b =
     (if li_size a \<noteq> li_size b then li_size a > li_size b
      else case (li_frame_info a, li_frame_info b) of
        (None, Some _) \<Rightarrow> False
      | (Some _, None) \<Rightarrow> True
      | (None, None) \<Rightarrow> li_pointer a < li_pointer b
      | (Some _, Some _) \<Rightarrow>
          if frame_depth a \<noteq> frame_depth b then frame_depth a > frame_depth b
          else li_pointer a < li_pointer b)"

definition same_site :: "ListInfoType \<Rightarrow> ListInfoType \<Rightarrow> bool" where
  "same_site a b \<longleftrightarrow> \<not> (li_size a \<noteq> li_size b \<or> frame_id a \<noteq> frame_id b)"

text \<open>The merging loop: each item absorbs the run of same-site items behind it.\<close>

function merge_dups :: "ListInfoType list \<Rightarrow> ListInfoType list" where
  "merge_dups [] = []"
| "merge_dups (x # xs) =
     x\<lparr> li_num_allocations := li_num_allocations x + length (takeWhile (same_site x) xs) \<rparr>
     # merge_dups (dropWhile (same_site x) xs)"
  by pat_completeness auto
termination
  by (relation "measure length") (auto simp: le_imp_less_Suc length_dropWhile_le)

definition GetUniqueList :: "'a PointerTable_scheme \<Rightarrow> bool \<Rightarrow> ListInfoType list" where
  "GetUniqueList st only_with_backtrace =
     merge_dups (fst (GetList st only_with_backtrace unique_pred))"

section \<open>What the walk visits\<close>

lemma walk_entries_items:
  "fst (walk_entries st only es (items, om)) =
     items @ map (list_item st) (filter (\<lambda>e. has_stack e \<or> \<not> only) es)"
  by (induction es arbitrary: items om) auto

lemma walk_entries_omitted:
  "om_count (snd (walk_entries st only es (items, om))) =
     om_count om + length (filter (\<lambda>e. \<not> has_stack e \<and> only) es)
   \<and> om_bytes (snd (walk_entries st only es (items, om))) =
     om_bytes om + total RealSize (filter (\<lambda>e. \<not> has_stack e \<and> only) es)"
  by (induction es arbitrary: items om) (auto simp: add.assoc)

definition report_entries :: "'a PointerTable_scheme \<Rightarrow> bool \<Rightarrow> (u64 \<times> PointerInfoType) list" where
  "report_entries st only = filter (\<lambda>e. has_stack e \<or> \<not> only) (live st)"

lemma mset_GetList:
  "mset (fst (GetList st only pred)) = mset (map (list_item st) (report_entries st only))"
  by (simp add: GetList_def Let_def case_prod_beta walk_entries_items report_entries_def)

lemma list_item_sel [simp]:
  "li_num_allocations (list_item st e) = 1" "li_size (list_item st e) = RealSize (snd e)"
  "li_pointer (list_item st e) = DemanglePointer (fst e)"
  "li_hash_index (list_item st e) = pi_hash_index (snd e)"
  by (simp_all add: list_item_def Let_def)

section \<open>The comparator\<close>

definition unique_key :: "ListInfoType \<Rightarrow> int \<times> nat \<times> int \<times> int" where
  "unique_key a =
     (- uint (li_size a), if li_frame_info a = None then 1 else 0,
      if li_frame_info a = None then 0 else - int (frame_depth a), uint (li_pointer a))"

lemma unique_pred_key: "unique_pred a b \<longleftrightarrow> unique_key a < unique_key b"
  by (auto simp: unique_pred_def unique_key_def less_prod_def less_eq_prod_def word_less_def
      word_uint_eq_iff split: option.splits)

interpretation up: strict_weak_order unique_pred
  by (rule strict_weak_order_key) (rule unique_pred_key)

lemma unique_pred_num [simp]:
  "unique_pred (a\<lparr> li_num_allocations := n \<rparr>) b = unique_pred a b"
  "unique_pred a (b\<lparr> li_num_allocations := n \<rparr>) = unique_pred a b"
  by (simp_all add: unique_pred_key unique_key_def frame_depth_def)

section \<open>Merging\<close>

lemma frame_id_num [simp]: "frame_id (a\<lparr> li_num_allocations := n \<rparr>) = frame_id a"
  by (simp add: frame_id_def)

definition site_sum :: "(ListInfoType \<Rightarrow> 'a::comm_semiring_1) \<Rightarrow> ListInfoType list \<Rightarrow> 'a" where
  "site_sum w xs = (\<Sum>x\<leftarrow>xs. of_nat (li_num_allocations x) * w x)"

definition site_weight :: "(ListInfoType \<Rightarrow> 'a) \<Rightarrow> bool" where
  "site_weight w \<longleftrightarrow> (\<forall>a b. same_site a b \<longrightarrow> w a = w b)
     \<and> (\<forall>a n. w (a\<lparr> li_num_allocations := n \<rparr>) = w a)"

lemma site_sum_Nil [simp]: "site_sum w [] = 0"
  by (simp add: site_sum_def)

lemma site_sum_Cons [simp]: "site_sum w (x # xs) = of_nat (li_num_allocations x) * w x + site_sum w xs"
  by (simp add: site_sum_def)

lemma site_sum_append [simp]: "site_sum w (xs @ ys) = site_sum w xs + site_sum w ys"
  by (simp add: site_sum_def)

lemma site_sum_same:
  "\<forall>y \<in> set ys. li_num_allocations y = 1 \<and> w y = c \<Longrightarrow> site_sum w ys = of_nat (length ys) * c"
  by (induction ys) (auto simp: algebra_simps)

lemma site_sum_merge_dups:
  assumes "site_weight w" "\<forall>x \<in> set xs. li_num_allocations x = 1"
  shows "site_sum w (merge_dups xs) = site_sum w xs"
  using assms(2)
proof (induction xs rule: merge_dups.induct)
  case (2 x xs)
  let ?d = "takeWhile (same_site x) xs" and ?r = "dropWhile (same_site x) xs"
  have "site_sum w ?d = of_nat (length ?d) * w x"
    using assms(1) "2.prems"
    by (intro site_sum_same) (auto simp: site_weight_def dest!: set_takeWhileD)
  moreover have "site_sum w (merge_dups ?r) = site_sum w ?r"
    using 2 by (auto dest: set_dropWhileD)
  moreover have "site_sum w xs = site_sum w ?d + site_sum w ?r"
    by (metis site_sum_append takeWhile_dropWhile_id)
  moreover have "w (x\<lparr> li_num_allocations := n \<rparr>) = w x" for n
    using assms(1) by (simp add: site_weight_def)
  ultimately show ?case using "2.prems" by (simp add: algebra_simps)
qed simp

lemma merge_dups_neighbours:
  "successively (\<lambda>a b. \<not> same_site a b) (merge_dups xs)"
proof (induction xs rule: merge_dups.induct)
  case (2 x xs)
  show ?case
  proof (cases "dropWhile (same_site x) xs")
    case (Cons y ys)
    then have "\<not> same_site x y" by (metis dropWhile_eq_Cons_conv)
    with 2 Cons show ?thesis by (simp add: same_site_def)
  next
    case Nil
    show ?thesis unfolding merge_dups.simps Nil by simp
  qed
qed simp

lemma merge_dups_origin:
  "y \<in> set (merge_dups xs) \<Longrightarrow> \<exists>x \<in> set xs. \<exists>n. y = x\<lparr> li_num_allocations := n \<rparr>"
  by (induction xs rule: merge_dups.induct) (auto dest!: set_dropWhileD)

lemma sorted_merge_dups:
  "sorted_wrt (\<lambda>a b. \<not> unique_pred b a) xs \<Longrightarrow> sorted_wrt (\<lambda>a b. \<not> unique_pred b a) (merge_dups xs)"
proof (induction xs rule: merge_dups.induct)
  case (2 x xs)
  have "sorted_wrt (\<lambda>a b. \<not> unique_pred b a) (dropWhile (same_site x) xs)"
    using "2.prems" by (metis sorted_wrt.simps(2) sorted_wrt_append takeWhile_dropWhile_id)
  with 2 show ?case
    by (auto dest!: merge_dups_origin set_dropWhileD)
qed simp

section \<open>Properties\<close>

lemma site_sum_mset: "mset xs = mset ys \<Longrightarrow> site_sum w xs = site_sum w ys"
  by (simp only: site_sum_def sum_mset_sum_list [symmetric] mset_map)

lemma GetList_ones: "\<forall>x \<in> set (fst (GetList st only pred)). li_num_allocations x = 1"
  using arg_cong [OF mset_GetList, of set_mset st only pred] by auto

lemma site_sum_GetUniqueList:
  assumes "site_weight w"
  shows "site_sum w (GetUniqueList st only) = (\<Sum>e\<leftarrow>report_entries st only. w (list_item st e))"
proof -
  have "site_sum w (GetUniqueList st only) = site_sum w (map (list_item st) (report_entries st only))"
    unfolding GetUniqueList_def
    by (simp only: site_sum_merge_dups [OF assms GetList_ones] site_sum_mset [OF mset_GetList])
  then show ?thesis by (simp add: site_sum_def comp_def)
qed

lemma site_weights:
  "site_weight (\<lambda>x. 1 :: nat)" "site_weight li_size"
  "site_weight (\<lambda>x. if frame_id x = Some h then 1 else 0 :: nat)"
  by (auto simp: site_weight_def same_site_def)

text \<open>
  C35: merging is exact. The counts of the unique list add up to the number of
  live allocations it reports, count times size adds up to their bytes, the
  counts of the items of any one stack add up to its allocations; the list is
  ordered by the report's comparator and no two neighbours share size and stack.
\<close>

theorem GetUniqueList_conserves:
  "site_sum (\<lambda>x. 1 :: nat) (GetUniqueList st only) = length (report_entries st only)
   \<and> site_sum li_size (GetUniqueList st only) = total RealSize (report_entries st only)
   \<and> site_sum (\<lambda>x. if frame_id x = Some h then 1 else 0 :: nat) (GetUniqueList st only)
       = length (filter (\<lambda>e. frame_id (list_item st e) = Some h) (report_entries st only))
   \<and> sorted_wrt (\<lambda>a b. \<not> unique_pred b a) (GetUniqueList st only)
   \<and> successively (\<lambda>a b. \<not> same_site a b) (GetUniqueList st only)"
proof (intro conjI)
  show "sorted_wrt (\<lambda>a b. \<not> unique_pred b a) (GetUniqueList st only)"
    by (simp add: GetUniqueList_def GetList_def Let_def case_prod_beta sorted_merge_dups
        up.sorted_std_sort)
  show "successively (\<lambda>a b. \<not> same_site a b) (GetUniqueList st only)"
    by (simp add: GetUniqueList_def merge_dups_neighbours)
  have "(\<Sum>e\<leftarrow>es. if frame_id (list_item st e) = Some h then 1 else 0 :: nat)
      = length (filter (\<lambda>e. frame_id (list_item st e) = Some h) es)" for es
    by (induction es) auto
  then show "site_sum (\<lambda>x. if frame_id x = Some h then 1 else 0 :: nat) (GetUniqueList st only)
       = length (filter (\<lambda>e. frame_id (list_item st e) = Some h) (report_entries st only))"
    by (simp only: site_sum_GetUniqueList [OF site_weights(3)])
  show "site_sum li_size (GetUniqueList st only) = total RealSize (report_entries st only)"
    by (simp add: site_sum_GetUniqueList [OF site_weights(2)] total_def)
  show "site_sum (\<lambda>x. 1 :: nat) (GetUniqueList st only) = length (report_entries st only)"
    by (simp only: site_sum_GetUniqueList [OF site_weights(1)]) (simp add: sum_list_triv)
qed

end
