(* ===== verification/ObservedTypes.thy ===== *)
theory ObservedTypes
  imports Prelude
begin

text \<open>
  The readings of the evaluator-visible footprint that the tracker and the
  sampler exchange (\<^verbatim>\<open>backtrace/include/ObservedMemory.h\<close>), and the threshold a
  new peak has to pass before a snapshot is rebuilt
  (\<^verbatim>\<open>NextPeakThreshold\<close> in \<^verbatim>\<open>backtrace/src/ObservedMemory.cpp\<close>).
\<close>

record RssBreakdown =
  rss_vm_rss_kb :: u64
  rss_anon_kb :: u64
  rss_file_kb :: u64
  rss_shmem_kb :: u64
  rss_valid :: bool

definition RssBreakdown_init :: RssBreakdown where
  "RssBreakdown_init = \<lparr> rss_vm_rss_kb = 0, rss_anon_kb = 0, rss_file_kb = 0,
     rss_shmem_kb = 0, rss_valid = False \<rparr>"

datatype DmaSource = DmaUnprobed | DmaNone | DmaFdAndMaps | DmaIonProcInfo
datatype GpuMmapSource = GpuUnprobed | GpuNotApplicable | GpuMaps | GpuKgsl

record ObservedMemSample =
  om_rss_bytes :: u64
  om_dma_bytes :: u64
  om_dma_fd_bytes :: u64
  om_dma_map_bytes :: u64
  om_gpu_bytes :: u64
  om_dma_source :: DmaSource
  om_gpu_source :: GpuMmapSource
  om_valid :: bool
  om_status_us :: u32
  om_fd_us :: u32
  om_map_us :: u32
  om_gpu_us :: u32

definition ObservedMemSample_init :: ObservedMemSample where
  "ObservedMemSample_init = \<lparr> om_rss_bytes = 0, om_dma_bytes = 0, om_dma_fd_bytes = 0,
     om_dma_map_bytes = 0, om_gpu_bytes = 0, om_dma_source = DmaUnprobed,
     om_gpu_source = GpuUnprobed, om_valid = False, om_status_us = 0, om_fd_us = 0,
     om_map_us = 0, om_gpu_us = 0 \<rparr>"

definition sample_total :: "ObservedMemSample \<Rightarrow> u64" where
  "sample_total s = om_rss_bytes s + om_dma_bytes s + om_gpu_bytes s"

definition kMinPeakStepBytes :: u64 where
  "kMinPeakStepBytes = 64 * 1024"

definition NextPeakThreshold :: "u64 \<Rightarrow> u64 \<Rightarrow> u64" where
  "NextPeakThreshold peak_bytes step_bytes =
     (if step_bytes = 0 then peak_bytes
      else
        let increment = peak_bytes div 4;
            increment = (if increment > step_bytes then step_bytes else increment);
            increment = (if increment < kMinPeakStepBytes then kMinPeakStepBytes else increment)
        in peak_bytes + increment)"

text \<open>
  As long as the sum fits, the next threshold lies above the peak by at
  least the minimum step, by at most the configured step (or the minimum one,
  when the configured step is smaller), and by at most a quarter of the peak once
  that exceeds the minimum; a step of zero asks for every new peak.
\<close>

theorem NextPeakThreshold_bounds:
  assumes "unat peak + max (unat step) (unat kMinPeakStepBytes) < 2 ^ 64"
  shows "unat (NextPeakThreshold peak step) =
    unat peak + (if step = 0 then 0
                 else max (min (unat peak div 4) (unat step)) (unat kMinPeakStepBytes))"
proof (cases "step = 0")
  case False
  define inc where "inc = (let increment = peak div 4;
            increment = (if increment > step then step else increment)
        in if increment < kMinPeakStepBytes then kMinPeakStepBytes else increment)"
  have inc: "unat inc = max (min (unat peak div 4) (unat step)) (unat kMinPeakStepBytes)"
    by (auto simp: inc_def Let_def word_less_nat_alt unat_div_distrib min_def max_def)
  have "unat peak + unat inc < 2 ^ 64"
    using assms unfolding inc by linarith
  then have "unat (peak + inc) = unat peak + unat inc"
    by (subst unat_add_lem [THEN iffD1]) simp_all
  moreover have "NextPeakThreshold peak step = peak + inc"
    using False by (simp add: NextPeakThreshold_def inc_def Let_def)
  ultimately show ?thesis using False inc by simp
qed (simp add: NextPeakThreshold_def)

theorem NextPeakThreshold_bounds_witness:
  "unat (NextPeakThreshold 1048576 12582912) = 1048576 + 262144"
  using NextPeakThreshold_bounds [of 1048576 12582912] by (simp add: kMinPeakStepBytes_def)

end
