(* ===== verification/PeakSnapshot.thy ===== *)
theory PeakSnapshot
  imports ReportList ObservedTypes
begin

text \<open>
  The whole tracker object \<^verbatim>\<open>PointerData\<close> (\<^verbatim>\<open>backtrace/include/PointerData.h\<close>,
  \<^verbatim>\<open>backtrace/src/PointerData.cpp\<close>): the retained peak snapshot and its two
  criteria, tracked bytes and observed footprint, the step snapshots of climb
  mode, and the public operations \<^verbatim>\<open>Add\<close>, \<^verbatim>\<open>Remap\<close>, \<^verbatim>\<open>Remove\<close> and
  \<^verbatim>\<open>RecordObservedPeak\<close> composed of the critical sections.
\<close>

section \<open>Data\<close>

record MappingRss =
  mr_name :: string
  mr_rss_kb :: u64
  mr_size_kb :: u64

record MappingTotals =
  mt_file_rss_kb :: u64
  mt_anon_rss_kb :: u64
  mt_file_size_kb :: u64
  mt_anon_size_kb :: u64

record PeakProcContext =
  ppc_rss :: RssBreakdown
  ppc_mappings :: "MappingRss list"
  ppc_totals :: MappingTotals
  ppc_read_start_us :: u64
  ppc_read_end_us :: u64
  ppc_filled :: bool

datatype PeakSnapshotSource = SourceNone | SourceTracked | SourceObserved

record StepSnapshot =
  ss_list :: "ListInfoType list"
  ss_host :: u64
  ss_dma :: u64
  ss_tot :: u64

record PointerData = PointerTable +
  next_peak_record_threshold :: u64
  peak_record_step_bytes :: u64
  peak_snapshot_final :: bool
  tracked_peak_once :: bool
  peak_list :: "ListInfoType list"
  peak_list_host :: u64
  peak_list_dma :: u64
  peak_list_tot :: u64
  step_snaps :: "StepSnapshot list"
  step_snaps_bytes :: nat
  peak_snapshot_source :: PeakSnapshotSource
  peak_observed_rss :: u64
  peak_observed_dma :: u64
  peak_observed_gpu :: u64
  peak_snapshot_generation :: nat
  peak_proc_read_inflight :: bool
  peak_snapshot_time_us :: u64
  peak_proc_read_start_us :: u64
  peak_proc_read_end_us :: u64
  observed_peak_active :: bool
  peak_rss_kb :: u64
  peak_rss_anon_kb :: u64
  peak_rss_file_kb :: u64
  peak_rss_shmem_kb :: u64
  peak_mappings :: "MappingRss list"
  peak_map_totals :: MappingTotals
  peak_live_pointers :: nat
  peak_pointer_buckets :: nat
  peak_unique_stacks :: nat
  peak_stack_pc_bytes :: nat

text \<open>
  What a snapshot attempt reads from outside: the three answers of the sampler's
  \<^verbatim>\<open>Stalled()\<close> in the order they are asked, the \<^verbatim>\<open>/proc\<close> context, the monotonic
  clock and the number of hash buckets of the shards.
\<close>

record peak_env =
  pe_stalled1 :: bool
  pe_stalled2 :: bool
  pe_stalled3 :: bool
  pe_proc :: PeakProcContext
  pe_now_us :: u64
  pe_buckets :: nat

definition sizeof_ListInfoType :: nat where
  "sizeof_ListInfoType = 104"

definition kMaxStepSnapshotBytes :: nat where
  "kMaxStepSnapshotBytes = 8 * 1024 * 1024"

section \<open>Initialize\<close>

text \<open>\<^verbatim>\<open>PointerData::Initialize\<close>; members it does not name keep their value.\<close>

definition PointerData_Initialize :: "Config \<Rightarrow> PointerData \<Rightarrow> PointerData" where
  "PointerData_Initialize cfg st =
     st\<lparr> shards := map (\<lambda>_. []) (shards st), key_to_index := [], frames := [], backtraces_info := [],
         peak_list := [], cur_hash_index := kBacktraceEmptyIndex + 1,
         current_used := 0, current_host := 0, current_dma := 0,
         peak_tot := 0, peak_host := 0, peak_dma := 0,
         pointer_filter := map (\<lambda>_. 0) (pointer_filter st),
         next_peak_record_threshold := cfg_dump_peak_val cfg,
         tracked_peak_once := (cfg_peak_retention cfg = FirstCrossing),
         peak_snapshot_final := False,
         peak_record_step_bytes := cfg_peak_step_bytes cfg,
         peak_snapshot_source := SourceNone,
         peak_observed_rss := 0, peak_observed_dma := 0, peak_observed_gpu := 0,
         peak_snapshot_generation := 0, peak_proc_read_inflight := False,
         peak_snapshot_time_us := 0, peak_proc_read_start_us := 0, peak_proc_read_end_us := 0,
         observed_peak_active := False \<rparr>"

section \<open>Snapshots\<close>

definition WritePeakTraceMarker :: "debug_ctx \<Rightarrow> u64 \<Rightarrow> u64 \<Rightarrow> u64 \<Rightarrow> PointerData \<Rightarrow> PointerData" where
  "WritePeakTraceMarker dc host_bytes dma_bytes total_bytes st =
     (if dc_trace dc
      then st\<lparr> trace_log := trace_log st @ [PeakMarker host_bytes dma_bytes total_bytes] \<rparr>
      else st)"

definition apply_rss :: "PeakProcContext \<Rightarrow> PointerData \<Rightarrow> PointerData" where
  "apply_rss proc st =
     st\<lparr> peak_rss_kb := rss_vm_rss_kb (ppc_rss proc),
         peak_rss_anon_kb := rss_anon_kb (ppc_rss proc),
         peak_rss_file_kb := rss_file_kb (ppc_rss proc),
         peak_rss_shmem_kb := rss_shmem_kb (ppc_rss proc),
         peak_mappings := ppc_mappings proc,
         peak_map_totals := ppc_totals proc \<rparr>"

definition apply_read_interval :: "PeakProcContext \<Rightarrow> PointerData \<Rightarrow> PointerData" where
  "apply_read_interval proc st =
     st\<lparr> peak_proc_read_start_us := ppc_read_start_us proc,
         peak_proc_read_end_us := ppc_read_end_us proc \<rparr>"

definition retain_step :: "Config \<Rightarrow> PointerData \<Rightarrow> PointerData" where
  "retain_step cfg st =
     (let snapshot_bytes = length (peak_list st) * sizeof_ListInfoType
      in if cfg_peak_retention cfg = ChaseMax
            \<and> step_snaps_bytes st \<le> kMaxStepSnapshotBytes
            \<and> snapshot_bytes \<le> kMaxStepSnapshotBytes - step_snaps_bytes st
         then st\<lparr> step_snaps := step_snaps st @
                    [\<lparr> ss_list = peak_list st, ss_host = peak_list_host st,
                       ss_dma = peak_list_dma st, ss_tot = peak_list_tot st \<rparr>],
                  step_snaps_bytes := step_snaps_bytes st + snapshot_bytes \<rparr>
         else st)"

definition stack_pc_bytes :: "(nat, FrameInfoType) umap \<Rightarrow> nat" where
  "stack_pc_bytes fs =
     total (\<lambda>fi. case fi_frames fi of None \<Rightarrow> 0 | Some pcs \<Rightarrow> length pcs * 8) fs"

text \<open>The parts of \<^verbatim>\<open>TakePeakSnapshotLocked\<close>, in the order it runs them.\<close>

definition snap_list :: "peak_env \<Rightarrow> ListInfoType list \<Rightarrow> PointerData \<Rightarrow> PointerData" where
  "snap_list env next_peak_list st =
     st\<lparr> peak_snapshot_generation := peak_snapshot_generation st + 1,
         peak_snapshot_time_us := pe_now_us env,
         peak_list := next_peak_list,
         peak_list_host := current_host st,
         peak_list_dma := current_dma st,
         peak_list_tot := current_used st \<rparr>"

definition snap_observed ::
    "PeakSnapshotSource \<Rightarrow> ObservedMemSample option \<Rightarrow> PointerData \<Rightarrow> PointerData" where
  "snap_observed source observed st =
     (let st = st\<lparr> peak_snapshot_source := source \<rparr>
      in case observed of
           Some s \<Rightarrow> st\<lparr> peak_observed_rss := om_rss_bytes s, peak_observed_dma := om_dma_bytes s,
                        peak_observed_gpu := om_gpu_bytes s \<rparr>
         | None \<Rightarrow> st\<lparr> peak_observed_rss := 0, peak_observed_dma := 0, peak_observed_gpu := 0 \<rparr>)"

definition snap_proc :: "PeakProcContext option \<Rightarrow> PointerData \<Rightarrow> PointerData" where
  "snap_proc proc st =
     (case proc of
        Some p \<Rightarrow> apply_read_interval p (if rss_valid (ppc_rss p) then apply_rss p st else st)
      | None \<Rightarrow> st)"

definition snap_bookkeeping :: "peak_env \<Rightarrow> PointerData \<Rightarrow> PointerData" where
  "snap_bookkeeping env st =
     st\<lparr> peak_live_pointers := sum_list (map length (shards st)),
         peak_pointer_buckets := pe_buckets env,
         peak_unique_stacks := length (frames st),
         peak_stack_pc_bytes := stack_pc_bytes (frames st) \<rparr>"

text \<open>Result: whether a snapshot was retained.\<close>

definition TakePeakSnapshotLocked ::
    "debug_ctx \<Rightarrow> peak_env \<Rightarrow> PeakSnapshotSource \<Rightarrow> ObservedMemSample option \<Rightarrow> PeakProcContext option
     \<Rightarrow> PointerData \<Rightarrow> bool \<times> PointerData" where
  "TakePeakSnapshotLocked dc env source observed proc st =
     (let next_peak_list = GetUniqueList st True
      in if next_peak_list = [] then (False, st)
         else
           let st = snap_list env next_peak_list st;
               st = WritePeakTraceMarker dc (peak_list_host st) (peak_list_dma st) (peak_list_tot st) st;
               st = retain_step (dc_config dc) st;
               st = snap_observed source observed st;
               st = snap_proc proc st;
               st = snap_bookkeeping env st
           in (True, st))"

definition ApplyPeakProcContextLocked :: "PeakProcContext \<Rightarrow> nat \<Rightarrow> PointerData \<Rightarrow> PointerData" where
  "ApplyPeakProcContextLocked proc snapshot_generation st =
     (if snapshot_generation \<noteq> peak_snapshot_generation st then st
      else if \<not> rss_valid (ppc_rss proc) then st
      else apply_read_interval proc (apply_rss proc st))"

text \<open>The locked part of \<^verbatim>\<open>MaybeRecordPeakSnapshot\<close>, entered with the claim held.\<close>

definition tracked_snapshot_section :: "debug_ctx \<Rightarrow> peak_env \<Rightarrow> PointerData \<Rightarrow> PointerData" where
  "tracked_snapshot_section dc env st =
     (if observed_peak_active st \<and> \<not> pe_stalled3 env \<or> peak_snapshot_final st then st
      else
        let peak_now = peak_tot st
        in if peak_now \<le> next_peak_record_threshold st then st
           else
             let (retained, st) = TakePeakSnapshotLocked dc env SourceTracked None (Some (pe_proc env)) st
             in if tracked_peak_once st
                then (if retained
                      then st\<lparr> peak_snapshot_final := True, next_peak_record_threshold := SIZE_MAX \<rparr>
                      else st)
                else st\<lparr> next_peak_record_threshold :=
                          (if peak_record_step_bytes st = 0 then peak_now
                           else NextPeakThreshold peak_now (peak_record_step_bytes st)) \<rparr>)"

definition MaybeRecordPeakSnapshot :: "debug_ctx \<Rightarrow> peak_env \<Rightarrow> u64 \<Rightarrow> PointerData \<Rightarrow> PointerData" where
  "MaybeRecordPeakSnapshot dc env tracked_total st =
     (if \<not> has_option RECORD_MEMORY_PEAK (dc_config dc)
         \<or> tracked_total \<le> next_peak_record_threshold st then st
      else if observed_peak_active st \<and> \<not> pe_stalled1 env then st
      else if peak_proc_read_inflight st then st
      else
        let st = st\<lparr> peak_proc_read_inflight := True \<rparr>;
            st = (if observed_peak_active st \<and> \<not> pe_stalled2 env then st
                  else tracked_snapshot_section dc env st)
        in st\<lparr> peak_proc_read_inflight := False \<rparr>)"

text \<open>
  \<^verbatim>\<open>RecordObservedPeak\<close>: the claim and the snapshot in one section, the \<^verbatim>\<open>/proc\<close>
  context in a later one.
\<close>

definition observed_snapshot_section ::
    "debug_ctx \<Rightarrow> peak_env \<Rightarrow> ObservedMemSample \<Rightarrow> PointerData \<Rightarrow> bool \<times> PointerData" where
  "observed_snapshot_section dc env sample st =
     (let st = st\<lparr> observed_peak_active := True \<rparr>;
          (retained, st) = TakePeakSnapshotLocked dc env SourceObserved (Some sample) None st
      in if retained \<and> cfg_peak_retention (dc_config dc) = FirstCrossing
         then (retained, st\<lparr> peak_snapshot_final := True, next_peak_record_threshold := SIZE_MAX \<rparr>)
         else (retained, st))"

definition RecordObservedPeak ::
    "debug_ctx \<Rightarrow> peak_env \<Rightarrow> ObservedMemSample \<Rightarrow> PointerData \<Rightarrow> bool \<times> PointerData" where
  "RecordObservedPeak dc env sample st =
     (if \<not> has_option RECORD_MEMORY_PEAK (dc_config dc) then (False, st)
      else
        let (retained, st) = observed_snapshot_section dc env sample st
        in if retained
           then (True, ApplyPeakProcContextLocked (pe_proc env) (peak_snapshot_generation st) st)
           else (False, st))"

section \<open>Public operations\<close>

definition Add ::
    "debug_ctx \<Rightarrow> peak_env \<Rightarrow> capture_fn \<Rightarrow> timeval \<Rightarrow> ptr \<Rightarrow> u64 \<Rightarrow> u64 \<Rightarrow> MemType
     \<Rightarrow> PointerData \<Rightarrow> PointerData" where
  "Add dc env capture tv p pointer_size tracked_size type st =
     (let (hash_index, st) =
            AddBacktrace (dc_config dc) capture (cfg_frames (dc_config dc)) pointer_size st
      in if hash_index = kBacktraceExitIndex then st
         else
           let (displaced, tracked_total, raised_peak, st) =
                 add_section p tracked_size hash_index type tv st;
               st = (if raised_peak then MaybeRecordPeakSnapshot dc env tracked_total st else st);
               st = (case displaced of
                       Some d \<Rightarrow> TraceEntryReleased dc p d st
                     | None \<Rightarrow> st);
               st = (if hash_index > kBacktraceEmptyIndex
                     then WriteAllocTraceMarker dc CHR ''S'' p hash_index type tracked_size st
                     else st)
           in case displaced of
                Some d \<Rightarrow> if pi_hash_index d > kBacktraceEmptyIndex
                          then RemoveBacktrace (dc_config dc) (pi_hash_index d) st else st
              | None \<Rightarrow> st)"

definition Remap :: "debug_ctx \<Rightarrow> peak_env \<Rightarrow> ptr \<Rightarrow> ptr \<Rightarrow> u64 \<Rightarrow> PointerData \<Rightarrow> PointerData" where
  "Remap dc env old_ptr new_ptr new_size st =
     (if old_ptr = nullptr \<or> new_ptr = nullptr \<or> new_size > MaxSize then st
      else case remap_section old_ptr new_ptr new_size st of
        None \<Rightarrow> st
      | Some (moved_info, displaced, tracked_total, raised_peak, st) \<Rightarrow>
          let st = (if raised_peak then MaybeRecordPeakSnapshot dc env tracked_total st else st);
              st = (case displaced of
                      Some d \<Rightarrow> TraceEntryReleased dc new_ptr d st
                    | None \<Rightarrow> st);
              st = (if old_ptr \<noteq> new_ptr \<and> pi_hash_index moved_info > kBacktraceEmptyIndex
                    then WriteAllocTraceMarker dc CHR ''S'' new_ptr (pi_hash_index moved_info)
                           (pi_mem_type moved_info) new_size
                           (WriteAllocTraceMarker dc CHR ''F'' old_ptr (pi_hash_index moved_info)
                             (pi_mem_type moved_info) (pi_size moved_info) st)
                    else st)
          in case displaced of
               Some d \<Rightarrow> if pi_hash_index d > kBacktraceEmptyIndex
                         then RemoveBacktrace (dc_config dc) (pi_hash_index d) st else st
             | None \<Rightarrow> st)"

section \<open>What snapshots leave alone\<close>

text \<open>The part of the tracker that accounts for live allocations.\<close>

definition core :: "'a PointerTable_scheme \<Rightarrow> PointerTable" where
  "core st = (PointerTable.PointerTable.truncate st)\<lparr> trace_log := [] \<rparr>"

lemma core_eq_iff:
  "core st' = core st \<longleftrightarrow>
     key_to_index st' = key_to_index st \<and> frames st' = frames st
     \<and> backtraces_info st' = backtraces_info st \<and> cur_hash_index st' = cur_hash_index st
     \<and> shards st' = shards st \<and> pointer_filter st' = pointer_filter st
     \<and> current_used st' = current_used st \<and> current_host st' = current_host st
     \<and> current_dma st' = current_dma st \<and> peak_tot st' = peak_tot st
     \<and> peak_host st' = peak_host st \<and> peak_dma st' = peak_dma st"
  by (auto simp: core_def PointerTable.PointerTable.truncate_def PointerTable.PointerTable.make_def)

lemma table_inv_core: "core st' = core st \<Longrightarrow> table_inv M st' = table_inv M st"
  by (rule table_inv_same) (simp_all add: core_eq_iff)

lemmas snap_defs =
  snap_list_def snap_observed_def snap_proc_def snap_bookkeeping_def retain_step_def
  WritePeakTraceMarker_def apply_rss_def apply_read_interval_def

lemma core_snap [simp]:
  "core (snap_list env l st) = core st" "core (snap_observed src ob st) = core st"
  "core (snap_proc proc st) = core st" "core (snap_bookkeeping env st) = core st"
  "core (retain_step cfg st) = core st" "core (WritePeakTraceMarker dc h d t st) = core st"
  by (simp_all add: snap_defs Let_def core_eq_iff split: option.splits)

lemma control_snap [simp]:
  "next_peak_record_threshold (snap_list env l st) = next_peak_record_threshold st"
  "next_peak_record_threshold (snap_observed src ob st) = next_peak_record_threshold st"
  "next_peak_record_threshold (snap_proc proc st) = next_peak_record_threshold st"
  "next_peak_record_threshold (snap_bookkeeping env st) = next_peak_record_threshold st"
  "next_peak_record_threshold (retain_step cfg st) = next_peak_record_threshold st"
  "next_peak_record_threshold (WritePeakTraceMarker dc h d t st) = next_peak_record_threshold st"
  "peak_snapshot_final (snap_list env l st) = peak_snapshot_final st"
  "peak_snapshot_final (snap_observed src ob st) = peak_snapshot_final st"
  "peak_snapshot_final (snap_proc proc st) = peak_snapshot_final st"
  "peak_snapshot_final (snap_bookkeeping env st) = peak_snapshot_final st"
  "peak_snapshot_final (retain_step cfg st) = peak_snapshot_final st"
  "peak_snapshot_final (WritePeakTraceMarker dc h d t st) = peak_snapshot_final st"
  "tracked_peak_once (snap_list env l st) = tracked_peak_once st"
  "tracked_peak_once (snap_observed src ob st) = tracked_peak_once st"
  "tracked_peak_once (snap_proc proc st) = tracked_peak_once st"
  "tracked_peak_once (snap_bookkeeping env st) = tracked_peak_once st"
  "tracked_peak_once (retain_step cfg st) = tracked_peak_once st"
  "tracked_peak_once (WritePeakTraceMarker dc h d t st) = tracked_peak_once st"
  "peak_record_step_bytes (snap_list env l st) = peak_record_step_bytes st"
  "peak_record_step_bytes (snap_observed src ob st) = peak_record_step_bytes st"
  "peak_record_step_bytes (snap_proc proc st) = peak_record_step_bytes st"
  "peak_record_step_bytes (snap_bookkeeping env st) = peak_record_step_bytes st"
  "peak_record_step_bytes (retain_step cfg st) = peak_record_step_bytes st"
  "peak_record_step_bytes (WritePeakTraceMarker dc h d t st) = peak_record_step_bytes st"
  "observed_peak_active (snap_list env l st) = observed_peak_active st"
  "observed_peak_active (snap_observed src ob st) = observed_peak_active st"
  "observed_peak_active (snap_proc proc st) = observed_peak_active st"
  "observed_peak_active (snap_bookkeeping env st) = observed_peak_active st"
  "observed_peak_active (retain_step cfg st) = observed_peak_active st"
  "observed_peak_active (WritePeakTraceMarker dc h d t st) = observed_peak_active st"
  "peak_proc_read_inflight (snap_list env l st) = peak_proc_read_inflight st"
  "peak_proc_read_inflight (snap_observed src ob st) = peak_proc_read_inflight st"
  "peak_proc_read_inflight (snap_proc proc st) = peak_proc_read_inflight st"
  "peak_proc_read_inflight (snap_bookkeeping env st) = peak_proc_read_inflight st"
  "peak_proc_read_inflight (retain_step cfg st) = peak_proc_read_inflight st"
  "peak_proc_read_inflight (WritePeakTraceMarker dc h d t st) = peak_proc_read_inflight st"
  by (simp_all add: snap_defs Let_def split: option.splits)

text \<open>What a report reads of the retained snapshot.\<close>

definition retained_snapshot ::
    "PointerData \<Rightarrow> ListInfoType list \<times> u64 \<times> u64 \<times> u64 \<times> PeakSnapshotSource" where
  "retained_snapshot st =
     (peak_list st, peak_list_host st, peak_list_dma st, peak_list_tot st, peak_snapshot_source st)"

lemma retained_snap [simp]:
  "retained_snapshot (snap_bookkeeping env st) = retained_snapshot st"
  "retained_snapshot (snap_proc proc st) = retained_snapshot st"
  "retained_snapshot (retain_step cfg st) = retained_snapshot st"
  "retained_snapshot (WritePeakTraceMarker dc h d t st) = retained_snapshot st"
  "retained_snapshot (snap_list env l st) =
     (l, current_host st, current_dma st, current_used st, peak_snapshot_source st)"
  by (simp_all add: retained_snapshot_def snap_defs Let_def split: option.splits)

lemma retained_snap_observed [simp]:
  "retained_snapshot (snap_observed src ob st) =
     (case retained_snapshot st of (l, h, d, t, s) \<Rightarrow> (l, h, d, t, src))"
  by (simp add: retained_snapshot_def snap_defs Let_def split: option.splits)

lemma TakePeakSnapshotLocked_fields:
  assumes "TakePeakSnapshotLocked dc env source observed proc st = (r, st')"
  shows "core st' = core st"
    and "next_peak_record_threshold st' = next_peak_record_threshold st"
    and "peak_snapshot_final st' = peak_snapshot_final st"
    and "tracked_peak_once st' = tracked_peak_once st"
    and "peak_record_step_bytes st' = peak_record_step_bytes st"
    and "observed_peak_active st' = observed_peak_active st"
    and "peak_proc_read_inflight st' = peak_proc_read_inflight st"
    and "r = (GetUniqueList st True \<noteq> [])"
    and "r \<Longrightarrow> retained_snapshot st' =
           (GetUniqueList st True, current_host st, current_dma st, current_used st, source)"
    and "\<not> r \<Longrightarrow> st' = st"
  using assms by (auto simp: TakePeakSnapshotLocked_def Let_def split: if_splits)

end
