(* ===== verification/Tracker.thy ===== *)
theory Tracker
  imports PeakSnapshot
begin

text \<open>
  The tracker as a concurrent object. The relation \<open>reach\<close> generates every state
  that calls of any number of threads can produce: each step is one critical
  section, in any order, and the multiset it carries holds the stack references
  of calls that are between two sections. The public operations are shown to be
  sequences of such steps, and the accounting theorems hold in every state
  reached.
\<close>

section \<open>States\<close>

text \<open>
  A default-constructed object; the constructor leaves two members unset, here
  parameters.
\<close>

definition PointerData_new :: "nat \<Rightarrow> u64 \<Rightarrow> PointerData" where
  "PointerData_new hash_index0 step0 =
     \<lparr> key_to_index = [], frames = [], backtraces_info = [], cur_hash_index = hash_index0,
       shards = shards_init, pointer_filter = filter_init,
       current_used = 0, current_host = 0, current_dma = 0, peak_tot = 0, peak_host = 0, peak_dma = 0,
       trace_log = [],
       next_peak_record_threshold = 0, peak_record_step_bytes = step0,
       peak_snapshot_final = False, tracked_peak_once = False,
       peak_list = [], peak_list_host = 0, peak_list_dma = 0, peak_list_tot = 0,
       step_snaps = [], step_snaps_bytes = 0, peak_snapshot_source = SourceNone,
       peak_observed_rss = 0, peak_observed_dma = 0, peak_observed_gpu = 0,
       peak_snapshot_generation = 0, peak_proc_read_inflight = False,
       peak_snapshot_time_us = 0, peak_proc_read_start_us = 0, peak_proc_read_end_us = 0,
       observed_peak_active = False,
       peak_rss_kb = 0, peak_rss_anon_kb = 0, peak_rss_file_kb = 0, peak_rss_shmem_kb = 0,
       peak_mappings = [],
       peak_map_totals = \<lparr> mt_file_rss_kb = 0, mt_anon_rss_kb = 0, mt_file_size_kb = 0,
                           mt_anon_size_kb = 0 \<rparr>,
       peak_live_pointers = 0, peak_pointer_buckets = 0, peak_unique_stacks = 0,
       peak_stack_pc_bytes = 0 \<rparr>"

definition PointerData_start :: "Config \<Rightarrow> PointerData" where
  "PointerData_start cfg = PointerData_Initialize cfg (PointerData_new 0 0)"

inductive reach :: "debug_ctx \<Rightarrow> nat multiset \<Rightarrow> PointerData \<Rightarrow> bool" for dc where
  start: "reach dc {#} (PointerData_start (dc_config dc))"
| backtrace: "reach dc M st \<Longrightarrow> capture_ok capture \<Longrightarrow>
    AddBacktrace (dc_config dc) capture n sz st = (h, st') \<Longrightarrow> reach dc (add_mset h M) st'"
| add: "reach dc (add_mset h M) st \<Longrightarrow> add_section p n h ty tv st = (d, tot, raised, st') \<Longrightarrow>
    reach dc (M + opt_refs d) st'"
| remap: "reach dc M st \<Longrightarrow> remap_section old new n st = Some (moved, d, tot, raised, st') \<Longrightarrow>
    reach dc (M + opt_refs d) st'"
| take: "reach dc M st \<Longrightarrow> TakeEntry p st = (d, st') \<Longrightarrow> reach dc (M + opt_refs d) st'"
| restore: "reach dc (add_mset (pi_hash_index info) M) st \<Longrightarrow>
    shard_find (shards st) (ManglePointer p) = None \<Longrightarrow> reach dc M (RestoreEntry p info st)"
| release: "reach dc (add_mset h M) st \<Longrightarrow> reach dc M (RemoveBacktrace (dc_config dc) h st)"
| marker: "reach dc M st \<Longrightarrow> reach dc M (WriteAllocTraceMarker dc c p h ty n st)"
| claim: "reach dc M st \<Longrightarrow> reach dc M (st\<lparr> peak_proc_read_inflight := b \<rparr>)"
| tracked: "reach dc M st \<Longrightarrow> reach dc M (tracked_snapshot_section dc env st)"
| observed: "reach dc M st \<Longrightarrow> reach dc M (snd (observed_snapshot_section dc env sample st))"
| proc_context: "reach dc M st \<Longrightarrow> reach dc M (ApplyPeakProcContextLocked proc g st)"

section \<open>Snapshots keep the accounting\<close>

lemma core_tracked_snapshot_section: "core (tracked_snapshot_section dc env st) = core st"
proof -
  obtain r st' where take: "TakePeakSnapshotLocked dc env SourceTracked None (Some (pe_proc env)) st = (r, st')"
    by fastforce
  have "core (st'\<lparr> next_peak_record_threshold := x \<rparr>) = core st'"
    "core (st'\<lparr> peak_snapshot_final := b, next_peak_record_threshold := x \<rparr>) = core st'" for x b
    by (simp_all add: core_eq_iff)
  with TakePeakSnapshotLocked_fields(1) [OF take] show ?thesis
    by (simp add: tracked_snapshot_section_def take Let_def)
qed

lemma core_observed_snapshot_section: "core (snd (observed_snapshot_section dc env sample st)) = core st"
proof -
  let ?st = "st\<lparr> observed_peak_active := True \<rparr>"
  obtain r st' where take: "TakePeakSnapshotLocked dc env SourceObserved (Some sample) None ?st = (r, st')"
    by fastforce
  have "core (st'\<lparr> peak_snapshot_final := b, next_peak_record_threshold := x \<rparr>) = core st'"
    "core ?st = core st" for x b
    by (simp_all add: core_eq_iff)
  with TakePeakSnapshotLocked_fields(1) [OF take] show ?thesis
    by (simp add: observed_snapshot_section_def take Let_def)
qed

lemma core_ApplyPeakProcContextLocked: "core (ApplyPeakProcContextLocked proc g st) = core st"
  by (simp add: ApplyPeakProcContextLocked_def apply_rss_def apply_read_interval_def core_eq_iff)

lemma core_claim: "core (st\<lparr> peak_proc_read_inflight := b \<rparr>) = core st"
  by (simp add: core_eq_iff)

lemmas core_snapshots =
  core_tracked_snapshot_section core_observed_snapshot_section core_ApplyPeakProcContextLocked core_claim

lemma map_zero_filter_init: "map (\<lambda>_. 0) filter_init = filter_init"
  by (simp add: filter_init_def map_replicate_const)

lemma map_nil_shards_init: "map (\<lambda>_. []) shards_init = shards_init"
  by (simp add: shards_init_def map_replicate_const)

lemma table_inv_start: "table_inv {#} (PointerData_start cfg)"
  by (rule table_inv_empty)
    (simp_all add: PointerData_start_def PointerData_Initialize_def PointerData_new_def
      map_zero_filter_init map_nil_shards_init)

lemma reach_table_inv: "reach dc M st \<Longrightarrow> table_inv M st"
proof (induction rule: reach.induct)
  case (marker M st c p h ty n)
  then show ?case by simp
qed (auto intro: table_inv_start table_inv_AddBacktrace [THEN conjunct2] table_inv_add_section
    table_inv_remap_section table_inv_TakeEntry table_inv_RestoreEntry table_inv_RemoveBacktrace
    simp: table_inv_core [OF core_tracked_snapshot_section]
      table_inv_core [OF core_observed_snapshot_section]
      table_inv_core [OF core_ApplyPeakProcContextLocked] table_inv_core [OF core_claim])

section \<open>Public operations are sequences of steps\<close>

lemma reach_release_low:
  "reach dc (add_mset h M) st \<Longrightarrow> \<not> kBacktraceEmptyIndex < h \<Longrightarrow> reach dc M st"
  by (drule reach.release) (simp add: RemoveBacktrace_def)

lemma reach_release_opt:
  assumes "reach dc (M + opt_refs d) st"
  shows "reach dc M (case d of
           Some i \<Rightarrow> if pi_hash_index i > kBacktraceEmptyIndex
                     then RemoveBacktrace (dc_config dc) (pi_hash_index i) st else st
         | None \<Rightarrow> st)"
  using assms by (cases d) (auto intro: reach.release reach_release_low)

lemma reach_TraceEntryReleased: "reach dc M st \<Longrightarrow> reach dc M (TraceEntryReleased dc p i st)"
  by (simp add: TraceEntryReleased_def reach.marker)

lemma reach_trace_opt:
  "reach dc M st \<Longrightarrow>
   reach dc M (case d of Some i \<Rightarrow> TraceEntryReleased dc p i st | None \<Rightarrow> st)"
  by (cases d) (auto intro: reach_TraceEntryReleased)

lemma reach_MaybeRecordPeakSnapshot:
  "reach dc M st \<Longrightarrow> reach dc M (MaybeRecordPeakSnapshot dc env t st)"
  by (auto simp: MaybeRecordPeakSnapshot_def Let_def intro!: reach.claim reach.tracked)

lemma reach_RecordObservedPeak:
  "reach dc M st \<Longrightarrow> reach dc M (snd (RecordObservedPeak dc env sample st))"
  using reach.observed [of dc M st env sample]
  by (auto simp: RecordObservedPeak_def Let_def case_prod_beta intro: reach.proc_context)

lemma reach_Add:
  assumes "reach dc M st" "capture_ok capture"
  shows "reach dc M (Add dc env capture tv p n t ty st)"
proof -
  obtain h st1 where bt: "AddBacktrace (dc_config dc) capture (cfg_frames (dc_config dc)) n st = (h, st1)"
    by fastforce
  have h: "h \<noteq> kBacktraceExitIndex"
    using table_inv_AddBacktrace [OF reach_table_inv [OF assms(1)] assms(2) bt] by (auto simp: hash_indices)
  obtain d tot raised st2 where add: "add_section p t h ty tv st1 = (d, tot, raised, st2)"
    by (metis prod_cases4)
  have "reach dc (M + opt_refs d) st2"
    using reach.add [OF reach.backtrace [OF assms bt] add] .
  then show ?thesis
    using h by (auto simp: Add_def bt add Let_def
        intro!: reach_release_opt reach.marker reach_trace_opt reach_MaybeRecordPeakSnapshot)
qed

lemma reach_Remap:
  assumes "reach dc M st"
  shows "reach dc M (Remap dc env old new n st)"
proof (cases "remap_section old new n st")
  case (Some r)
  obtain moved d tot raised st' where r: "r = (moved, d, tot, raised, st')" by (metis prod_cases5)
  have "reach dc (M + opt_refs d) st'"
    using reach.remap [OF assms] Some r by blast
  with assms show ?thesis
    by (auto simp: Remap_def Some r Let_def
        intro!: reach_release_opt reach.marker reach_trace_opt reach_MaybeRecordPeakSnapshot)
qed (use assms in \<open>simp add: Remap_def\<close>)

lemma reach_Remove:
  assumes "reach dc M st"
  shows "reach dc M (Remove dc p st)"
proof (cases "TakeEntry p st")
  case (Pair d st')
  have "reach dc (M + opt_refs d) st'" by (rule reach.take [OF assms Pair])
  then show ?thesis
    by (cases d) (auto simp: Remove_def Pair intro!: reach.release reach.marker)
qed

section \<open>Properties\<close>

text \<open>A concrete run: one tracked allocation with a captured stack.\<close>

definition demo_config :: Config where
  "demo_config = \<lparr> cfg_dump_signal = 40, cfg_frames = 128, cfg_dump_on_exit = True,
     cfg_dump_prefix = ''heap'', cfg_min_size_bytes = 0, cfg_max_size_bytes = SIZE_MAX,
     cfg_dump_peak_val = 32, cfg_peak_step_bytes = 0, cfg_peak_retention = FirstCrossing,
     cfg_peak_sample_ms = 0, cfg_capture_mode = Fast, cfg_options = 0x8f \<rparr>"

definition demo_dc :: debug_ctx where
  "demo_dc = \<lparr> dc_config = demo_config, dc_trace = True \<rparr>"

definition demo_proc :: PeakProcContext where
  "demo_proc = \<lparr> ppc_rss = RssBreakdown_init, ppc_mappings = [],
     ppc_totals = \<lparr> mt_file_rss_kb = 0, mt_anon_rss_kb = 0, mt_file_size_kb = 0, mt_anon_size_kb = 0 \<rparr>,
     ppc_read_start_us = 1, ppc_read_end_us = 2, ppc_filled = True \<rparr>"

definition demo_env :: peak_env where
  "demo_env = \<lparr> pe_stalled1 = False, pe_stalled2 = False, pe_stalled3 = False,
     pe_proc = demo_proc, pe_now_us = 3, pe_buckets = 64 \<rparr>"

definition demo_capture :: capture_fn where
  "demo_capture m n s = (if 2 \<le> n then demo_raw [4, 5] else RawStackRecord_init)"

lemma demo_capture_ok: "capture_ok demo_capture"
  by (simp add: capture_ok_def demo_capture_def raw_ok_def demo_raw_def RawStackRecord_init_def
      IsUsable_def HasFrames_def kMaxAsyncRawFrames_def)

definition demo_state :: PointerData where
  "demo_state = Add demo_dc demo_env demo_capture demo_tv 0x5000 64 64 HOST (PointerData_start demo_config)"

lemma demo_state_reach: "reach demo_dc {#} demo_state"
proof -
  have "reach demo_dc {#} (PointerData_start demo_config)"
    using reach.start [of demo_dc] by (simp add: demo_dc_def)
  then show ?thesis unfolding demo_state_def by (rule reach_Add [OF _ demo_capture_ok])
qed


lemma total_holds_pos:
  assumes "shards_ok (shards st)"
  shows "0 < total (holds_ref h) (live st) \<longleftrightarrow>
    (\<exists>k i. shard_find (shards st) k = Some i \<and> pi_hash_index i = h)"
proof -
  have "0 < total (holds_ref h) es \<longleftrightarrow> (\<exists>k i. (k, i) \<in> set es \<and> pi_hash_index i = h)"
    for es :: "(u64 \<times> PointerInfoType) list"
    by (induction es) (simp, force simp: holds_ref_def)
  then show ?thesis by (simp only: sm.in_entries [OF assms])
qed

lemma frames_dom:
  assumes "frames_inv refs ft"
  shows "h \<in> dom (map_of (frames ft)) \<longleftrightarrow> kBacktraceEmptyIndex < h \<and> 0 < refs h"
  using frames_invD(4) [OF assms, of h] frames_invD(6) [OF assms, of h]
  by (auto simp: live_references_def stack_ok_def split: option.splits)




section \<open>Refinement of a single map\<close>

text \<open>What the tracker promises to be: a map from live pointers to records.\<close>

definition abs_map :: "'a PointerTable_scheme \<Rightarrow> ptr \<Rightarrow> PointerInfoType option" where
  "abs_map st p = shard_find (shards st) (ManglePointer p)"

definition spec_add :: "ptr \<Rightarrow> PointerInfoType \<Rightarrow> (ptr \<rightharpoonup> PointerInfoType) \<Rightarrow> (ptr \<rightharpoonup> PointerInfoType)" where
  "spec_add p info m = m(p \<mapsto> info)"

definition spec_remove :: "ptr \<Rightarrow> (ptr \<rightharpoonup> PointerInfoType) \<Rightarrow> (ptr \<rightharpoonup> PointerInfoType)" where
  "spec_remove p m = m(p := None)"

definition spec_remap :: "ptr \<Rightarrow> ptr \<Rightarrow> u64 \<Rightarrow> (ptr \<rightharpoonup> PointerInfoType) \<Rightarrow> (ptr \<rightharpoonup> PointerInfoType)" where
  "spec_remap old new n m =
     (if old = nullptr \<or> new = nullptr \<or> n > MaxSize then m
      else case m old of
        None \<Rightarrow> m
      | Some info \<Rightarrow> (m(old := None))(new \<mapsto> info\<lparr> pi_size := n \<rparr>))"

lemma core_MaybeRecordPeakSnapshot: "core (MaybeRecordPeakSnapshot dc env t st) = core st"
  by (simp add: MaybeRecordPeakSnapshot_def Let_def core_claim core_tracked_snapshot_section)

lemma shards_MaybeRecordPeakSnapshot [simp]: "shards (MaybeRecordPeakSnapshot dc env t st) = shards st"
  using core_MaybeRecordPeakSnapshot by (metis core_eq_iff)

lemma shards_TraceEntryReleased [simp]: "shards (TraceEntryReleased dc p i st) = shards st"
  by (simp add: TraceEntryReleased_def)

lemma abs_map_upd:
  "shards_ok shs \<Longrightarrow> (\<lambda>p. (shard_find (shard_put (ManglePointer q) v shs)) (ManglePointer p))
     = (\<lambda>p. shard_find shs (ManglePointer p))(q \<mapsto> v)"
  "shards_ok shs \<Longrightarrow> (\<lambda>p. (shard_find (shard_erase (ManglePointer q) shs)) (ManglePointer p))
     = (\<lambda>p. shard_find shs (ManglePointer p))(q := None)"
  "shards_ok shs \<Longrightarrow> (\<lambda>p. (shard_find (shard_replace (ManglePointer q) v shs)) (ManglePointer p))
     = (\<lambda>p. shard_find shs (ManglePointer p))(q \<mapsto> v)"
  by (auto simp: fun_eq_iff sm_simps shard_replace_find)

lemma abs_map_Add:
  assumes "reach dc M st" "capture_ok capture"
  shows "abs_map (Add dc env capture tv p n t ty st) =
    spec_add p \<lparr> pi_size = t,
        pi_hash_index = fst (AddBacktrace (dc_config dc) capture (cfg_frames (dc_config dc)) n st),
        pi_mem_type = ty, pi_alloc_time = tv \<rparr> (abs_map st)"
proof -
  obtain h st1 where bt: "AddBacktrace (dc_config dc) capture (cfg_frames (dc_config dc)) n st = (h, st1)"
    by fastforce
  note inv = reach_table_inv [OF assms(1)]
  have h: "h \<noteq> kBacktraceExitIndex"
    using table_inv_AddBacktrace [OF inv assms(2) bt] by (auto simp: hash_indices)
  obtain d tot raised st2 where add: "add_section p t h ty tv st1 = (d, tot, raised, st2)"
    by (metis prod_cases4)
  have "shards (Add dc env capture tv p n t ty st) = shards st2"
    using h by (auto simp: Add_def bt add Let_def split: option.splits)
  then show ?thesis
    using add_section_fields(2) [OF add] AddBacktrace_sel(1) [OF bt] table_invD(1) [OF inv]
    by (simp add: abs_map_def [abs_def] spec_add_def bt abs_map_upd)
qed

lemma abs_map_Remove:
  assumes "reach dc M st"
  shows "abs_map (Remove dc p st) = spec_remove p (abs_map st)"
  using table_invD(1) [OF reach_table_inv [OF assms]]
  by (auto simp: Remove_def TakeEntry_def abs_map_def [abs_def] spec_remove_def Let_def abs_map_upd
      fun_upd_idem split: option.splits)

lemma abs_map_Remap:
  assumes "reach dc M st"
  shows "abs_map (Remap dc env old new n st) = spec_remap old new n (abs_map st)"
proof (cases "old = nullptr \<or> new = nullptr \<or> n > MaxSize")
  case False
  note ok = table_invD(1) [OF reach_table_inv [OF assms]]
  show ?thesis
  proof (cases "remap_section old new n st")
    case None
    then have "shard_find (shards st) (ManglePointer old) = None"
      by (auto simp: remap_section_def Let_def case_prod_beta split: option.splits)
    with None show ?thesis by (simp add: Remap_def spec_remap_def abs_map_def)
  next
    case (Some r)
    obtain moved d tot raised st' where r: "r = (moved, d, tot, raised, st')" by (metis prod_cases5)
    note f = remap_section_fields [OF Some [unfolded r]]
    have "shards (Remap dc env old new n st) = shards st'"
      using False by (auto simp: Remap_def Some r Let_def split: option.splits)
    with False f(1,3) ok show ?thesis
      by (simp add: abs_map_def [abs_def] spec_remap_def abs_map_upd sm.invar_erase)
  qed
qed (simp add: Remap_def spec_remap_def abs_map_def [abs_def])

text \<open>
  C3: the sharded, hashed, mangled tracker implements one map from pointers to
  records. From every reachable state \<^verbatim>\<open>Add\<close>, \<^verbatim>\<open>Remove\<close> and \<^verbatim>\<open>Remap\<close> commute with
  the abstraction: they insert, delete and move exactly the record of the
  pointer they name and touch no other.
\<close>

theorem tracker_refines_map:
  assumes "reach dc M st" "capture_ok capture"
  shows "abs_map (Add dc env capture tv p n t ty st) =
      spec_add p \<lparr> pi_size = t,
        pi_hash_index = fst (AddBacktrace (dc_config dc) capture (cfg_frames (dc_config dc)) n st),
        pi_mem_type = ty, pi_alloc_time = tv \<rparr> (abs_map st)
    \<and> abs_map (Remove dc p st) = spec_remove p (abs_map st)
    \<and> abs_map (Remap dc env p q n st) = spec_remap p q n (abs_map st)"
  using abs_map_Add [OF assms] abs_map_Remove [OF assms(1)] abs_map_Remap [OF assms(1)] by blast

theorem tracker_refines_map_witness:
  "abs_map (Remove demo_dc 0x5000 demo_state) = spec_remove 0x5000 (abs_map demo_state)"
  using tracker_refines_map [OF demo_state_reach demo_capture_ok] by blast

end
