(* ===== verification/PeakRetention.thy ===== *)
theory PeakRetention
  imports Tracker
begin

text \<open>
  Which snapshot a report ends up with: the retention rules of
  \<^verbatim>\<open>MaybeRecordPeakSnapshot\<close>, \<^verbatim>\<open>RecordObservedPeak\<close> and \<^verbatim>\<open>TakePeakSnapshotLocked\<close>,
  and the byte budget of climb mode.
\<close>

section \<open>The members only snapshots change\<close>

definition snap_view ::
    "PointerData \<Rightarrow> (ListInfoType list \<times> u64 \<times> u64 \<times> u64 \<times> PeakSnapshotSource)
       \<times> bool \<times> u64 \<times> bool \<times> bool \<times> u64 \<times> StepSnapshot list \<times> nat" where
  "snap_view st =
     (retained_snapshot st, peak_snapshot_final st, next_peak_record_threshold st,
      observed_peak_active st, tracked_peak_once st, peak_record_step_bytes st,
      step_snaps st, step_snaps_bytes st)"

lemmas snap_view_defs = snap_view_def retained_snapshot_def

lemma snap_view_counts [simp]:
  "snap_view (count_sub n t st) = snap_view st" "snap_view (count_add n t st) = snap_view st"
  "snap_view (raise_side t st) = snap_view st"
  "snap_view (st\<lparr> peak_tot := a \<rparr>) = snap_view st"
  "snap_view (st\<lparr> shards := b \<rparr>) = snap_view st"
  "snap_view (st\<lparr> pointer_filter := c \<rparr>) = snap_view st"
  "snap_view (st\<lparr> peak_proc_read_inflight := d \<rparr>) = snap_view st"
  by (simp_all add: snap_view_defs count_sub_def count_add_def raise_side_def Let_def)

lemma snap_view_RemoveBacktrace [simp]: "snap_view (RemoveBacktrace cfg h st) = snap_view st"
  by (simp add: snap_view_defs RemoveBacktrace_def Let_def split: option.splits)

lemma snap_view_marker [simp]: "snap_view (WriteAllocTraceMarker dc c p h ty n st) = snap_view st"
  by (simp add: snap_view_defs WriteAllocTraceMarker_def)

lemma snap_view_TraceEntryReleased [simp]: "snap_view (TraceEntryReleased dc p i st) = snap_view st"
  by (simp add: TraceEntryReleased_def)

lemma snap_view_AddBacktrace:
  "AddBacktrace cfg capture n sz st = (h, st') \<Longrightarrow> snap_view st' = snap_view st"
  by (auto simp: AddBacktrace_def intern_stack_def Let_def snap_view_defs split: if_splits option.splits)

lemma snap_view_add_section:
  "add_section p n h ty tv st = (d, tot, raised, st') \<Longrightarrow> snap_view st' = snap_view st"
  by (auto simp: add_section_def Let_def raise_total_eq split: option.splits)

lemma snap_view_remap_section:
  "remap_section old new n st = Some (moved, d, tot, raised, st') \<Longrightarrow> snap_view st' = snap_view st"
  by (auto simp: remap_section_def Let_def raise_total_eq split: option.splits if_splits)

lemma snap_view_TakeEntry: "TakeEntry p st = (d, st') \<Longrightarrow> snap_view st' = snap_view st"
  by (auto simp: TakeEntry_def Let_def split: option.splits)

lemma snap_view_RestoreEntry [simp]: "snap_view (RestoreEntry p i st) = snap_view st"
  by (simp add: RestoreEntry_def Let_def)

lemma snap_view_ApplyPeakProcContextLocked [simp]:
  "snap_view (ApplyPeakProcContextLocked proc g st) = snap_view st"
  by (simp add: ApplyPeakProcContextLocked_def apply_rss_def apply_read_interval_def snap_view_defs)

lemma snap_view_Remove [simp]: "snap_view (Remove dc p st) = snap_view st"
proof (cases "TakeEntry p st")
  case (Pair d st')
  from snap_view_TakeEntry [OF this] show ?thesis
    by (cases d) (simp_all add: Remove_def Pair)
qed

text \<open>
  A property of the retained snapshot that every tracked attempt keeps is kept by
  the allocation path.
\<close>

lemma snap_view_Add:
  assumes "\<And>t st'. snap_view st' = snap_view st \<Longrightarrow>
      snap_view (MaybeRecordPeakSnapshot dc env t st') = snap_view st"
  shows "snap_view (Add dc env capture tv p n t ty st) = snap_view st"
proof -
  obtain h st1 where bt: "AddBacktrace (dc_config dc) capture (cfg_frames (dc_config dc)) n st = (h, st1)"
    by fastforce
  obtain d tot raised st2 where add: "add_section p t h ty tv st1 = (d, tot, raised, st2)"
    by (metis prod_cases4)
  have v: "snap_view st1 = snap_view st" "snap_view st2 = snap_view st"
    using snap_view_AddBacktrace [OF bt] snap_view_add_section [OF add] by simp_all
  then show ?thesis
    using assms [OF v(2)]
    by (auto simp: Add_def bt add Let_def split: option.splits)
qed

lemma snap_view_Remap:
  assumes "\<And>t st'. snap_view st' = snap_view st \<Longrightarrow>
      snap_view (MaybeRecordPeakSnapshot dc env t st') = snap_view st"
  shows "snap_view (Remap dc env old new n st) = snap_view st"
proof (cases "remap_section old new n st")
  case (Some r)
  obtain moved d tot raised st' where r: "r = (moved, d, tot, raised, st')" by (metis prod_cases5)
  have v: "snap_view st' = snap_view st"
    using snap_view_remap_section Some r by blast
  then show ?thesis
    using assms [OF v]
    by (auto simp: Remap_def Some r Let_def split: option.splits)
qed (simp add: Remap_def)

section \<open>When the tracked criterion stays silent\<close>

lemma MaybeRecord_final:
  assumes "peak_snapshot_final st"
  shows "snap_view (MaybeRecordPeakSnapshot dc env t st) = snap_view st"
  using assms by (simp add: MaybeRecordPeakSnapshot_def tracked_snapshot_section_def Let_def)

lemma MaybeRecord_observed:
  assumes "observed_peak_active st" "\<not> pe_stalled1 env"
  shows "MaybeRecordPeakSnapshot dc env t st = st"
  using assms by (simp add: MaybeRecordPeakSnapshot_def)

lemma snap_view_control:
  "snap_view st' = snap_view st \<Longrightarrow>
     retained_snapshot st' = retained_snapshot st \<and> peak_snapshot_final st' = peak_snapshot_final st
     \<and> observed_peak_active st' = observed_peak_active st
     \<and> next_peak_record_threshold st' = next_peak_record_threshold st"
  by (simp add: snap_view_def)

text \<open>
  C22: first-crossing retention keeps its promise of one snapshot. Once the
  retained snapshot is final, no allocation, release or remapping replaces it,
  re-opens it or moves the threshold, whatever the sampler's state.
\<close>

theorem first_crossing_final:
  assumes "peak_snapshot_final st"
  shows "retained_snapshot (Add dc env capture tv p n t ty st) = retained_snapshot st
    \<and> retained_snapshot (Remap dc env old new m st) = retained_snapshot st
    \<and> retained_snapshot (Remove dc p st) = retained_snapshot st
    \<and> peak_snapshot_final (Add dc env capture tv p n t ty st)
    \<and> peak_snapshot_final (Remap dc env old new m st)
    \<and> peak_snapshot_final (Remove dc p st)"
proof -
  have "snap_view (MaybeRecordPeakSnapshot dc env t' st') = snap_view st"
    if "snap_view st' = snap_view st" for t' st'
    using that assms MaybeRecord_final [of st'] snap_view_control [OF that] by simp
  note view = snap_view_Add [OF this] snap_view_Remap [OF this] snap_view_Remove
  show ?thesis
    using assms by (simp add: snap_view_control [OF view(1)] snap_view_control [OF view(2)]
        snap_view_control [OF view(3)])
qed

theorem first_crossing_final_witness:
  "retained_snapshot (Add demo_dc demo_env demo_capture demo_tv 0x6000 128 128 HOST
     (demo_state\<lparr> peak_snapshot_final := True \<rparr>))
   = retained_snapshot (demo_state\<lparr> peak_snapshot_final := True \<rparr>)"
  using first_crossing_final [of "demo_state\<lparr> peak_snapshot_final := True \<rparr>"] by simp

text \<open>
  The observed criterion owns the report. While the sampler has delivered a
  peak and is not stalled, the allocation path never replaces the snapshot the
  observed footprint chose.
\<close>

theorem observed_peak_owns:
  assumes "observed_peak_active st" "\<not> pe_stalled1 env"
  shows "retained_snapshot (Add dc env capture tv p n t ty st) = retained_snapshot st
    \<and> retained_snapshot (Remap dc env old new m st) = retained_snapshot st
    \<and> retained_snapshot (Remove dc p st) = retained_snapshot st"
proof -
  have "snap_view (MaybeRecordPeakSnapshot dc env t' st') = snap_view st"
    if "snap_view st' = snap_view st" for t' st'
    using that assms MaybeRecord_observed [of st'] snap_view_control [OF that] by simp
  note view = snap_view_Add [OF this] snap_view_Remap [OF this] snap_view_Remove
  show ?thesis
    by (simp add: snap_view_control [OF view(1)] snap_view_control [OF view(2)]
        snap_view_control [OF view(3)])
qed

theorem observed_peak_owns_witness:
  "retained_snapshot (Add demo_dc demo_env demo_capture demo_tv 0x6000 128 128 HOST
     (demo_state\<lparr> observed_peak_active := True \<rparr>))
   = retained_snapshot (demo_state\<lparr> observed_peak_active := True \<rparr>)"
  using observed_peak_owns [of "demo_state\<lparr> observed_peak_active := True \<rparr>" demo_env]
  by (simp add: demo_env_def)

section \<open>Invariants of the snapshot members\<close>

definition step_bytes :: "StepSnapshot list \<Rightarrow> nat" where
  "step_bytes snaps = (\<Sum>s\<leftarrow>snaps. length (ss_list s) * sizeof_ListInfoType)"

definition snaps_ok :: "debug_ctx \<Rightarrow> PointerData \<Rightarrow> bool" where
  "snaps_ok dc st \<longleftrightarrow>
     step_snaps_bytes st = step_bytes (step_snaps st) \<and> step_snaps_bytes st \<le> kMaxStepSnapshotBytes
     \<and> (cfg_peak_retention (dc_config dc) = FirstCrossing \<longrightarrow> step_snaps st = [])
     \<and> (peak_snapshot_final st \<longrightarrow> next_peak_record_threshold st = SIZE_MAX)
     \<and> (tracked_peak_once st \<longleftrightarrow> cfg_peak_retention (dc_config dc) = FirstCrossing)"

lemma snaps_ok_view: "snap_view st' = snap_view st \<Longrightarrow> snaps_ok dc st' = snaps_ok dc st"
  by (simp add: snaps_ok_def snap_view_def)

lemma step_snaps_snap [simp]:
  "step_snaps (snap_list env l st) = step_snaps st" "step_snaps (snap_observed src ob st) = step_snaps st"
  "step_snaps (snap_proc proc st) = step_snaps st" "step_snaps (snap_bookkeeping env st) = step_snaps st"
  "step_snaps (WritePeakTraceMarker dc h d t st) = step_snaps st"
  "step_snaps_bytes (snap_list env l st) = step_snaps_bytes st"
  "step_snaps_bytes (snap_observed src ob st) = step_snaps_bytes st"
  "step_snaps_bytes (snap_proc proc st) = step_snaps_bytes st"
  "step_snaps_bytes (snap_bookkeeping env st) = step_snaps_bytes st"
  "step_snaps_bytes (WritePeakTraceMarker dc h d t st) = step_snaps_bytes st"
  by (simp_all add: snap_defs Let_def split: option.splits)

lemma snaps_ok_same:
  assumes "snaps_ok dc st" "step_snaps st' = step_snaps st" "step_snaps_bytes st' = step_snaps_bytes st"
    "peak_snapshot_final st' = peak_snapshot_final st"
    "next_peak_record_threshold st' = next_peak_record_threshold st"
    "tracked_peak_once st' = tracked_peak_once st"
  shows "snaps_ok dc st'"
  using assms by (simp add: snaps_ok_def)

lemma snaps_ok_retain_step: "snaps_ok dc st \<Longrightarrow> snaps_ok dc (retain_step (dc_config dc) st)"
  by (auto simp: snaps_ok_def retain_step_def Let_def step_bytes_def)

lemma snaps_ok_TakePeakSnapshotLocked:
  assumes "snaps_ok dc st" "TakePeakSnapshotLocked dc env source observed proc st = (r, st')"
  shows "snaps_ok dc st'"
proof (cases r)
  case True
  let ?st1 = "snap_list env (GetUniqueList st True) st"
  let ?st2 = "WritePeakTraceMarker dc (peak_list_host ?st1) (peak_list_dma ?st1) (peak_list_tot ?st1) ?st1"
  have "snaps_ok dc ?st2" by (rule snaps_ok_same [OF assms(1)]) simp_all
  then have "snaps_ok dc (retain_step (dc_config dc) ?st2)" by (rule snaps_ok_retain_step)
  then show ?thesis
    using assms(2) True
    by (auto simp: TakePeakSnapshotLocked_def Let_def split: if_splits intro: snaps_ok_same)
qed (use assms TakePeakSnapshotLocked_fields(10) [OF assms(2)] in simp)

lemma snaps_ok_tracked_snapshot_section:
  assumes "snaps_ok dc st"
  shows "snaps_ok dc (tracked_snapshot_section dc env st)"
proof -
  obtain r st' where take: "TakePeakSnapshotLocked dc env SourceTracked None (Some (pe_proc env)) st = (r, st')"
    by fastforce
  with snaps_ok_TakePeakSnapshotLocked [OF assms take] TakePeakSnapshotLocked_fields(3) [OF take] assms
  show ?thesis
    by (auto simp: tracked_snapshot_section_def take Let_def snaps_ok_def)
qed

lemma snaps_ok_observed_snapshot_section:
  assumes "snaps_ok dc st"
  shows "snaps_ok dc (snd (observed_snapshot_section dc env sample st))"
proof -
  let ?st = "st\<lparr> observed_peak_active := True \<rparr>"
  obtain r st' where take: "TakePeakSnapshotLocked dc env SourceObserved (Some sample) None ?st = (r, st')"
    by fastforce
  have "snaps_ok dc ?st" by (rule snaps_ok_same [OF assms]) simp_all
  from snaps_ok_TakePeakSnapshotLocked [OF this take] show ?thesis
    by (auto simp: observed_snapshot_section_def take Let_def snaps_ok_def)
qed

lemma snaps_ok_start: "snaps_ok dc (PointerData_start (dc_config dc))"
  by (simp add: snaps_ok_def PointerData_start_def PointerData_Initialize_def PointerData_new_def
      step_bytes_def kMaxStepSnapshotBytes_def)

lemma reach_snaps_ok: "reach dc M st \<Longrightarrow> snaps_ok dc st"
proof (induction rule: reach.induct)
  case (backtrace M st capture n sz h st')
  show ?case
    using backtrace.IH snaps_ok_view [OF snap_view_AddBacktrace [OF backtrace.hyps(3)]] by simp
next
  case (add h M st p n ty tv d tot raised st')
  show ?case
    using add.IH snaps_ok_view [OF snap_view_add_section [OF add.hyps(2)]] by simp
next
  case (remap M st old new n moved d tot raised st')
  show ?case
    using remap.IH snaps_ok_view [OF snap_view_remap_section [OF remap.hyps(2)]] by simp
next
  case (take M st p d st')
  show ?case
    using take.IH snaps_ok_view [OF snap_view_TakeEntry [OF take.hyps(2)]] by simp
qed (simp_all add: snaps_ok_start snaps_ok_tracked_snapshot_section snaps_ok_observed_snapshot_section
    snaps_ok_view [OF snap_view_counts(7)] snaps_ok_view [OF snap_view_marker]
    snaps_ok_view [OF snap_view_RestoreEntry] snaps_ok_view [OF snap_view_RemoveBacktrace]
    snaps_ok_view [OF snap_view_ApplyPeakProcContextLocked])

section \<open>What a snapshot holds\<close>

lemma GetUniqueList_Nil_iff: "GetUniqueList st only = [] \<longleftrightarrow> report_entries st only = []"
proof -
  have "merge_dups xs = [] \<longleftrightarrow> xs = []" for xs by (cases xs) auto
  moreover have "fst (GetList st only unique_pred) = [] \<longleftrightarrow> report_entries st only = []"
    using arg_cong [OF mset_GetList [of st only unique_pred], of size] by auto
  ultimately show ?thesis by (simp add: GetUniqueList_def)
qed

lemma report_entries_live:
  assumes "shards_ok (shards st)" "shard_find (shards st) k = Some i" "kBacktraceEmptyIndex < pi_hash_index i"
  shows "report_entries st True \<noteq> []"
proof -
  have "(k, i) \<in> set (live st)" using sm.in_entries [OF assms(1)] assms(2) by blast
  with assms(3) show ?thesis by (force simp: report_entries_def has_stack_def filter_empty_conv)
qed



text \<open>
  C23: climb mode stays inside its budget. In every reachable state the recorded
  bytes of the retained rungs are the bytes of their lists and at most 8 MiB;
  first-crossing runs retain no rung, and a final snapshot has its threshold
  pinned out of reach.
\<close>

theorem step_budget:
  assumes "reach dc M st"
  shows "step_snaps_bytes st = step_bytes (step_snaps st)
    \<and> step_bytes (step_snaps st) \<le> 8 * 1024 * 1024
    \<and> (cfg_peak_retention (dc_config dc) = FirstCrossing \<longrightarrow> step_snaps st = [])
    \<and> (peak_snapshot_final st \<longrightarrow> next_peak_record_threshold st = SIZE_MAX)"
  using reach_snaps_ok [OF assms] by (simp add: snaps_ok_def kMaxStepSnapshotBytes_def)

theorem step_budget_witness: "step_bytes (step_snaps demo_state) \<le> 8 * 1024 * 1024"
  using step_budget [OF demo_state_reach] by blast

lemma report_entries_core: "core st' = core st \<Longrightarrow> report_entries st' only = report_entries st only"
  by (simp add: report_entries_def core_eq_iff)

lemma MaybeRecord_takes_first:
  assumes "has_option RECORD_MEMORY_PEAK (dc_config dc)" "\<not> observed_peak_active st"
    "\<not> peak_proc_read_inflight st" "\<not> peak_snapshot_final st" "tracked_peak_once st"
    "report_entries st True \<noteq> []" "next_peak_record_threshold st < peak_tot st"
  shows "peak_snapshot_final (MaybeRecordPeakSnapshot dc env (peak_tot st) st)"
    and "peak_list_tot (MaybeRecordPeakSnapshot dc env (peak_tot st) st) = current_used st"
    and "peak_snapshot_source (MaybeRecordPeakSnapshot dc env (peak_tot st) st) = SourceTracked"
proof -
  define st1 where "st1 = st\<lparr> peak_proc_read_inflight := True \<rparr>"
  have ne: "GetUniqueList st1 True \<noteq> []"
    using assms(6) by (simp add: GetUniqueList_Nil_iff st1_def report_entries_core [OF core_claim])
  obtain st2 where take: "TakePeakSnapshotLocked dc env SourceTracked None (Some (pe_proc env)) st1 = (True, st2)"
    using TakePeakSnapshotLocked_fields(8) [of dc env SourceTracked None "Some (pe_proc env)" st1] ne
    by (metis surj_pair)
  note s = TakePeakSnapshotLocked_fields [OF take]
  have "MaybeRecordPeakSnapshot dc env (peak_tot st) st = st2\<lparr> peak_snapshot_final := True,
      next_peak_record_threshold := SIZE_MAX, peak_proc_read_inflight := False \<rparr>"
    using assms s(4) take
    by (simp add: MaybeRecordPeakSnapshot_def tracked_snapshot_section_def st1_def Let_def not_le)
  with s(9) show "peak_snapshot_final (MaybeRecordPeakSnapshot dc env (peak_tot st) st)"
    "peak_list_tot (MaybeRecordPeakSnapshot dc env (peak_tot st) st) = current_used st"
    "peak_snapshot_source (MaybeRecordPeakSnapshot dc env (peak_tot st) st) = SourceTracked"
    by (simp_all add: retained_snapshot_def st1_def)
qed

lemma inflight_counts [simp]:
  "peak_proc_read_inflight (count_sub n t st) = peak_proc_read_inflight st"
  "peak_proc_read_inflight (count_add n t st) = peak_proc_read_inflight st"
  "peak_proc_read_inflight (raise_side t st) = peak_proc_read_inflight st"
  by (simp_all add: count_sub_def count_add_def raise_side_def Let_def)

lemma inflight_AddBacktrace:
  "AddBacktrace cfg capture n sz st = (h, st') \<Longrightarrow> peak_proc_read_inflight st' = peak_proc_read_inflight st"
  by (auto simp: AddBacktrace_def intern_stack_def Let_def split: if_splits option.splits)

lemma inflight_add_section:
  "add_section p n h ty tv st = (d, tot, raised, st') \<Longrightarrow> peak_proc_read_inflight st' = peak_proc_read_inflight st"
  by (auto simp: add_section_def Let_def raise_total_eq split: option.splits)


lemma demo_first_stack:
  "kBacktraceEmptyIndex < fst (AddBacktrace demo_config demo_capture 128 64 (PointerData_start demo_config))"
  by (simp add: AddBacktrace_def ShouldBacktraceAllocSize_def has_option_def demo_config_def option_bits
      demo_capture_def demo_raw_def RawStackRecord_init_def intern_stack_def Let_def
      PointerData_start_def PointerData_Initialize_def hash_indices)


end
