(* ===== verification/ProcText.thy ===== *)
theory ProcText
  imports CText "HOL-Library.Monad_Syntax"
begin

text \<open>
  Reading the kernel's text files. \<^verbatim>\<open>backtrace/src/ObservedMemory.cpp\<close> reads
  \<^verbatim>\<open>maps\<close>, \<^verbatim>\<open>smaps\<close> and the ION accounting file through one loop, written out five
  times: refill a fixed buffer behind the bytes held over, hand every complete
  line to a parser, keep the incomplete tail. \<^verbatim>\<open>stream_lines\<close> is that loop; it is
  proved independent of how the kernel splits the text over the reads. The
  theory also has the conversions of \<^verbatim>\<open>sscanf\<close> the line parsers use.
\<close>

section \<open>Conversions of sscanf\<close>

definition strip_0x :: "string \<Rightarrow> string" where
  "strip_0x s = (case strip_prefix ''0x'' s of
       Some r \<Rightarrow> r
     | None \<Rightarrow> (case strip_prefix ''0X'' s of Some r \<Rightarrow> r | None \<Rightarrow> s))"

text \<open>\<^verbatim>\<open>%lx\<close>, \<^verbatim>\<open>%llu\<close>, \<^verbatim>\<open>%ld\<close> and \<^verbatim>\<open>%d\<close>: \<^verbatim>\<open>None\<close> is a matching failure.\<close>

definition scan_hex :: "string \<Rightarrow> (u64 \<times> string) option" where
  "scan_hex s =
     (let (neg, t) = read_sign (skip_space s);
          digits = strip_0x t;
          (n, rest) = read_digits 16 0 digits
      in if rest = digits then None
         else if n \<ge> 2 ^ 64 then Some (- 1, rest)
         else Some (if neg then - of_nat n else of_nat n, rest))"

definition scan_ull :: "string \<Rightarrow> (u64 \<times> string) option" where
  "scan_ull s = (let (v, rest, range) = strtoull 10 s in if rest = s then None else Some (v, rest))"

definition scan_long :: "string \<Rightarrow> (int \<times> string) option" where
  "scan_long s = (let (v, rest, range) = strtol10 s in if rest = s then None else Some (v, rest))"

definition scan_int :: "string \<Rightarrow> (int \<times> string) option" where
  "scan_int s = map_option (\<lambda>(v, rest). (sint (of_int v :: 32 word), rest)) (scan_long s)"

text \<open>\<^verbatim>\<open>%s\<close> with a width, a literal character, and the range \<^verbatim>\<open>%lx-%lx\<close>.\<close>

definition scan_word :: "nat \<Rightarrow> string \<Rightarrow> (string \<times> string) option" where
  "scan_word width s =
     (let t = skip_space s; w = take width (takeWhile (\<lambda>c. \<not> is_space c) t)
      in if w = [] then None else Some (w, drop (length w) t))"

definition scan_char :: "char \<Rightarrow> string \<Rightarrow> string option" where
  "scan_char c s = strip_prefix [c] s"

definition scan_range :: "string \<Rightarrow> ((u64 \<times> u64) \<times> string) option" where
  "scan_range s = do {
     (lo, s) \<leftarrow> scan_hex s;
     s \<leftarrow> scan_char (CHR ''-'') s;
     (hi, s) \<leftarrow> scan_hex s;
     Some ((lo, hi), s) }"

subsection \<open>Reading printed numbers back\<close>

definition digits_text :: "nat \<Rightarrow> string \<Rightarrow> bool" where
  "digits_text base s \<longleftrightarrow> s \<noteq> [] \<and> list_all (\<lambda>c. digit_val base c \<noteq> None) s"

definition digits_value :: "nat \<Rightarrow> string \<Rightarrow> nat" where
  "digits_value base s = fst (read_digits base 0 s)"

definition stops_digits :: "nat \<Rightarrow> string \<Rightarrow> bool" where
  "stops_digits base t \<longleftrightarrow> (case t of [] \<Rightarrow> True | c # r \<Rightarrow> digit_val base c = None)"

lemma read_digits_stops: "stops_digits base t \<Longrightarrow> read_digits base acc t = (acc, t)"
  by (cases t) (auto simp: stops_digits_def)

lemma read_digits_text:
  assumes "digits_text base s" "stops_digits base t"
  shows "read_digits base 0 (s @ t) = (digits_value base s, t)"
proof -
  have "\<forall>c \<in> set s. digit_val base c \<noteq> None"
    using assms(1) by (simp add: digits_text_def list_all_iff)
  from read_digits_append [OF this] show ?thesis
    by (simp add: digits_value_def read_digits_stops [OF assms(2)])
qed

lemma digit16_plain:
  assumes "digit_val 16 c \<noteq> None"
  shows "\<not> is_space c" "c \<noteq> CHR ''-''" "c \<noteq> CHR ''+''" "c \<noteq> CHR ''x''" "c \<noteq> CHR ''X''"
  using assms by (auto simp: digit_val_def is_space_def Let_def split: if_splits)

lemma digit10_digit16: "digit_val 10 c \<noteq> None \<Longrightarrow> digit_val 16 c \<noteq> None"
  by (auto simp: digit_val_def Let_def split: if_splits)

lemma skip_sign_digits:
  assumes "digits_text base s" "base = 10 \<or> base = 16"
  shows "skip_space (s @ t) = s @ t" "read_sign (s @ t) = (False, s @ t)"
proof -
  obtain c r where s: "s = c # r" "digit_val 16 c \<noteq> None"
    using assms digit10_digit16 by (cases s) (auto simp: digits_text_def)
  from digit16_plain [OF s(2)] show "skip_space (s @ t) = s @ t" "read_sign (s @ t) = (False, s @ t)"
    by (simp_all add: s(1) read_sign_def)
qed

lemma strip_0x_digits:
  assumes "digits_text 16 s" "case t of [] \<Rightarrow> True | c # r \<Rightarrow> c \<noteq> CHR ''x'' \<and> c \<noteq> CHR ''X''"
  shows "strip_0x (s @ t) = s @ t"
proof -
  have h: "\<forall>c \<in> set s. c \<noteq> CHR ''x'' \<and> c \<noteq> CHR ''X''"
    using assms(1) digit16_plain by (auto simp: digits_text_def list_all_iff)
  obtain c r where s: "s = c # r" using assms(1) by (cases s) (auto simp: digits_text_def)
  show ?thesis
  proof (cases r)
    case Nil
    with assms(2) show ?thesis by (auto simp: s strip_0x_def split: list.splits option.splits)
  next
    case (Cons d r')
    with h show ?thesis by (auto simp: s strip_0x_def)
  qed
qed

lemma scan_hex_text:
  assumes "digits_text 16 s" "digits_value 16 s < 2 ^ 64" "stops_digits 16 t"
    "case t of [] \<Rightarrow> True | c # r \<Rightarrow> c \<noteq> CHR ''x'' \<and> c \<noteq> CHR ''X''"
  shows "scan_hex (s @ t) = Some (of_nat (digits_value 16 s), t)"
proof -
  have "s \<noteq> []" using assms(1) by (simp add: digits_text_def)
  with assms show ?thesis
    by (simp add: scan_hex_def skip_sign_digits [OF assms(1)] strip_0x_digits read_digits_text not_le)
qed

lemma scan_ull_text:
  assumes "digits_text 10 s" "digits_value 10 s < 2 ^ 64" "stops_digits 10 t"
  shows "scan_ull (s @ t) = Some (of_nat (digits_value 10 s), t)"
proof -
  have "s \<noteq> []" using assms(1) by (simp add: digits_text_def)
  with assms show ?thesis
    by (simp add: scan_ull_def strtoull_def skip_sign_digits [OF assms(1)] read_digits_text not_le)
qed

section \<open>Lines of a text\<close>

fun split_lines :: "string \<Rightarrow> string list \<times> string" where
  "split_lines [] = ([], [])"
| "split_lines (c # s) =
     (let (ls, tail) = split_lines s
      in if c = CHR 0x0A then ([] # ls, tail)
         else (case ls of [] \<Rightarrow> ([], c # tail) | l # ls' \<Rightarrow> ((c # l) # ls', tail)))"

definition c_str :: "string \<Rightarrow> string" where
  "c_str s = takeWhile (\<lambda>c. c \<noteq> CHR 0x00) s"

text \<open>
  The read loop. \<^verbatim>\<open>cap\<close> is the buffer size, \<^verbatim>\<open>grants\<close> says how many bytes the kernel
  is willing to deliver per \<^verbatim>\<open>read\<close> (when it is used up, or nothing is left, \<^verbatim>\<open>read\<close>
  returns no bytes), \<^verbatim>\<open>held\<close> the bytes carried over, \<^verbatim>\<open>parse\<close> the line parser and
  \<^verbatim>\<open>skip\<close> what happens to the parser's state when a full buffer holds no newline.
\<close>

primrec stream_lines ::
    "nat \<Rightarrow> ('s \<Rightarrow> string \<Rightarrow> 's) \<Rightarrow> ('s \<Rightarrow> 's) \<Rightarrow> nat list \<Rightarrow> string \<Rightarrow> string \<Rightarrow> 's \<Rightarrow> 's" where
  "stream_lines cap parse skip [] held input st = st"
| "stream_lines cap parse skip (g # grants) held input st =
     (let got = take (min g (cap - length held - 1)) input
      in if got = [] then st
         else let (ls, tail) = split_lines (held @ got);
                  st = fold (\<lambda>l s. parse s (c_str l)) ls st;
                  input = drop (length got) input
              in if length tail \<ge> cap - 1
                 then stream_lines cap parse skip grants [] input (skip st)
                 else stream_lines cap parse skip grants tail input st)"

lemma split_lines_append:
  "split_lines (a @ b) =
     (fst (split_lines a) @ fst (split_lines (snd (split_lines a) @ b)),
      snd (split_lines (snd (split_lines a) @ b)))"
proof (induction a)
  case (Cons c a)
  obtain la ta where a: "split_lines a = (la, ta)" by fastforce
  obtain lb tb where b: "split_lines (ta @ b) = (lb, tb)" by fastforce
  show ?case
    using Cons by (cases la) (simp_all add: a b)
qed (simp add: split_beta)

lemma split_lines_plain: "CHR 0x0A \<notin> set s \<Longrightarrow> split_lines s = ([], s)"
  by (induction s) (auto simp: Let_def)

lemma split_lines_tail_plain: "CHR 0x0A \<notin> set (snd (split_lines s))"
  by (induction s) (auto simp: Let_def split: prod.splits list.splits)

lemma split_lines_newline: "CHR 0x0A \<notin> set l \<Longrightarrow> split_lines (l @ CHR 0x0A # s) = (l # fst (split_lines s), snd (split_lines s))"
  by (induction l) (auto simp: Let_def split: prod.splits)

lemma split_lines_plain_append:
  "CHR 0x0A \<notin> set a \<Longrightarrow> split_lines (a @ b) =
     (case split_lines b of ([], t) \<Rightarrow> ([], a @ t) | (l # ls, t) \<Rightarrow> ((a @ l) # ls, t))"
  by (induction a) (auto simp: Let_def split: prod.splits list.splits)

lemma split_lines_chars: "(\<Union>l \<in> set (fst (split_lines t)). set l) \<subseteq> set t"
  by (induction t) (auto simp: Let_def split: prod.splits list.splits, blast+)

definition short_lines :: "nat \<Rightarrow> string \<Rightarrow> bool" where
  "short_lines n s \<longleftrightarrow> list_all (\<lambda>l. length l < n) (fst (split_lines s)) \<and> length (snd (split_lines s)) < n"

lemma short_lines_split:
  assumes "short_lines n (a @ b)" "split_lines a = (la, ta)"
  shows "short_lines n (ta @ b)" "length ta < n"
proof -
  obtain lb tb where b: "split_lines (ta @ b) = (lb, tb)" by fastforce
  have "split_lines (a @ b) = (la @ lb, tb)"
    using split_lines_append [of a b] assms(2) b by simp
  with assms(1) b show "short_lines n (ta @ b)" by (simp add: short_lines_def)
  have "CHR 0x0A \<notin> set ta" using split_lines_tail_plain [of a] assms(2) by simp
  note ta = split_lines_plain_append [OF this, of b]
  show "length ta < n"
    using \<open>short_lines n (ta @ b)\<close> ta
    by (auto simp: short_lines_def split: prod.splits list.splits)
qed

lemma stream_lines_eq:
  assumes "list_all (\<lambda>g. 0 < g) grants" "length input \<le> length grants" "CHR 0x0A \<notin> set held"
    "short_lines (cap - 1) (held @ input)"
  shows "stream_lines cap parse skip grants held input st =
    fold (\<lambda>l s. parse s (c_str l)) (fst (split_lines (held @ input))) st"
  using assms
proof (induction grants arbitrary: held input st)
  case Nil
  then show ?case by (simp add: split_lines_plain)
next
  case (Cons g grants)
  define got where "got = take (min g (cap - length held - 1)) input"
  obtain la ta where a: "split_lines (held @ got) = (la, ta)" by fastforce
  have held: "length held < cap - 1"
    using short_lines_split(2) [OF Cons.prems(4) split_lines_plain] Cons.prems(3) by simp
  show ?case
  proof (cases "got = []")
    case True
    with held Cons.prems(1) have "input = []" by (auto simp: got_def)
    with True Cons.prems(3) show ?thesis by (simp add: split_lines_plain)
  next
    case False
    let ?input = "drop (length got) input"
    have input: "input = got @ ?input" unfolding got_def by (metis append_eq_conv_conj append_take_drop_id)
    have "short_lines (cap - 1) ((held @ got) @ ?input)"
      using Cons.prems(4) input by simp
    note s = short_lines_split [OF this a]
    have tail: "CHR 0x0A \<notin> set ta" using split_lines_tail_plain [of "held @ got"] a by simp
    obtain lb tb where b: "split_lines (ta @ ?input) = (lb, tb)" by fastforce
    have len: "length ?input \<le> length grants" using Cons.prems(2) False by (cases got) auto
    have "stream_lines cap parse skip (g # grants) held input st =
        stream_lines cap parse skip grants ta ?input (fold (\<lambda>l s. parse s (c_str l)) la st)"
      using False s(2) by (simp only: stream_lines.simps got_def [symmetric] Let_def a prod.case) simp
    also have "\<dots> = fold (\<lambda>l s. parse s (c_str l)) lb (fold (\<lambda>l s. parse s (c_str l)) la st)"
      using Cons.IH [of ?input ta] s(1) tail len Cons.prems(1) b by simp
    also have "\<dots> = fold (\<lambda>l s. parse s (c_str l)) (fst (split_lines ((held @ got) @ ?input))) st"
      by (simp only: split_lines_append [of "held @ got"] a b fst_conv snd_conv fold_append o_apply)
    finally show ?thesis using input by simp
  qed
qed

text \<open>
  A line that does not fit: the loop drops the first full buffer of it and then
  parses what is left of the line as a line of its own.
\<close>

lemma stream_lines_overlong:
  assumes "length p = cap - 1" "CHR 0x0A \<notin> set p" "CHR 0x0A \<notin> set q" "length q + 2 \<le> cap"
  shows "stream_lines cap parse skip [cap, cap] [] (p @ q @ [CHR 0x0A]) st = parse (skip st) (c_str q)"
proof -
  have t: "take (cap - 1) (p @ q @ [CHR 0x0A]) = p" "drop (length p) (p @ q @ [CHR 0x0A]) = q @ [CHR 0x0A]"
    using assms(1) by simp_all
  have ne: "p \<noteq> []" using assms(1,4) by auto
  have q: "take (cap - 1) (q @ [CHR 0x0A]) = q @ [CHR 0x0A]" using assms(4) by simp
  have "stream_lines cap parse skip [cap, cap] [] (p @ q @ [CHR 0x0A]) st =
      stream_lines cap parse skip [cap] [] (q @ [CHR 0x0A]) (skip st)"
    using ne assms(1) t by (simp add: split_lines_plain [OF assms(2)] Let_def del: append_assoc)
  also have "\<dots> = parse (skip st) (c_str q)"
    using assms(4) q split_lines_newline [OF assms(3), of "[]"] by (simp add: Let_def)
  finally show ?thesis .
qed

end
