(* ===== verification/InodeSet.thy ===== *)
theory InodeSet
  imports Prelude
begin

text \<open>
  The set a dmabuf pass dedups buffers with (\<^verbatim>\<open>DmaInodeSet\<close> of
  \<^verbatim>\<open>backtrace/include/ObservedMemory.h\<close>): an open-addressing table of inodes whose
  slots are stamped with the generation of the pass instead of being cleared.
  \<^verbatim>\<open>InsertInode\<close> and \<^verbatim>\<open>ResetDmaInodeSet\<close> are proved to implement insertion into a
  finite set and emptying it, the 32-bit generation wrapping included. Clients
  rely on the interface \<^verbatim>\<open>dedup_set\<close> only.
\<close>

unbundle bit_operations_syntax

section \<open>The interface\<close>

primrec firsts :: "'a set \<Rightarrow> ('a \<times> 'b) list \<Rightarrow> ('a \<times> 'b) list" where
  "firsts seen [] = []"
| "firsts seen (xw # xs) =
     (if fst xw \<in> seen then firsts seen xs else xw # firsts (insert (fst xw) seen) xs)"

lemma firsts_keys: "fst ` set (firsts seen xs) = fst ` set xs - seen"
  by (induction xs arbitrary: seen) auto

lemma firsts_distinct: "distinct (map fst (firsts seen xs))"
proof (induction xs arbitrary: seen)
  case (Cons xw xs)
  have "fst xw \<notin> fst ` set (firsts (insert (fst xw) seen) xs)" by (simp add: firsts_keys)
  with Cons show ?case by simp
qed simp

lemma firsts_append: "firsts seen (xs @ ys) = firsts seen xs @ firsts (seen \<union> fst ` set xs) ys"
  by (induction xs arbitrary: seen) (auto simp: insert_absorb)

locale dedup_set =
  fixes ins :: "'s \<Rightarrow> 'a \<Rightarrow> bool \<times> 's"
    and elems :: "'s \<Rightarrow> 'a set"
    and good :: "'s \<Rightarrow> bool"
    and room :: nat
  assumes elems_finite: "good s \<Longrightarrow> finite (elems s)"
    and ins_good: "good s \<Longrightarrow> good (snd (ins s x))"
    and ins_new: "good s \<Longrightarrow> card (elems s) < room \<Longrightarrow> fst (ins s x) \<longleftrightarrow> x \<notin> elems s"
    and ins_elems: "good s \<Longrightarrow> card (elems s) < room \<Longrightarrow> elems (snd (ins s x)) = insert x (elems s)"
begin

text \<open>Adding up a sequence of weighted keys, each key by its first weight only.\<close>

primrec sum_new :: "('a \<times> 'b::comm_monoid_add) list \<Rightarrow> 's \<Rightarrow> 'b \<Rightarrow> 'b \<times> 's" where
  "sum_new [] s acc = (acc, s)"
| "sum_new (xw # xs) s acc =
     (let (new, s') = ins s (fst xw) in sum_new xs s' (if new then acc + snd xw else acc))"

lemma sum_new_firsts:
  assumes "good s" "card (elems s \<union> fst ` set xs) < room"
  shows "fst (sum_new xs s acc) = acc + sum_list (map snd (firsts (elems s) xs))
    \<and> good (snd (sum_new xs s acc))
    \<and> elems (snd (sum_new xs s acc)) = elems s \<union> fst ` set xs"
  using assms
proof (induction xs arbitrary: s acc)
  case (Cons xw xs)
  obtain new s' where i: "ins s (fst xw) = (new, s')" by fastforce
  have fin: "finite (elems s)" by (rule elems_finite [OF Cons.prems(1)])
  have "card (elems s) < room"
    by (rule le_less_trans [OF card_mono Cons.prems(2)]) (use fin in auto)
  then have s': "good s'" "new \<longleftrightarrow> fst xw \<notin> elems s" "elems s' = insert (fst xw) (elems s)"
    using ins_good [OF Cons.prems(1), of "fst xw"] ins_new [OF Cons.prems(1), of "fst xw"]
      ins_elems [OF Cons.prems(1), of "fst xw"] i by simp_all
  have "card (elems s' \<union> fst ` set xs) < room" using Cons.prems(2) by (simp add: s'(3))
  from Cons.IH [OF s'(1) this] show ?case
    by (cases "fst xw \<in> elems s") (auto simp: i s' insert_absorb add.assoc)
qed simp

lemma ins_all:
  assumes "good s" "distinct xs" "set xs \<inter> elems s = {}" "card (elems s) + length xs \<le> room"
  shows "elems (fold (\<lambda>x s. snd (ins s x)) xs s) = elems s \<union> set xs
    \<and> good (fold (\<lambda>x s. snd (ins s x)) xs s)"
  using assms
proof (induction xs arbitrary: s)
  case (Cons x xs)
  let ?s = "snd (ins s x)"
  have "card (elems s) < room" using Cons.prems(4) by simp
  then have e: "elems ?s = insert x (elems s)" by (rule ins_elems [OF Cons.prems(1)])
  have "card (elems ?s) = Suc (card (elems s))"
    using Cons.prems(3) elems_finite [OF Cons.prems(1)] e by simp
  with Cons.IH [of ?s] ins_good [OF Cons.prems(1)] Cons.prems e show ?case by auto
qed simp

end

section \<open>The table\<close>

record DmaInodeSet =
  ds_inode :: "u64 list"
  ds_stamp :: "u32 list"
  ds_generation :: u32
  ds_count :: nat
  ds_overflowed :: bool

definition kSlots :: nat where
  "kSlots = 4096"

definition kMaxDedupedBuffers :: nat where
  "kMaxDedupedBuffers = kSlots div 2"

definition DmaInodeSet_init :: DmaInodeSet where
  "DmaInodeSet_init = \<lparr> ds_inode = replicate kSlots 0, ds_stamp = replicate kSlots 0,
     ds_generation = 0, ds_count = 0, ds_overflowed = False \<rparr>"

definition inode_slot :: "u64 \<Rightarrow> nat" where
  "inode_slot ino = unat (drop_bit 40 (ino * 0x9e3779b97f4a7c15) AND (of_nat kSlots - 1))"

definition InsertInode :: "DmaInodeSet \<Rightarrow> u64 \<Rightarrow> bool \<times> DmaInodeSet" where
  "InsertInode s ino =
     (if ds_count s \<ge> kMaxDedupedBuffers then (True, s\<lparr> ds_overflowed := True \<rparr>)
      else
        let slot = inode_slot ino;
            index = (\<lambda>probe. (slot + probe) mod kSlots)
        in case find (\<lambda>probe. ds_stamp s ! index probe \<noteq> ds_generation s
                          \<or> ds_inode s ! index probe = ino) [0..<kSlots] of
             None \<Rightarrow> (True, s\<lparr> ds_overflowed := True \<rparr>)
           | Some probe \<Rightarrow>
               if ds_stamp s ! index probe \<noteq> ds_generation s
               then (True, s\<lparr> ds_stamp := (ds_stamp s)[index probe := ds_generation s],
                              ds_inode := (ds_inode s)[index probe := ino],
                              ds_count := ds_count s + 1 \<rparr>)
               else (False, s))"

definition ResetDmaInodeSet :: "DmaInodeSet \<Rightarrow> DmaInodeSet" where
  "ResetDmaInodeSet s =
     (let s = s\<lparr> ds_count := 0, ds_overflowed := False, ds_generation := ds_generation s + 1 \<rparr>
      in if ds_generation s = 0
         then s\<lparr> ds_stamp := replicate kSlots 0, ds_generation := 1 \<rparr>
         else s)"

section \<open>The invariant and the abstraction\<close>

definition occupied :: "DmaInodeSet \<Rightarrow> nat \<Rightarrow> bool" where
  "occupied s i \<longleftrightarrow> i < kSlots \<and> ds_stamp s ! i = ds_generation s"

definition inode_elems :: "DmaInodeSet \<Rightarrow> u64 set" where
  "inode_elems s = (\<lambda>i. ds_inode s ! i) ` {i. occupied s i}"

definition table_sized :: "DmaInodeSet \<Rightarrow> bool" where
  "table_sized s \<longleftrightarrow> length (ds_inode s) = kSlots \<and> length (ds_stamp s) = kSlots
     \<and> (\<forall>g \<in> set (ds_stamp s). g \<le> ds_generation s)"

definition probe_chain :: "DmaInodeSet \<Rightarrow> nat \<Rightarrow> bool" where
  "probe_chain s i \<longleftrightarrow>
     (\<exists>k<kSlots. i = (inode_slot (ds_inode s ! i) + k) mod kSlots
        \<and> (\<forall>j<k. occupied s ((inode_slot (ds_inode s ! i) + j) mod kSlots)))"

definition inodes_ok :: "DmaInodeSet \<Rightarrow> bool" where
  "inodes_ok s \<longleftrightarrow> table_sized s
     \<and> inj_on (\<lambda>i. ds_inode s ! i) {i. occupied s i}
     \<and> ds_count s = card {i. occupied s i}
     \<and> (\<forall>i. occupied s i \<longrightarrow> probe_chain s i)"

lemma occupied_finite [simp]: "finite {i. occupied s i}"
  by (rule finite_subset [of _ "{..<kSlots}"]) (auto simp: occupied_def)

lemma inode_elems_finite [simp]: "finite (inode_elems s)"
  by (simp add: inode_elems_def)

lemma inodes_ok_card: "inodes_ok s \<Longrightarrow> card (inode_elems s) = ds_count s"
  by (simp add: inodes_ok_def inode_elems_def card_image)

lemma generation_step:
  assumes "(g :: u32) + 1 \<noteq> 0" "h \<le> g"
  shows "h < g + 1"
proof -
  have "unat (g + 1) = Suc (unat g)" using unatSuc [of g] assms(1) by (simp add: add.commute)
  with assms(2) show ?thesis by (simp add: word_less_nat_alt word_le_nat_alt)
qed

lemma reset_elems [simp]:
  assumes "table_sized s"
  shows "inodes_ok (ResetDmaInodeSet s)" "inode_elems (ResetDmaInodeSet s) = {}"
    "\<not> ds_overflowed (ResetDmaInodeSet s)"
proof -
  have free: "\<not> occupied (ResetDmaInodeSet s) i" for i
  proof (cases "ds_generation s + 1 = 0")
    case False
    have "g < ds_generation s + 1" if "g \<in> set (ds_stamp s)" for g
      using generation_step [OF False] assms that by (simp add: table_sized_def)
    with False assms show ?thesis
      by (auto simp: occupied_def ResetDmaInodeSet_def Let_def table_sized_def) (metis less_irrefl nth_mem)
  qed (auto simp: occupied_def ResetDmaInodeSet_def Let_def kSlots_def)
  show "inode_elems (ResetDmaInodeSet s) = {}" using free by (simp add: inode_elems_def)
  have "ds_count (ResetDmaInodeSet s) = 0" "\<not> ds_overflowed (ResetDmaInodeSet s)"
    by (simp_all add: ResetDmaInodeSet_def Let_def)
  moreover have "table_sized (ResetDmaInodeSet s)"
  proof (cases "ds_generation s + 1 = 0")
    case True
    then show ?thesis using assms by (simp add: table_sized_def ResetDmaInodeSet_def Let_def)
  next
    case False
    then have "g \<le> ds_generation s + 1" if "g \<le> ds_generation s" for g
      using generation_step [OF False that] by simp
    with False assms show ?thesis by (auto simp: table_sized_def ResetDmaInodeSet_def Let_def)
  qed
  ultimately show "inodes_ok (ResetDmaInodeSet s)" "\<not> ds_overflowed (ResetDmaInodeSet s)"
    using free by (simp_all add: inodes_ok_def)
qed

lemma occupied_card: "inodes_ok s \<Longrightarrow> card {i. occupied s i} = ds_count s"
  by (simp add: inodes_ok_def)

lemma free_slot:
  assumes "inodes_ok s" "ds_count s < kSlots"
  shows "\<exists>i<kSlots. \<not> occupied s i"
proof (rule ccontr)
  assume "\<not> ?thesis"
  then have "{i. occupied s i} = {..<kSlots}" by (auto simp: occupied_def)
  with occupied_card [OF assms(1)] assms(2) show False by simp
qed

lemma probe_covers: "i < kSlots \<Longrightarrow> \<exists>p<kSlots. (slot + p) mod kSlots = i"
proof -
  assume i: "i < kSlots"
  let ?p = "(i + kSlots - slot mod kSlots) mod kSlots"
  have "slot mod kSlots < kSlots" by (simp add: kSlots_def)
  then have "slot mod kSlots + (i + kSlots - slot mod kSlots) = i + kSlots" by linarith
  then have "(slot mod kSlots + (i + kSlots - slot mod kSlots)) mod kSlots = i"
    using i by simp
  then have "(slot + ?p) mod kSlots = i" by (metis mod_add_eq mod_add_left_eq mod_add_right_eq)
  then show ?thesis by (intro exI [of _ ?p]) (simp add: kSlots_def)
qed

text \<open>The outcome of the probe loop, as the two cases that occur.\<close>

lemma InsertInode_cases:
  assumes "inodes_ok s" "ds_count s < kMaxDedupedBuffers"
  obtains (free) p where "p < kSlots" "\<not> occupied s ((inode_slot ino + p) mod kSlots)"
      "\<forall>j<p. occupied s ((inode_slot ino + j) mod kSlots) \<and> ds_inode s ! ((inode_slot ino + j) mod kSlots) \<noteq> ino"
      "InsertInode s ino = (True, s\<lparr> ds_stamp := (ds_stamp s)[(inode_slot ino + p) mod kSlots := ds_generation s],
          ds_inode := (ds_inode s)[(inode_slot ino + p) mod kSlots := ino], ds_count := ds_count s + 1 \<rparr>)"
    | (found) i where "occupied s i" "ds_inode s ! i = ino" "InsertInode s ino = (False, s)"
proof -
  let ?idx = "\<lambda>p. (inode_slot ino + p) mod kSlots"
  let ?P = "\<lambda>p. ds_stamp s ! ?idx p \<noteq> ds_generation s \<or> ds_inode s ! ?idx p = ino"
  have idx: "?idx p < kSlots" for p by (simp add: kSlots_def)
  have occ: "occupied s (?idx p) \<longleftrightarrow> ds_stamp s ! ?idx p = ds_generation s" for p
    using idx by (simp add: occupied_def)
  obtain i where "i < kSlots" "\<not> occupied s i"
    using free_slot [OF assms(1)] assms(2) by (auto simp: kMaxDedupedBuffers_def kSlots_def)
  with probe_covers [of i "inode_slot ino"] occ obtain q where "q < kSlots" "?P q" by blast
  then obtain p where p: "find ?P [0..<kSlots] = Some p"
    by (cases "find ?P [0..<kSlots]") (auto simp: find_upt_None)
  then have p': "p < kSlots" "?P p" "\<forall>j<p. \<not> ?P j" by (simp_all add: find_upt)
  show thesis
  proof (cases "occupied s (?idx p)")
    case True
    then have e: "ds_inode s ! ?idx p = ino" using p'(2) occ by simp
    moreover have "InsertInode s ino = (False, s)"
      using assms(2) p True occ by (simp add: InsertInode_def Let_def)
    ultimately show ?thesis using found True by blast
  next
    case False
    moreover have "InsertInode s ino = (True, s\<lparr> ds_stamp := (ds_stamp s)[?idx p := ds_generation s],
          ds_inode := (ds_inode s)[?idx p := ino], ds_count := ds_count s + 1 \<rparr>)"
      using assms(2) p False occ by (simp add: InsertInode_def Let_def)
    ultimately show ?thesis using free p'(1,3) occ by blast
  qed
qed

lemma InsertInode_room:
  assumes "inodes_ok s" "ds_count s < kMaxDedupedBuffers"
  shows "fst (InsertInode s ino) \<longleftrightarrow> ino \<notin> inode_elems s"
    and "inode_elems (snd (InsertInode s ino)) = insert ino (inode_elems s)"
    and "inodes_ok (snd (InsertInode s ino))"
proof -
  have "(fst (InsertInode s ino) \<longleftrightarrow> ino \<notin> inode_elems s)
    \<and> inode_elems (snd (InsertInode s ino)) = insert ino (inode_elems s)
    \<and> inodes_ok (snd (InsertInode s ino))"
  proof (cases rule: InsertInode_cases [OF assms, of ino, case_names free found])
    case (found i)
    then show ?thesis using assms(1) by (auto simp: inode_elems_def)
  next
    case (free p)
    define i where "i = (inode_slot ino + p) mod kSlots"
    define s' where "s' = snd (InsertInode s ino)"
    have i: "i < kSlots" by (simp add: i_def kSlots_def)
    have len: "length (ds_inode s) = kSlots" "length (ds_stamp s) = kSlots"
      using assms(1) by (simp_all add: inodes_ok_def table_sized_def)
    have s': "ds_stamp s' = (ds_stamp s)[i := ds_generation s]" "ds_inode s' = (ds_inode s)[i := ino]"
      "ds_generation s' = ds_generation s" "ds_count s' = ds_count s + 1"
      by (simp_all add: s'_def free(4) i_def)
    have occ: "occupied s' j \<longleftrightarrow> j = i \<or> occupied s j" for j
      using i len by (auto simp: occupied_def s' nth_list_update)
    have ino: "ds_inode s' ! j = (if j = i then ino else ds_inode s ! j)" for j
      using i len by (simp add: s' nth_list_update)
    have ni: "\<not> occupied s i" using free(2) by (simp add: i_def)
    have set_occ: "{j. occupied s' j} = insert i {j. occupied s j}" using occ by auto
    have absent: "ino \<notin> inode_elems s"
    proof
      assume "ino \<in> inode_elems s"
      then obtain k where k: "occupied s k" "ds_inode s ! k = ino" unfolding inode_elems_def by blast
      have "probe_chain s k" using assms(1) k(1) by (simp add: inodes_ok_def)
      then obtain q where q: "q < kSlots" "k = (inode_slot ino + q) mod kSlots"
        "\<forall>j<q. occupied s ((inode_slot ino + j) mod kSlots)"
        unfolding probe_chain_def k(2) by blast
      have "\<not> q < p"
      proof
        assume "q < p"
        then have "ds_inode s ! ((inode_slot ino + q) mod kSlots) \<noteq> ino" using free(3) by simp
        then show False using k(2) unfolding q(2) ..
      qed
      moreover have "\<not> p < q" using spec [OF q(3), of p] free(2) by simp
      ultimately have "q = p" by linarith
      then show False using free(2) k(1) unfolding q(2) by simp
    qed
    have img: "(\<lambda>j. ds_inode s' ! j) ` {j. occupied s j} = (\<lambda>j. ds_inode s ! j) ` {j. occupied s j}"
      using ni by (intro image_cong) (auto simp: ino)
    have elems: "inode_elems s' = insert ino (inode_elems s)"
      unfolding inode_elems_def set_occ image_insert img by (simp add: ino)
    have "table_sized s'"
      using assms(1) set_update_subset_insert [of "ds_stamp s" i "ds_generation s"]
      by (auto simp: inodes_ok_def table_sized_def s')
    moreover have "inj_on (\<lambda>j. ds_inode s' ! j) {j. occupied s' j}"
    proof -
      have "inj_on (\<lambda>j. ds_inode s' ! j) {j. occupied s j} \<longleftrightarrow> inj_on (\<lambda>j. ds_inode s ! j) {j. occupied s j}"
        using ni by (intro inj_on_cong) (auto simp: ino)
      moreover have "(\<lambda>j. ds_inode s' ! j) i \<notin> (\<lambda>j. ds_inode s' ! j) ` {j. occupied s j}"
        unfolding img using absent by (simp add: ino inode_elems_def)
      ultimately show ?thesis
        using assms(1) ni unfolding set_occ by (simp add: inodes_ok_def)
    qed
    moreover have "ds_count s' = card {j. occupied s' j}"
      using occupied_card [OF assms(1)] ni by (simp add: set_occ s'(4))
    moreover have "probe_chain s' j" if "occupied s' j" for j
    proof (cases "j = i")
      case True
      have "ds_inode s' ! j = ino" by (simp add: True ino)
      with True free(1,3) i_def show ?thesis
        unfolding probe_chain_def by (intro exI [of _ p]) (simp add: occ)
    next
      case False
      with that have "probe_chain s j" using assms(1) by (simp add: occ inodes_ok_def)
      moreover have "ds_inode s' ! j = ds_inode s ! j" by (simp add: False ino)
      ultimately show ?thesis unfolding probe_chain_def occ by auto
    qed
    ultimately have "inodes_ok s'" by (simp add: inodes_ok_def)
    with elems absent free(4) show ?thesis by (simp add: s'_def)
  qed
  then show "fst (InsertInode s ino) \<longleftrightarrow> ino \<notin> inode_elems s"
    "inode_elems (snd (InsertInode s ino)) = insert ino (inode_elems s)"
    "inodes_ok (snd (InsertInode s ino))" by blast+
qed

lemma inodes_ok_sized: "inodes_ok s \<Longrightarrow> table_sized s"
  by (simp add: inodes_ok_def)

lemma InsertInode_overflow:
  "kMaxDedupedBuffers \<le> ds_count s \<Longrightarrow> InsertInode s ino = (True, s\<lparr> ds_overflowed := True \<rparr>)"
  by (simp add: InsertInode_def)

lemma inodes_ok_overflowed [simp]: "inodes_ok (s\<lparr> ds_overflowed := b \<rparr>) = inodes_ok s"
  "inode_elems (s\<lparr> ds_overflowed := b \<rparr>) = inode_elems s"
  by (simp_all add: inodes_ok_def table_sized_def probe_chain_def occupied_def inode_elems_def)

lemma InsertInode_ok: "inodes_ok s \<Longrightarrow> inodes_ok (snd (InsertInode s ino))"
  by (cases "ds_count s < kMaxDedupedBuffers") (simp_all add: InsertInode_room InsertInode_overflow)

interpretation ids: dedup_set InsertInode inode_elems inodes_ok kMaxDedupedBuffers
  by unfold_locales
    (simp_all add: InsertInode_ok InsertInode_room inodes_ok_card)

section \<open>Properties\<close>

lemma init_sized: "table_sized DmaInodeSet_init"
  by (simp add: table_sized_def DmaInodeSet_init_def)

lemma DmaInodeSet_start: "inodes_ok (ResetDmaInodeSet DmaInodeSet_init)"
  "inode_elems (ResetDmaInodeSet DmaInodeSet_init) = {}"
  using init_sized by simp_all

text \<open>
  C17: the stamped table is a set. Below its limit of 2048 buffers, inserting an
  inode reports it as new exactly when it is not in the set, adds it, keeps the
  table consistent, and changes the element count accordingly; a reset empties
  the set whatever the generation counter is, its wrap from \<^verbatim>\<open>2^32 - 1\<close> included,
  and leaves a consistent table.
\<close>

theorem inode_set_refines:
  assumes "inodes_ok s" "card (inode_elems s) < kMaxDedupedBuffers"
  shows "(fst (InsertInode s ino) \<longleftrightarrow> ino \<notin> inode_elems s)
    \<and> inode_elems (snd (InsertInode s ino)) = insert ino (inode_elems s)
    \<and> inodes_ok (snd (InsertInode s ino))
    \<and> inode_elems (ResetDmaInodeSet s) = {} \<and> inodes_ok (ResetDmaInodeSet s)"
  using assms inodes_ok_sized [OF assms(1)] by (simp add: InsertInode_room inodes_ok_card)

theorem inode_set_refines_witness:
  "\<not> fst (InsertInode (snd (InsertInode (ResetDmaInodeSet DmaInodeSet_init) 7)) 7)"
proof -
  let ?s = "ResetDmaInodeSet DmaInodeSet_init"
  note s = DmaInodeSet_start
  have one: "inode_elems (snd (InsertInode ?s 7)) = {7}" "inodes_ok (snd (InsertInode ?s 7))"
    using inode_set_refines [OF s(1), of 7] s(2) by (simp_all add: kMaxDedupedBuffers_def kSlots_def)
  show ?thesis
    using inode_set_refines [of "snd (InsertInode ?s 7)" 7] one
    by (simp add: kMaxDedupedBuffers_def kSlots_def)
qed

definition demo_inodes :: "u64 list" where
  "demo_inodes = map of_nat [0..<kMaxDedupedBuffers]"

lemma demo_inodes:
  "distinct demo_inodes" "length demo_inodes = kMaxDedupedBuffers" "7 \<in> set demo_inodes"
proof -
  have k: "kMaxDedupedBuffers < 2 ^ 64" "7 < kMaxDedupedBuffers"
    by (simp_all add: kMaxDedupedBuffers_def kSlots_def)
  have "inj_on (of_nat :: nat \<Rightarrow> u64) {0..<kMaxDedupedBuffers}"
    by (rule inj_on_inverseI [where g = unat]) (use k(1) in \<open>simp add: unat_of_nat\<close>)
  then show "distinct demo_inodes" by (simp add: demo_inodes_def distinct_map)
  show "length demo_inodes = kMaxDedupedBuffers" by (simp add: demo_inodes_def)
  show "7 \<in> set demo_inodes"
    using image_eqI [of "7 :: u64" of_nat 7 "{0..<kMaxDedupedBuffers}"] k(2) by (simp add: demo_inodes_def)
qed

text \<open>
  C38: the table dedups one buffer fewer than its limit says. Once it holds 2048
  distinct inodes, an inode it already holds is reported as new and the overflow
  flag is raised, although the pass has seen no more than 2048 distinct buffers.
\<close>

theorem inode_set_full:
  assumes "inodes_ok s" "card (inode_elems s) = kMaxDedupedBuffers" "ino \<in> inode_elems s"
  shows "fst (InsertInode s ino) \<and> ds_overflowed (snd (InsertInode s ino))
    \<and> inode_elems (snd (InsertInode s ino)) = inode_elems s"
  using assms by (simp add: InsertInode_overflow inodes_ok_card)

theorem inode_set_full_witness:
  "fst (InsertInode (fold (\<lambda>x s. snd (InsertInode s x)) demo_inodes (ResetDmaInodeSet DmaInodeSet_init)) 7)"
proof -
  let ?s = "fold (\<lambda>x s. snd (InsertInode s x)) demo_inodes (ResetDmaInodeSet DmaInodeSet_init)"
  have s: "inode_elems ?s = set demo_inodes" "inodes_ok ?s"
    using ids.ins_all [OF DmaInodeSet_start(1) demo_inodes(1)] DmaInodeSet_start(2) demo_inodes(2)
    by simp_all
  have "card (inode_elems ?s) = kMaxDedupedBuffers"
    using distinct_card [OF demo_inodes(1)] demo_inodes(2) s(1) by simp
  then show ?thesis
    using inode_set_full [OF s(2), of 7] s(1) demo_inodes(3) by blast
qed

end
