(* ===== verification/ProcReaders.thy ===== *)
theory ProcReaders
  imports ObservedTypes ProcText InodeSet
begin

text \<open>
  The parsers of \<^verbatim>\<open>backtrace/src/ObservedMemory.cpp\<close>: device-node paths, \<^verbatim>\<open>maps\<close>
  and \<^verbatim>\<open>smaps\<close> lines, \<^verbatim>\<open>status\<close> fields, the ION accounting file and the KGSL node,
  and the passes that sum them. A file is \<^verbatim>\<open>None\<close> when it cannot be opened and
  otherwise its text with the number of bytes the kernel grants per \<^verbatim>\<open>read\<close>.
\<close>

type_synonym proc_file = "(string \<times> nat list) option"

section \<open>Device nodes and region headers\<close>

definition kGpuNodePaths :: "string list" where
  "kGpuNodePaths = [''/dev/kgsl-3d0'', ''/dev/kgsl'', ''/kgsl-3d0'', ''/kgsl'']"

definition IsGpuNodePath :: "string \<Rightarrow> bool" where
  "IsGpuNodePath path = list_ex (\<lambda>node.
     case strip_prefix node path of
       None \<Rightarrow> False
     | Some rest \<Rightarrow> rest = [] \<or> rest = '' (deleted)'') kGpuNodePaths"

definition is_blank :: "char \<Rightarrow> bool" where
  "is_blank c \<longleftrightarrow> c = CHR '' '' \<or> c = CHR 0x09"

primrec skip_fields :: "nat \<Rightarrow> string \<Rightarrow> string option" where
  "skip_fields 0 line = Some line"
| "skip_fields (Suc n) line =
     (let line = dropWhile is_blank (dropWhile (\<lambda>c. \<not> is_blank c) line)
      in if line = [] then None else skip_fields n line)"

definition MapsLinePath :: "string \<Rightarrow> string option" where
  "MapsLinePath line = skip_fields 5 line"

section \<open>Dmabuf passes\<close>

definition LinkNamesDmaBuf :: "string \<Rightarrow> bool" where
  "LinkNamesDmaBuf target \<longleftrightarrow> has_prefix ''/dmabuf'' target \<or> has_prefix ''anon_inode:dmabuf'' target"

text \<open>
  One directory entry of \<^verbatim>\<open>/proc/self/fd\<close>: its name, what \<^verbatim>\<open>readlinkat\<close> and \<^verbatim>\<open>fstat\<close>
  answer for it (inode, size, blocks), each of which may fail.
\<close>

record fd_entry =
  fe_name :: string
  fe_target :: "string option"
  fe_stat :: "(u64 \<times> int \<times> int) option"

definition fd_stat_bytes :: "int \<Rightarrow> int \<Rightarrow> u64" where
  "fd_stat_bytes st_size st_blocks =
     (if st_size > 0 then of_int st_size else of_int st_blocks * 512)"

type_synonym dma_acc = "u64 \<times> DmaInodeSet \<times> bool"

definition dma_count :: "u64 \<Rightarrow> u64 \<Rightarrow> dma_acc \<Rightarrow> dma_acc" where
  "dma_count ino bytes = (\<lambda>(total, inodes, saw_any).
     let (new, inodes') = InsertInode inodes ino
     in (if new then total + bytes else total, inodes', True))"

definition fd_dma :: "int \<Rightarrow> fd_entry \<Rightarrow> (u64 \<times> u64) option" where
  "fd_dma dir_fd e =
     (let (fd, rest, range) = strtol10 (fe_name e)
      in if rest = fe_name e \<or> rest \<noteq> [] \<or> fd < 0 \<or> fd = dir_fd then None
         else case fe_target e of
           None \<Rightarrow> None
         | Some target \<Rightarrow>
             if target = [] \<or> \<not> LinkNamesDmaBuf (c_str (take 63 target)) then None
             else case fe_stat e of
               None \<Rightarrow> None
             | Some (st_ino, st_size, st_blocks) \<Rightarrow> Some (st_ino, fd_stat_bytes st_size st_blocks))"

definition ReadDmaBytesFromFds ::
    "(int \<times> fd_entry list) option \<Rightarrow> DmaInodeSet \<Rightarrow> bool \<Rightarrow> dma_acc" where
  "ReadDmaBytesFromFds dir inodes saw_any =
     (case dir of
        None \<Rightarrow> (0, inodes, saw_any)
      | Some (dir_fd, entries) \<Rightarrow>
          fold (\<lambda>e acc. case fd_dma dir_fd e of None \<Rightarrow> acc | Some (ino, bytes) \<Rightarrow> dma_count ino bytes acc)
            entries (0, inodes, saw_any))"

definition scan_maps :: "string \<Rightarrow> (u64 \<times> u64 \<times> u64) option" where
  "scan_maps line = do {
     ((lo, hi), s) \<leftarrow> scan_range line;
     (perms, s) \<leftarrow> scan_word (length s) s;
     (offset, s) \<leftarrow> scan_word (length s) s;
     (dev, s) \<leftarrow> scan_word (length s) s;
     (inode, s) \<leftarrow> scan_ull s;
     Some (lo, hi, inode) }"

definition maps_line_dma :: "string \<Rightarrow> (u64 \<times> u64) option" where
  "maps_line_dma line =
     (if \<not> contains_sub ''/dmabuf'' line then None
      else case scan_maps line of
        None \<Rightarrow> None
      | Some (lo, hi, inode) \<Rightarrow> if hi \<le> lo then None else Some (inode, hi - lo))"

text \<open>What the line adds, with the set and the flag it leaves.\<close>

definition DmaBytesFromMapsLine :: "string \<Rightarrow> DmaInodeSet \<Rightarrow> bool \<Rightarrow> dma_acc" where
  "DmaBytesFromMapsLine line inodes saw_any =
     (case maps_line_dma line of
        None \<Rightarrow> (0, inodes, saw_any)
      | Some (inode, bytes) \<Rightarrow> dma_count inode bytes (0, inodes, saw_any))"

definition maps_dma_step :: "dma_acc \<Rightarrow> string \<Rightarrow> dma_acc" where
  "maps_dma_step = (\<lambda>(total, inodes, saw_any) line.
     let (bytes, inodes', saw') = DmaBytesFromMapsLine line inodes saw_any
     in (total + bytes, inodes', saw'))"

definition ReadDmaBytesFromMaps :: "proc_file \<Rightarrow> DmaInodeSet \<Rightarrow> bool \<Rightarrow> dma_acc" where
  "ReadDmaBytesFromMaps file inodes saw_any =
     (case file of
        None \<Rightarrow> (0, inodes, saw_any)
      | Some (text, grants) \<Rightarrow>
          stream_lines 16384 maps_dma_step id grants [] text (0, inodes, saw_any))"

definition ReadIonProcInfoBytesFrom :: "proc_file \<Rightarrow> int \<Rightarrow> u64 option" where
  "ReadIonProcInfoBytesFrom file pid =
     map_option (\<lambda>(text, grants).
       stream_lines 8192
         (\<lambda>total line.
            case do {
              (name, s) \<leftarrow> scan_word 255 line;
              (entry_pid, s) \<leftarrow> scan_int s;
              (entry_fd, s) \<leftarrow> scan_int s;
              (bytes, s) \<leftarrow> scan_ull s;
              Some (entry_pid, bytes) }
            of None \<Rightarrow> total
             | Some (entry_pid, bytes) \<Rightarrow> if entry_pid = pid then total + bytes else total)
         id grants [] text 0) file"

section \<open>Resident set fields\<close>

fun strstr_after :: "string \<Rightarrow> string \<Rightarrow> string option" where
  "strstr_after key [] = strip_prefix key []"
| "strstr_after key (c # s) =
     (case strip_prefix key (c # s) of Some r \<Rightarrow> Some r | None \<Rightarrow> strstr_after key s)"

definition ReadStatusField :: "string \<Rightarrow> string \<Rightarrow> u64" where
  "ReadStatusField text key =
     (case strstr_after key text of
        None \<Rightarrow> 0
      | Some found \<Rightarrow> of_nat (fst (read_digits 10 0 (dropWhile is_blank found))))"

primrec slurp :: "nat \<Rightarrow> nat list \<Rightarrow> string \<Rightarrow> string" where
  "slurp room [] text = []"
| "slurp room (g # grants) text =
     (let got = take (min g room) text
      in if got = [] then [] else got @ slurp (room - length got) grants (drop (length got) text))"

definition ReadSelfRss :: "proc_file \<Rightarrow> RssBreakdown" where
  "ReadSelfRss file =
     (case file of
        None \<Rightarrow> RssBreakdown_init
      | Some (text, grants) \<Rightarrow>
          let buffer = c_str (slurp 8191 grants text);
              vm_rss = ReadStatusField buffer ''VmRSS:''
          in \<lparr> rss_vm_rss_kb = vm_rss,
               rss_anon_kb = ReadStatusField buffer ''RssAnon:'',
               rss_file_kb = ReadStatusField buffer ''RssFile:'',
               rss_shmem_kb = ReadStatusField buffer ''RssShmem:'',
               rss_valid = (vm_rss \<noteq> 0) \<rparr>)"

definition DmaSourceName :: "DmaSource \<Rightarrow> string" where
  "DmaSourceName source = (case source of
       DmaNone \<Rightarrow> ''none'' | DmaFdAndMaps \<Rightarrow> ''fd+maps''
     | DmaIonProcInfo \<Rightarrow> ''ion_process_info'' | DmaUnprobed \<Rightarrow> ''unprobed'')"

definition GpuMmapSourceName :: "GpuMmapSource \<Rightarrow> string" where
  "GpuMmapSourceName source = (case source of
       GpuNotApplicable \<Rightarrow> ''not_applicable'' | GpuMaps \<Rightarrow> ''maps''
     | GpuKgsl \<Rightarrow> ''kgsl'' | GpuUnprobed \<Rightarrow> ''unprobed'')"

section \<open>GPU regions\<close>

record GpuRegionScan =
  in_gpu_region :: bool
  region_size :: u64

definition GpuRegionScan_init :: GpuRegionScan where
  "GpuRegionScan_init = \<lparr> in_gpu_region = False, region_size = 0 \<rparr>"

definition is_gpu_line :: "string \<Rightarrow> bool" where
  "is_gpu_line line = (case MapsLinePath line of None \<Rightarrow> False | Some path \<Rightarrow> IsGpuNodePath path)"

definition GpuMmapBytesFromSmapsLine :: "string \<Rightarrow> GpuRegionScan \<Rightarrow> u64 \<times> GpuRegionScan" where
  "GpuMmapBytesFromSmapsLine line scan =
     (case scan_range line of
        Some ((start, fin), s) \<Rightarrow>
          (0, \<lparr> in_gpu_region = is_gpu_line line,
                region_size = (if fin > start then fin - start else 0) \<rparr>)
      | None \<Rightarrow>
          if \<not> in_gpu_region scan \<or> \<not> has_prefix ''Rss:'' line then (0, scan)
          else
            let scan = scan\<lparr> in_gpu_region := False \<rparr>
            in case scan_long (drop 4 line) of
                 None \<Rightarrow> (0, scan)
               | Some (rss_kb, s) \<Rightarrow>
                   let resident = of_int (if rss_kb < 0 then 0 else rss_kb) * 1024
                   in (if region_size scan > resident then region_size scan - resident else 0, scan))"

definition gpu_scan :: "u64 \<times> GpuRegionScan \<Rightarrow> string \<Rightarrow> u64 \<times> GpuRegionScan" where
  "gpu_scan = (\<lambda>(total, scan) line.
     let (bytes, scan') = GpuMmapBytesFromSmapsLine line scan in (total + bytes, scan'))"

text \<open>The whole-buffer form: the last line counts even without a newline.\<close>

definition GpuMmapBytesFromSmapsText :: "string \<Rightarrow> u64" where
  "GpuMmapBytesFromSmapsText text =
     (let (ls, tail) = split_lines text
      in fst (fold (\<lambda>l s. gpu_scan s l) (if tail = [] then ls else ls @ [tail]) (0, GpuRegionScan_init)))"

definition ReadGpuMmapBytesFrom :: "proc_file \<Rightarrow> u64 option" where
  "ReadGpuMmapBytesFrom file =
     map_option (\<lambda>(text, grants).
       fst (stream_lines 16384 gpu_scan (\<lambda>(total, scan). (total, GpuRegionScan_init))
              grants [] text (0, GpuRegionScan_init))) file"

definition GpuMappedBytesFromMapsLine :: "string \<Rightarrow> u64" where
  "GpuMappedBytesFromMapsLine line =
     (case scan_range line of
        None \<Rightarrow> 0
      | Some ((start, fin), s) \<Rightarrow>
          if fin \<le> start then 0
          else if \<not> is_gpu_line line then 0
          else fin - start)"

definition ReadGpuMappedBytesFrom :: "proc_file \<Rightarrow> u64 option" where
  "ReadGpuMappedBytesFrom file =
     map_option (\<lambda>(text, grants).
       stream_lines 16384 (\<lambda>total line. total + GpuMappedBytesFromMapsLine line) id grants [] text 0) file"

record GpuSmapsReading =
  gr_all_rss_bytes :: u64
  gr_device_rss_bytes :: u64
  gr_device_mapped_bytes :: u64
  gr_valid :: bool

definition GpuSmapsReading_init :: GpuSmapsReading where
  "GpuSmapsReading_init = \<lparr> gr_all_rss_bytes = 0, gr_device_rss_bytes = 0,
     gr_device_mapped_bytes = 0, gr_valid = False \<rparr>"

definition smaps_line :: "GpuSmapsReading \<times> bool \<Rightarrow> string \<Rightarrow> GpuSmapsReading \<times> bool" where
  "smaps_line = (\<lambda>(r, in_device) line.
     case scan_range line of
       Some ((lo, hi), s) \<Rightarrow>
         let in_device = is_gpu_line line
         in (if in_device \<and> hi > lo
             then r\<lparr> gr_device_mapped_bytes := gr_device_mapped_bytes r + (hi - lo) \<rparr> else r, in_device)
     | None \<Rightarrow>
         if \<not> has_prefix ''Rss:'' line then (r, in_device)
         else case scan_long (drop 4 line) of
           None \<Rightarrow> (r, in_device)
         | Some (rss_kb, s) \<Rightarrow>
             if rss_kb < 0 then (r, in_device)
             else
               let rss = of_int rss_kb * 1024;
                   r = r\<lparr> gr_all_rss_bytes := gr_all_rss_bytes r + rss \<rparr>
               in (if in_device
                   then r\<lparr> gr_device_rss_bytes := gr_device_rss_bytes r + rss \<rparr> else r, in_device))"

definition ReadGpuSmapsReading :: "proc_file \<Rightarrow> GpuSmapsReading option" where
  "ReadGpuSmapsReading file =
     map_option (\<lambda>(text, grants).
       (fst (stream_lines 16384 smaps_line (\<lambda>(r, in_device). (r, False))
               grants [] text (GpuSmapsReading_init, False)))\<lparr> gr_valid := True \<rparr>) file"

definition GpuBytesFromReading :: "GpuSmapsReading \<Rightarrow> u64 \<Rightarrow> u64" where
  "GpuBytesFromReading reading vmrss_bytes =
     (if \<not> gr_valid reading then 0
      else
        let divergence = (if gr_all_rss_bytes reading > vmrss_bytes
                          then gr_all_rss_bytes reading - vmrss_bytes else 0)
        in if divergence < gr_device_rss_bytes reading then divergence else gr_device_rss_bytes reading)"

section \<open>The KGSL node\<close>

definition parse_kgsl :: "string \<Rightarrow> u64 option" where
  "parse_kgsl buffer =
     (let p = dropWhile (\<lambda>c. is_blank c \<or> c = CHR 0x0A) (c_str buffer);
          (n, rest) = read_digits 10 0 p
      in if rest = p then None else Some (of_nat n))"

definition read_node :: "string \<times> nat list \<Rightarrow> string" where
  "read_node = (\<lambda>(text, grants). case grants of [] \<Rightarrow> [] | g # gs \<Rightarrow> take (min g 31) text)"

definition ReadKgslKernelBytesFrom :: "proc_file \<Rightarrow> u64 option" where
  "ReadKgslKernelBytesFrom file =
     (case file of
        None \<Rightarrow> None
      | Some f \<Rightarrow> let buffer = read_node f in if buffer = [] then None else parse_kgsl buffer)"

datatype KgslState = KgslUnknown | KgslActive | KgslUnavailable
datatype open_error = EACCES | EPERM | ENOENT | other_error

text \<open>
  The latched read: what \<^verbatim>\<open>open\<close> answers, whether the driver directory exists, and
  the state before and after.
\<close>

definition ReadSelfKgslKernel ::
    "(open_error, string \<times> nat list) sum \<Rightarrow> bool \<Rightarrow> KgslState \<Rightarrow> u64 option \<times> KgslState" where
  "ReadSelfKgslKernel node driver_dir known =
     (if known = KgslUnavailable then (None, known)
      else case node of
        Inl e \<Rightarrow>
          (None,
           if known = KgslUnknown then
             (if e = EACCES \<or> e = EPERM then KgslUnavailable
              else if e \<noteq> ENOENT \<or> \<not> driver_dir then KgslUnavailable
              else known)
           else known)
      | Inr f \<Rightarrow>
          let buffer = read_node f
          in case (if buffer = [] then None else parse_kgsl buffer) of
               None \<Rightarrow> (None, known)
             | Some v \<Rightarrow> (Some v, if known = KgslUnknown then KgslActive else known))"

section \<open>The dmabuf passes count every buffer once\<close>

definition fd_found :: "(int \<times> fd_entry list) option \<Rightarrow> (u64 \<times> u64) list" where
  "fd_found dir = (case dir of None \<Rightarrow> [] | Some (dir_fd, es) \<Rightarrow> List.map_filter (fd_dma dir_fd) es)"

definition maps_found :: "proc_file \<Rightarrow> (u64 \<times> u64) list" where
  "maps_found file = (case file of
       None \<Rightarrow> []
     | Some (text, grants) \<Rightarrow> List.map_filter (\<lambda>l. maps_line_dma (c_str l)) (fst (split_lines text)))"

text \<open>A file whose text the kernel delivers completely and whose lines fit the buffer.\<close>

definition file_ok :: "nat \<Rightarrow> proc_file \<Rightarrow> bool" where
  "file_ok cap file = (case file of
       None \<Rightarrow> True
     | Some (text, grants) \<Rightarrow>
         list_all (\<lambda>g. 0 < g) grants \<and> length text \<le> length grants \<and> short_lines (cap - 1) text)"

lemma stream_lines_file:
  "file_ok cap (Some (text, grants)) \<Longrightarrow>
   stream_lines cap parse skip grants [] text st = fold (\<lambda>l s. parse s (c_str l)) (fst (split_lines text)) st"
  by (simp add: file_ok_def stream_lines_eq)

lemma dma_count_fold:
  "fold (\<lambda>(ino, b). dma_count ino b) xs (t, s, saw) =
     (fst (ids.sum_new xs s t), snd (ids.sum_new xs s t), saw \<or> xs \<noteq> [])"
  by (induction xs arbitrary: t s saw) (auto simp: dma_count_def split: prod.splits)

lemma fold_dma_count:
  "fold (\<lambda>x acc. case f x of None \<Rightarrow> acc | Some (ino, b) \<Rightarrow> dma_count ino b acc) xs acc =
     fold (\<lambda>(ino, b). dma_count ino b) (List.map_filter f xs) acc"
  by (induction xs arbitrary: acc) (simp_all add: map_filter_simps split: option.splits)

lemma ReadDmaBytesFromFds_sum:
  "ReadDmaBytesFromFds dir s saw =
     (fst (ids.sum_new (fd_found dir) s 0), snd (ids.sum_new (fd_found dir) s 0), saw \<or> fd_found dir \<noteq> [])"
  by (auto simp: ReadDmaBytesFromFds_def fd_found_def fold_dma_count dma_count_fold split: option.splits)

lemma maps_dma_step_eq:
  "maps_dma_step acc line =
     (case maps_line_dma line of None \<Rightarrow> acc | Some (ino, b) \<Rightarrow> dma_count ino b acc)"
  by (cases acc) (auto simp: maps_dma_step_def DmaBytesFromMapsLine_def dma_count_def
      split: option.splits prod.splits)

lemma ReadDmaBytesFromMaps_sum:
  assumes "file_ok 16384 file"
  shows "ReadDmaBytesFromMaps file s saw =
     (fst (ids.sum_new (maps_found file) s 0), snd (ids.sum_new (maps_found file) s 0),
      saw \<or> maps_found file \<noteq> [])"
proof (cases "file")
  case (Some f)
  obtain t gs where f: "f = (t, gs)" by fastforce
  show ?thesis
    using assms
    by (simp add: Some f ReadDmaBytesFromMaps_def stream_lines_file maps_dma_step_eq maps_found_def
        fold_dma_count dma_count_fold)
qed (simp add: ReadDmaBytesFromMaps_def maps_found_def)

text \<open>
  C13: a dmabuf is counted once. After a reset, the descriptor pass followed by
  the mapping pass adds up one size per distinct inode, that of its first
  sighting, descriptors before mappings, however many descriptors and mappings
  reach the buffer and however the kernel cuts the text of \<^verbatim>\<open>maps\<close>; the pass
  reports that accounting exists exactly when it saw a buffer.
\<close>

theorem dma_counted_once:
  assumes "table_sized s" "file_ok 16384 maps"
    and "card (fst ` set (fd_found dir @ maps_found maps)) < kMaxDedupedBuffers"
    and "ReadDmaBytesFromFds dir (ResetDmaInodeSet s) False = (fd_bytes, s1, saw1)"
    and "ReadDmaBytesFromMaps maps s1 saw1 = (map_bytes, s2, saw2)"
  shows "fd_bytes + map_bytes = sum_list (map snd (firsts {} (fd_found dir @ maps_found maps)))
    \<and> distinct (map fst (firsts {} (fd_found dir @ maps_found maps)))
    \<and> inode_elems s2 = fst ` set (fd_found dir @ maps_found maps)
    \<and> (saw2 \<longleftrightarrow> fd_found dir @ maps_found maps \<noteq> [])"
proof -
  let ?s = "ResetDmaInodeSet s"
  let ?fd = "fst ` set (fd_found dir)" and ?mp = "fst ` set (maps_found maps)"
  have s: "inodes_ok ?s" "inode_elems ?s = {}" using assms(1) by simp_all
  have "card ?fd \<le> card (?fd \<union> ?mp)" by (intro card_mono) auto
  also have room: "card (?fd \<union> ?mp) < kMaxDedupedBuffers" using assms(3) by (simp add: image_Un)
  finally have "card (inode_elems ?s \<union> ?fd) < kMaxDedupedBuffers" by (simp add: s(2))
  note fd = ids.sum_new_firsts [OF s(1) this, of 0]
  have s1: "s1 = snd (ids.sum_new (fd_found dir) ?s 0)" "fd_bytes = fst (ids.sum_new (fd_found dir) ?s 0)"
    "saw1 \<longleftrightarrow> fd_found dir \<noteq> []"
    using assms(4) by (simp_all add: ReadDmaBytesFromFds_sum)
  have e1: "inode_elems s1 = ?fd" "inodes_ok s1" using fd s(2) by (simp_all add: s1)
  have "card (inode_elems s1 \<union> ?mp) < kMaxDedupedBuffers" using room by (simp add: e1)
  note mp = ids.sum_new_firsts [OF e1(2) this, of 0]
  have "fd_bytes + map_bytes = sum_list (map snd (firsts {} (fd_found dir @ maps_found maps)))"
    using fd mp assms(5)
    by (simp add: ReadDmaBytesFromMaps_sum [OF assms(2)] s1(2) s(2) e1(1) firsts_append)
  moreover have "inode_elems s2 = fst ` set (fd_found dir @ maps_found maps)
    \<and> (saw2 \<longleftrightarrow> fd_found dir @ maps_found maps \<noteq> [])"
    using mp assms(5) by (auto simp: ReadDmaBytesFromMaps_sum [OF assms(2)] s1(3) e1(1))
  ultimately show ?thesis using firsts_distinct by blast
qed

definition demo_dir :: "(int \<times> fd_entry list) option" where
  "demo_dir = Some (9,
     [\<lparr> fe_name = ''.'', fe_target = None, fe_stat = None \<rparr>,
      \<lparr> fe_name = ''3'', fe_target = Some ''/dmabuf:buffer'', fe_stat = Some (7, 4096, 8) \<rparr>,
      \<lparr> fe_name = ''4'', fe_target = Some ''/dmabuf:buffer'', fe_stat = Some (7, 4096, 8) \<rparr>,
      \<lparr> fe_name = ''5'', fe_target = Some ''/tmp/log'', fe_stat = Some (8, 100, 1) \<rparr>])"

definition demo_maps :: proc_file where
  "demo_maps = Some (''7000-8000 rw-s 0 0:1 7 /dmabuf:x'' @ [CHR 0x0A] @
     ''9000-b000 rw-s 0 0:1 11 /dmabuf:y'' @ [CHR 0x0A], replicate 100 20)"

lemmas eval_parse = map_filter_simps fd_dma_def fd_stat_bytes_def LinkNamesDmaBuf_def has_prefix_def
  maps_line_dma_def scan_maps_def scan_range_def scan_hex_def scan_word_def scan_ull_def strtoull_def
  strtol10_def read_sign_def is_space_def digit_val_def strip_0x_def scan_char_def c_str_def Let_def

theorem dma_counted_once_witness:
  "fst (ReadDmaBytesFromFds demo_dir (ResetDmaInodeSet DmaInodeSet_init) False)
   + fst (ReadDmaBytesFromMaps demo_maps
       (fst (snd (ReadDmaBytesFromFds demo_dir (ResetDmaInodeSet DmaInodeSet_init) False)))
       (snd (snd (ReadDmaBytesFromFds demo_dir (ResetDmaInodeSet DmaInodeSet_init) False)))) = 12288"
proof -
  have found: "fd_found demo_dir = [(7, 4096), (7, 4096)]" "maps_found demo_maps = [(7, 4096), (11, 8192)]"
    by (simp_all add: fd_found_def demo_dir_def maps_found_def demo_maps_def eval_parse)
  have ok: "file_ok 16384 demo_maps"
    by (simp add: file_ok_def demo_maps_def short_lines_def list_all_iff)
  have room: "card (fst ` set (fd_found demo_dir @ maps_found demo_maps)) < kMaxDedupedBuffers"
    by (simp add: found kMaxDedupedBuffers_def kSlots_def)
  obtain b1 s1 w1 where fd: "ReadDmaBytesFromFds demo_dir (ResetDmaInodeSet DmaInodeSet_init) False = (b1, s1, w1)"
    by (metis prod_cases3)
  obtain b2 s2 w2 where mp: "ReadDmaBytesFromMaps demo_maps s1 w1 = (b2, s2, w2)"
    by (metis prod_cases3)
  show ?thesis
    using dma_counted_once [OF init_sized ok room fd mp] by (simp add: fd mp found)
qed

section \<open>Reading a mapping line back\<close>

text \<open>A line of \<^verbatim>\<open>maps\<close>, or a region header of \<^verbatim>\<open>smaps\<close>, as the kernel prints it.\<close>

definition maps_line :: "string \<Rightarrow> string \<Rightarrow> string \<Rightarrow> string \<Rightarrow> string \<Rightarrow> string \<Rightarrow> string \<Rightarrow> string \<Rightarrow> string" where
  "maps_line lo hi perms offset dev inode pad path =
     lo @ ''-'' @ hi @ '' '' @ perms @ '' '' @ offset @ '' '' @ dev @ '' '' @ inode @ pad @ path"

definition field :: "string \<Rightarrow> bool" where
  "field s \<longleftrightarrow> s \<noteq> [] \<and> list_all (\<lambda>c. \<not> is_space c) s"

definition blanks :: "string \<Rightarrow> bool" where
  "blanks s \<longleftrightarrow> s \<noteq> [] \<and> list_all is_blank s"

definition starts_plain :: "string \<Rightarrow> bool" where
  "starts_plain s \<longleftrightarrow> s \<noteq> [] \<and> \<not> is_space (hd s)"

lemma is_blank_space: "is_blank c \<Longrightarrow> is_space c"
  by (auto simp: is_blank_def is_space_def)

lemma field_plain: "field s \<Longrightarrow> dropWhile (\<lambda>c. \<not> is_blank c) (s @ t) = dropWhile (\<lambda>c. \<not> is_blank c) t"
  by (subst dropWhile_append2) (auto simp: field_def list_all_iff dest: is_blank_space)

lemma blanks_drop:
  assumes "blanks b" "starts_plain t"
  shows "dropWhile is_blank (dropWhile (\<lambda>c. \<not> is_blank c) (b @ t)) = t"
proof -
  have "dropWhile (\<lambda>c. \<not> is_blank c) (b @ t) = b @ t"
    using assms(1) by (cases b) (auto simp: blanks_def)
  moreover have "dropWhile is_blank (b @ t) = dropWhile is_blank t"
    using assms(1) by (subst dropWhile_append2) (auto simp: blanks_def list_all_iff)
  moreover have "dropWhile is_blank t = t"
    using assms(2) is_blank_space by (cases t) (auto simp: starts_plain_def)
  ultimately show ?thesis by simp
qed

lemma skip_field:
  assumes "field s" "blanks b" "starts_plain t"
  shows "skip_fields (Suc n) (s @ b @ t) = skip_fields n t"
  using assms by (auto simp: field_plain blanks_drop starts_plain_def)

lemma field_starts: "field s \<Longrightarrow> starts_plain (s @ t)"
  by (cases s) (auto simp: field_def starts_plain_def)

lemma digits_field: "digits_text 10 s \<Longrightarrow> field s" "digits_text 16 s \<Longrightarrow> field s"
  using digit16_plain(1) digit10_digit16 by (auto simp: digits_text_def field_def list_all_iff)

lemma MapsLinePath_line:
  assumes "digits_text 16 lo" "digits_text 16 hi" "field perms" "field offset" "field dev"
    "digits_text 10 inode" "blanks pad" "starts_plain path"
  shows "MapsLinePath (maps_line lo hi perms offset dev inode pad path) = Some path"
proof -
  have b: "blanks '' ''" by (simp add: blanks_def is_blank_def)
  have range: "field (lo @ ''-'' @ hi)"
    using digits_field(2) [OF assms(1)] digits_field(2) [OF assms(2)] by (auto simp: field_def is_space_def)
  note f = assms(3-5) digits_field(1) [OF assms(6)]
  have "maps_line lo hi perms offset dev inode pad path =
      (lo @ ''-'' @ hi) @ '' '' @ perms @ '' '' @ offset @ '' '' @ dev @ '' '' @ inode @ pad @ path"
    by (simp add: maps_line_def)
  moreover have "skip_fields (Suc (Suc (Suc (Suc (Suc 0))))) \<dots> = Some path"
    by (simp only: skip_field [OF range b field_starts [OF f(1)]] skip_field [OF f(1) b field_starts [OF f(2)]]
        skip_field [OF f(2) b field_starts [OF f(3)]] skip_field [OF f(3) b field_starts [OF f(4)]]
        skip_field [OF f(4) assms(7,8)] skip_fields.simps(1))
  ultimately show ?thesis by (simp add: MapsLinePath_def numeral_eq_Suc)
qed

lemma scan_range_line:
  assumes "digits_text 16 lo" "digits_text 16 hi" "digits_value 16 lo < 2 ^ 64" "digits_value 16 hi < 2 ^ 64"
  shows "scan_range (lo @ ''-'' @ hi @ '' '' @ t) =
    Some ((of_nat (digits_value 16 lo), of_nat (digits_value 16 hi)), '' '' @ t)"
proof -
  have s: "stops_digits 16 (''-'' @ u)" "stops_digits 16 ('' '' @ u)" for u
    by (simp_all add: stops_digits_def digit_val_def)
  show ?thesis
    using scan_hex_text [OF assms(1,3) s(1), of "hi @ '' '' @ t"] scan_hex_text [OF assms(2,4) s(2), of t]
    by (simp add: scan_range_def scan_char_def)
qed

lemma scan_word_field:
  assumes "field w" "length w \<le> n"
  shows "scan_word n ('' '' @ w @ '' '' @ t) = Some (w, '' '' @ t)"
proof -
  have "skip_space ('' '' @ w @ '' '' @ t) = w @ '' '' @ t"
    using assms(1) by (cases w) (auto simp: field_def is_space_def)
  moreover have "takeWhile (\<lambda>c. \<not> is_space c) (w @ '' '' @ t) = w"
    using assms(1) by (subst takeWhile_append2) (auto simp: field_def list_all_iff is_space_def)
  moreover have "0 < n" using assms by (cases w) (auto simp: field_def)
  ultimately show ?thesis using assms by (simp add: scan_word_def field_def)
qed

lemma blank_stops: "blanks pad \<Longrightarrow> stops_digits 10 (pad @ t)"
  by (cases pad) (auto simp: blanks_def is_blank_def stops_digits_def digit_val_def)

lemma scan_maps_line:
  assumes "digits_text 16 lo" "digits_text 16 hi" "digits_value 16 lo < 2 ^ 64" "digits_value 16 hi < 2 ^ 64"
    "field perms" "field offset" "field dev" "digits_text 10 inode" "digits_value 10 inode < 2 ^ 64" "blanks pad"
  shows "scan_maps (maps_line lo hi perms offset dev inode pad path) =
    Some (of_nat (digits_value 16 lo), of_nat (digits_value 16 hi), of_nat (digits_value 10 inode))"
proof -
  have ull: "scan_ull ('' '' @ inode @ pad @ path) = Some (of_nat (digits_value 10 inode), pad @ path)"
  proof -
    have ne: "inode \<noteq> []" using assms(8) by (simp add: digits_text_def)
    have "pad @ path \<noteq> '' '' @ inode @ pad @ path"
      using arg_cong [of "pad @ path" "'' '' @ inode @ pad @ path" length] by auto
    then show ?thesis
      using assms(9) ne skip_sign_digits [OF assms(8)] read_digits_text [OF assms(8) blank_stops [OF assms(10)]]
      by (simp add: scan_ull_def strtoull_def is_space_def not_le)
  qed
  show ?thesis
    unfolding scan_maps_def maps_line_def
    by (simp only: scan_range_line [OF assms(1-4)] bind.bind_lunit prod.case scan_word_field [OF assms(5)]
        scan_word_field [OF assms(6)] scan_word_field [OF assms(7)] length_append le_add1 le_add2
        trans_le_add1 trans_le_add2 ull)
qed

text \<open>
  C19: mapping lines read back. For a line printed from two hexadecimal
  addresses, three blank-free fields, a decimal inode and a path, the GPU parser
  answers the size of the region exactly when the whole path is one of the
  device nodes, and the dmabuf parser answers the inode and the size when the
  path names a dmabuf; no other field can be mistaken for the path.
\<close>

theorem maps_line_roundtrip:
  assumes "digits_text 16 lo" "digits_text 16 hi" "digits_value 16 lo < digits_value 16 hi"
    "digits_value 16 hi < 2 ^ 64" "field perms" "field offset" "field dev"
    "digits_text 10 inode" "digits_value 10 inode < 2 ^ 64" "blanks pad" "starts_plain path"
  shows "unat (GpuMappedBytesFromMapsLine (maps_line lo hi perms offset dev inode pad path)) =
      (if IsGpuNodePath path then digits_value 16 hi - digits_value 16 lo else 0)
    \<and> (contains_sub ''/dmabuf'' path \<longrightarrow>
        maps_line_dma (maps_line lo hi perms offset dev inode pad path) =
          Some (of_nat (digits_value 10 inode), of_nat (digits_value 16 hi - digits_value 16 lo)))"
proof -
  let ?l = "digits_value 16 lo" and ?h = "digits_value 16 hi"
  let ?line = "maps_line lo hi perms offset dev inode pad path"
  have l: "?l < 2 ^ 64" using assms(3,4) by simp
  have u: "unat (of_nat ?l :: u64) = ?l" "unat (of_nat ?h :: u64) = ?h"
    using l assms(4) by (simp_all add: unat_of_nat)
  have lt: "(of_nat ?l :: u64) < of_nat ?h" using assms(3) by (simp add: word_less_nat_alt u)
  have diff: "(of_nat ?h :: u64) - of_nat ?l = of_nat (?h - ?l)" using assms(3) by (simp add: of_nat_diff)
  have range: "scan_range ?line = Some ((of_nat ?l, of_nat ?h),
      '' '' @ perms @ '' '' @ offset @ '' '' @ dev @ '' '' @ inode @ pad @ path)"
    unfolding maps_line_def by (rule scan_range_line [OF assms(1,2) l assms(4)])
  have gpu: "is_gpu_line ?line = IsGpuNodePath path"
    using MapsLinePath_line [OF assms(1,2,5-8,10,11)] by (simp add: is_gpu_line_def)
  have sub: "contains_sub ''/dmabuf'' ?line" if "contains_sub ''/dmabuf'' path"
  proof -
    from that obtain a b where "path = a @ ''/dmabuf'' @ b" by (auto simp: contains_sub_iff)
    moreover have "?line = (lo @ ''-'' @ hi @ '' '' @ perms @ '' '' @ offset @ '' '' @ dev @ '' '' @ inode @ pad) @ path"
      by (simp add: maps_line_def)
    ultimately show ?thesis unfolding contains_sub_iff by (metis append_assoc)
  qed
  have "unat (of_nat (?h - ?l) :: u64) = ?h - ?l" using assms(4) by (simp add: unat_of_nat)
  then show ?thesis
    using lt sub scan_maps_line [OF assms(1,2) l assms(4-10)]
    by (auto simp: GpuMappedBytesFromMapsLine_def maps_line_dma_def range gpu diff not_le)
qed

theorem maps_line_roundtrip_witness:
  "unat (GpuMappedBytesFromMapsLine
     (maps_line ''77ba680000'' ''77bb286000'' ''rw-s'' ''00000000'' ''00:01'' ''40690'' '' '' ''/kgsl-3d0 (deleted)''))
   = 12607488"
proof -
  have "IsGpuNodePath ''/kgsl-3d0 (deleted)''" by (simp add: IsGpuNodePath_def kGpuNodePaths_def)
  then show ?thesis
    using maps_line_roundtrip [of "''77ba680000''" "''77bb286000''" "''rw-s''" "''00000000''" "''00:01''"
        "''40690''" "'' ''" "''/kgsl-3d0 (deleted)''"]
    by (simp add: digits_text_def digits_value_def digit_val_def field_def is_space_def blanks_def
        is_blank_def starts_plain_def)
qed

section \<open>Streaming against whole-text parsing\<close>

text \<open>
  C18: the streaming \<^verbatim>\<open>smaps\<close> reader agrees with the whole-buffer parser. On a
  text of complete lines that fit the 16 KiB buffer, free of NUL bytes, the
  figure is the one \<^verbatim>\<open>GpuMmapBytesFromSmapsText\<close> computes, wherever the refills
  cut the text, within a region included.
\<close>

theorem streamed_smaps_equals_text:
  assumes "file_ok 16384 (Some (t, grants))" "CHR 0x00 \<notin> set t" "snd (split_lines t) = []"
  shows "ReadGpuMmapBytesFrom (Some (t, grants)) = Some (GpuMmapBytesFromSmapsText t)"
proof -
  have sub: "set l \<subseteq> set t" if "l \<in> set (fst (split_lines t))" for l
    using split_lines_chars [of t] that by blast
  have "c_str l = l" if "l \<in> set (fst (split_lines t))" for l
    using sub [OF that] assms(2) unfolding c_str_def takeWhile_eq_all_conv by blast
  then have "fold (\<lambda>l s. gpu_scan s (c_str l)) (fst (split_lines t)) a = fold (\<lambda>l s. gpu_scan s l) (fst (split_lines t)) a" for a
    by (intro fold_cong) auto
  with assms(3) show ?thesis
    by (simp add: ReadGpuMmapBytesFrom_def GpuMmapBytesFromSmapsText_def stream_lines_file [OF assms(1)] split_beta)
qed

definition demo_smaps :: string where
  "demo_smaps = ''9000-b000 rw-s 0 0:1 11 /dev/kgsl-3d0'' @ [CHR 0x0A] @ ''Rss: 4 kB'' @ [CHR 0x0A]"

theorem streamed_smaps_equals_text_witness:
  "ReadGpuMmapBytesFrom (Some (demo_smaps, replicate 60 7)) = Some (GpuMmapBytesFromSmapsText demo_smaps)"
  by (rule streamed_smaps_equals_text)
    (simp_all add: file_ok_def demo_smaps_def short_lines_def list_all_iff)

text \<open>
  C39: an overlong line is not dropped. When a full buffer holds no newline, the
  reader forgets those bytes but goes on in the middle of the line, so the rest
  of it is parsed as a line of its own and its bytes are counted.
\<close>

theorem overlong_line_fragment:
  assumes "length p = 16383" "CHR 0x0A \<notin> set p" "CHR 0x0A \<notin> set q" "length q \<le> 16382"
  shows "ReadGpuMappedBytesFrom (Some (p @ q @ [CHR 0x0A], [16384, 16384])) =
    Some (GpuMappedBytesFromMapsLine (c_str q))"
proof -
  have "length q + 2 \<le> 16384" "length p = 16384 - 1" using assms(1,4) by simp_all
  note s = stream_lines_overlong [OF this(2) assms(2,3) this(1)]
  show ?thesis by (simp add: ReadGpuMappedBytesFrom_def s del: stream_lines.simps)
qed

definition demo_prefix :: string where
  "demo_prefix = replicate 16383 (CHR ''x'')"

theorem overlong_line_fragment_witness:
  "ReadGpuMappedBytesFrom (Some (demo_prefix @ ''9000-b000 rw-s 0 0:1 11 /dev/kgsl-3d0'' @ [CHR 0x0A],
     [16384, 16384])) = Some 8192"
proof -
  have "length demo_prefix = 16383" unfolding demo_prefix_def by (rule length_replicate)
  moreover have "CHR 0x0A \<notin> set demo_prefix"
    unfolding demo_prefix_def by (simp only: set_replicate_conv_if) simp
  moreover have "MapsLinePath ''9000-b000 rw-s 0 0:1 11 /dev/kgsl-3d0'' = Some ''/dev/kgsl-3d0''"
    by (simp add: MapsLinePath_def numeral_eq_Suc is_blank_def)
  then have "GpuMappedBytesFromMapsLine (c_str ''9000-b000 rw-s 0 0:1 11 /dev/kgsl-3d0'') = 8192"
    by (simp add: GpuMappedBytesFromMapsLine_def is_gpu_line_def IsGpuNodePath_def kGpuNodePaths_def eval_parse)
  ultimately show ?thesis
    using overlong_line_fragment [of demo_prefix "''9000-b000 rw-s 0 0:1 11 /dev/kgsl-3d0''"] by simp
qed

end
