(* ===== verification/ObservedReading.thy ===== *)
theory ObservedReading
  imports ProcReaders
begin

text \<open>
  One reading of the evaluator-visible footprint (\<^verbatim>\<open>ReadObservedMemoryGated\<close> and
  its passes in \<^verbatim>\<open>backtrace/src/ObservedMemory.cpp\<close>) and the schedule of the next one
  (\<^verbatim>\<open>NextSampleSchedule\<close>). What the kernel answers during one reading is a
  \<^verbatim>\<open>proc_view\<close>; the caches and the answers remembered for good are passed along.
\<close>

section \<open>Carried state\<close>

record GpuMmapCache =
  gc_bytes :: u64
  gc_max_bytes :: u64
  gc_mapped_at_read :: u64
  gc_have_read :: bool
  gc_reads :: nat
  gc_read_failures :: nat
  gc_probed_absent :: bool

definition GpuMmapCache_init :: GpuMmapCache where
  "GpuMmapCache_init = \<lparr> gc_bytes = 0, gc_max_bytes = 0, gc_mapped_at_read = 0,
     gc_have_read = False, gc_reads = 0, gc_read_failures = 0, gc_probed_absent = False \<rparr>"

record DmaMapCache =
  mc_bytes :: u64
  mc_max_bytes :: u64
  mc_refreshes :: nat
  mc_samples_since_refresh :: u32
  mc_ever_ran :: bool

definition DmaMapCache_init :: DmaMapCache where
  "DmaMapCache_init = \<lparr> mc_bytes = 0, mc_max_bytes = 0, mc_refreshes = 0,
     mc_samples_since_refresh = 0, mc_ever_ran = False \<rparr>"

text \<open>The files and clock differences of one reading, and the answers remembered for good.\<close>

record proc_view =
  pv_status :: proc_file
  pv_fd_dir :: "(int \<times> fd_entry list) option"
  pv_maps :: proc_file
  pv_gpu_maps :: proc_file
  pv_smaps :: proc_file
  pv_ion :: proc_file
  pv_ion_readable :: bool
  pv_dev_kgsl_3d0 :: bool
  pv_dev_kgsl :: bool
  pv_kgsl_node :: "(open_error, string \<times> nat list) sum"
  pv_kgsl_dir :: bool
  pv_pid :: int
  pv_status_us :: u64
  pv_fd_us :: u64
  pv_map_us :: u64
  pv_gpu_maps_us :: u64
  pv_gpu_us :: u64

record latches =
  lt_gpu_node :: "bool option"
  lt_ion :: "bool option"
  lt_kgsl :: KgslState

definition latches_init :: latches where
  "latches_init = \<lparr> lt_gpu_node = None, lt_ion = None, lt_kgsl = KgslUnknown \<rparr>"

text \<open>A static probe: \<^verbatim>\<open>None\<close> is unknown, otherwise the answer stands.\<close>

definition probe_once :: "bool \<Rightarrow> bool option \<Rightarrow> bool \<times> bool option" where
  "probe_once answer state = (case state of
       Some b \<Rightarrow> (b, state)
     | None \<Rightarrow> (answer, Some answer))"

definition GpuDeviceNodePresent :: "proc_view \<Rightarrow> latches \<Rightarrow> bool \<times> latches" where
  "GpuDeviceNodePresent pv lt =
     (let (b, s) = probe_once (pv_dev_kgsl_3d0 pv \<or> pv_dev_kgsl pv) (lt_gpu_node lt)
      in (b, lt\<lparr> lt_gpu_node := s \<rparr>))"

definition IonProcInfoAvailable :: "proc_view \<Rightarrow> latches \<Rightarrow> bool \<times> latches" where
  "IonProcInfoAvailable pv lt =
     (let (b, s) = probe_once (pv_ion_readable pv) (lt_ion lt) in (b, lt\<lparr> lt_ion := s \<rparr>))"

definition ReadIonProcInfoBytes :: "proc_view \<Rightarrow> latches \<Rightarrow> u64 option \<times> latches" where
  "ReadIonProcInfoBytes pv lt =
     (let (b, lt) = IonProcInfoAvailable pv lt
      in if \<not> b then (None, lt) else (ReadIonProcInfoBytesFrom (pv_ion pv) (pv_pid pv), lt))"

section \<open>The passes of one reading\<close>

definition ReadSelfKgslGpuBytes ::
    "proc_view \<Rightarrow> latches \<Rightarrow> ObservedMemSample \<Rightarrow> u64 \<times> latches \<times> ObservedMemSample" where
  "ReadSelfKgslGpuBytes pv lt into =
     (let (r, st) = ReadSelfKgslKernel (pv_kgsl_node pv) (pv_kgsl_dir pv) (lt_kgsl lt);
          lt = lt\<lparr> lt_kgsl := st \<rparr>
      in case r of
           None \<Rightarrow> (0, lt, into)
         | Some bytes \<Rightarrow> (bytes, lt, into\<lparr> om_gpu_bytes := bytes, om_gpu_source := GpuKgsl \<rparr>))"

definition GpuSampleNeedsRead :: "GpuMmapCache \<Rightarrow> u64 \<Rightarrow> bool" where
  "GpuSampleNeedsRead cache mapped_bytes =
     (if mapped_bytes = 0 \<and> \<not> gc_have_read cache then False
      else if \<not> gc_have_read cache then True
      else mapped_bytes \<noteq> gc_mapped_at_read cache)"

definition gpu_cache_read :: "proc_view \<Rightarrow> u64 \<Rightarrow> u64 \<Rightarrow> GpuMmapCache \<Rightarrow> GpuMmapCache" where
  "gpu_cache_read pv mapped rss_bytes cache =
     (case ReadGpuSmapsReading (pv_smaps pv) of
        None \<Rightarrow> cache\<lparr> gc_read_failures := gc_read_failures cache + 1 \<rparr>
      | Some r \<Rightarrow>
          let bytes = GpuBytesFromReading r rss_bytes
          in cache\<lparr> gc_bytes := bytes, gc_mapped_at_read := mapped, gc_have_read := True,
               gc_reads := gc_reads cache + 1,
               gc_max_bytes := (if bytes > gc_max_bytes cache then bytes else gc_max_bytes cache) \<rparr>)"

definition ReadSelfGpuMmapBytesGated ::
    "proc_view \<Rightarrow> latches \<Rightarrow> ObservedMemSample \<Rightarrow> GpuMmapCache option
       \<Rightarrow> latches \<times> ObservedMemSample \<times> GpuMmapCache option" where
  "ReadSelfGpuMmapBytesGated pv lt into cache =
     (let absent = into\<lparr> om_gpu_source := GpuNotApplicable, om_gpu_bytes := 0 \<rparr>
      in if (case cache of None \<Rightarrow> False | Some c \<Rightarrow> gc_probed_absent c) then (lt, absent, cache)
      else let (present, lt) = GpuDeviceNodePresent pv lt
      in if \<not> present then (lt, absent, map_option (\<lambda>c. c\<lparr> gc_probed_absent := True \<rparr>) cache)
      else let into = into\<lparr> om_gpu_us := ucast (pv_gpu_maps_us pv) \<rparr>
      in case ReadGpuMappedBytesFrom (pv_gpu_maps pv) of
           None \<Rightarrow>
             (case cache of
                Some c \<Rightarrow>
                  if gc_have_read c
                  then (lt, into\<lparr> om_gpu_bytes := gc_bytes c, om_gpu_source := GpuMaps \<rparr>,
                        Some (c\<lparr> gc_read_failures := gc_read_failures c + 1 \<rparr>))
                  else (lt, into\<lparr> om_gpu_bytes := 0, om_gpu_source := GpuUnprobed \<rparr>,
                        Some (c\<lparr> gc_read_failures := gc_read_failures c + 1 \<rparr>))
              | None \<Rightarrow> (lt, into\<lparr> om_gpu_bytes := 0, om_gpu_source := GpuUnprobed \<rparr>, None))
         | Some mapped \<Rightarrow>
             let into = into\<lparr> om_gpu_source := GpuMaps \<rparr>
             in case cache of
                  None \<Rightarrow>
                    (case ReadGpuSmapsReading (pv_smaps pv) of
                       None \<Rightarrow> (lt, into\<lparr> om_gpu_bytes := 0, om_gpu_source := GpuUnprobed \<rparr>, None)
                     | Some r \<Rightarrow> (lt, into\<lparr> om_gpu_bytes := GpuBytesFromReading r (om_rss_bytes into) \<rparr>, None))
                | Some c \<Rightarrow>
                    let c = (if GpuSampleNeedsRead c mapped
                             then gpu_cache_read pv mapped (om_rss_bytes into) c else c)
                    in (lt, into\<lparr> om_gpu_bytes := gc_bytes c, om_gpu_us := ucast (pv_gpu_us pv) \<rparr>, Some c))"

definition ReadSelfGpuMmapBytes ::
    "proc_view \<Rightarrow> latches \<Rightarrow> ObservedMemSample \<Rightarrow> latches \<times> ObservedMemSample \<times> GpuMmapCache option" where
  "ReadSelfGpuMmapBytes pv lt into = ReadSelfGpuMmapBytesGated pv lt into None"

definition kMapRefreshSamples :: u32 where
  "kMapRefreshSamples = 8"

definition map_pass_due :: "ObservedMemSample \<Rightarrow> DmaMapCache \<Rightarrow> u64 \<Rightarrow> bool" where
  "map_pass_due into cache peak_total_bytes \<longleftrightarrow>
     \<not> mc_ever_ran cache
     \<or> om_rss_bytes into + om_dma_fd_bytes into + mc_bytes cache \<ge> peak_total_bytes
     \<or> mc_samples_since_refresh cache \<ge> kMapRefreshSamples"

definition map_cache_refreshed :: "u64 \<Rightarrow> DmaMapCache \<Rightarrow> DmaMapCache" where
  "map_cache_refreshed bytes cache = cache\<lparr> mc_bytes := bytes, mc_ever_ran := True,
     mc_samples_since_refresh := 0, mc_refreshes := mc_refreshes cache + 1,
     mc_max_bytes := (if bytes > mc_max_bytes cache then bytes else mc_max_bytes cache) \<rparr>"

definition ReadSelfDmaBytesGated ::
    "proc_view \<Rightarrow> latches \<Rightarrow> DmaInodeSet \<Rightarrow> ObservedMemSample \<Rightarrow> DmaMapCache option \<Rightarrow> u64
       \<Rightarrow> u64 \<times> latches \<times> DmaInodeSet \<times> ObservedMemSample \<times> DmaMapCache option" where
  "ReadSelfDmaBytesGated pv lt inodes into cache peak_total_bytes =
     (let (ion, lt) = ReadIonProcInfoBytes pv lt
      in case ion of
           Some ion_bytes \<Rightarrow>
             (ion_bytes, lt, inodes,
              into\<lparr> om_dma_source := DmaIonProcInfo, om_dma_fd_bytes := ion_bytes, om_dma_map_bytes := 0,
                    om_fd_us := ucast (pv_fd_us pv) \<rparr>, cache)
         | None \<Rightarrow>
             let (fd_bytes, inodes, saw_any) = ReadDmaBytesFromFds (pv_fd_dir pv) inodes False;
                 into = into\<lparr> om_dma_fd_bytes := fd_bytes, om_fd_us := ucast (pv_fd_us pv) \<rparr>;
                 run_map_pass = (case cache of None \<Rightarrow> True | Some c \<Rightarrow> map_pass_due into c peak_total_bytes);
                 (inodes, into, cache, saw_any) =
                   (if run_map_pass then
                      let (map_bytes, inodes, saw_any) = ReadDmaBytesFromMaps (pv_maps pv) inodes saw_any
                      in (inodes, into\<lparr> om_dma_map_bytes := map_bytes, om_map_us := ucast (pv_map_us pv) \<rparr>,
                          map_option (map_cache_refreshed map_bytes) cache, saw_any)
                    else case cache of
                      None \<Rightarrow> (inodes, into, cache, saw_any)
                    | Some c \<Rightarrow>
                        (inodes, into\<lparr> om_dma_map_bytes := mc_bytes c \<rparr>,
                         Some (c\<lparr> mc_samples_since_refresh := mc_samples_since_refresh c + 1 \<rparr>),
                         saw_any \<or> mc_max_bytes c \<noteq> 0))
             in (om_dma_fd_bytes into + om_dma_map_bytes into, lt, inodes,
                 into\<lparr> om_dma_source := (if saw_any then DmaFdAndMaps else DmaNone) \<rparr>, cache))"

text \<open>Everything a reading carries from one sample to the next.\<close>

record reader_state =
  rd_latches :: latches
  rd_inodes :: DmaInodeSet
  rd_map_cache :: "DmaMapCache option"
  rd_gpu_cache :: "GpuMmapCache option"

definition ReadObservedMemoryGated ::
    "proc_view \<Rightarrow> reader_state \<Rightarrow> u64 \<Rightarrow> ObservedMemSample \<times> reader_state" where
  "ReadObservedMemoryGated pv rd peak_total_bytes =
     (let rss = ReadSelfRss (pv_status pv);
          sample = ObservedMemSample_init\<lparr> om_status_us := ucast (pv_status_us pv) \<rparr>
      in if \<not> rss_valid rss then (sample, rd)
      else
        let (kgsl_bytes, lt, sample) = ReadSelfKgslGpuBytes pv (rd_latches rd) sample;
            kgsl = (kgsl_bytes \<noteq> 0 \<or> om_gpu_source sample = GpuKgsl);
            sample = sample\<lparr> om_rss_bytes := (if kgsl then rss_anon_kb rss else rss_vm_rss_kb rss) * 1024 \<rparr>;
            (dma_bytes, lt, inodes, sample, map_cache) =
              ReadSelfDmaBytesGated pv lt (ResetDmaInodeSet (rd_inodes rd)) sample (rd_map_cache rd) peak_total_bytes;
            sample = sample\<lparr> om_dma_bytes := dma_bytes \<rparr>;
            (lt, sample, gpu_cache) =
              (if kgsl then (lt, sample, rd_gpu_cache rd)
               else ReadSelfGpuMmapBytesGated pv lt sample (rd_gpu_cache rd))
        in (sample\<lparr> om_valid := True \<rparr>,
            \<lparr> rd_latches = lt, rd_inodes = inodes, rd_map_cache = map_cache, rd_gpu_cache = gpu_cache \<rparr>))"

definition ReadObservedMemory :: "proc_view \<Rightarrow> latches \<Rightarrow> DmaInodeSet \<Rightarrow> ObservedMemSample \<times> reader_state" where
  "ReadObservedMemory pv lt inodes = ReadObservedMemoryGated pv
     \<lparr> rd_latches = lt, rd_inodes = inodes, rd_map_cache = None, rd_gpu_cache = None \<rparr> 0"

section \<open>The schedule\<close>

record SampleSchedule =
  next_deadline_us :: u64
  skipped_slots :: u64
  throttled :: bool

definition NextSampleSchedule :: "u64 \<Rightarrow> u64 \<Rightarrow> u64 \<Rightarrow> u64 \<Rightarrow> SampleSchedule" where
  "NextSampleSchedule previous_deadline_us now_us work_us interval_us =
     (let interval_us = (if interval_us = 0 then 1 else interval_us);
          nxt = previous_deadline_us + interval_us;
          (nxt, skipped) =
            (if nxt < now_us then
               let advance = (now_us - nxt) div interval_us + 1 in (nxt + advance * interval_us, advance)
             else (nxt, 0));
          earliest_us = now_us + work_us
      in if nxt < earliest_us then
           let advance = (earliest_us - nxt + interval_us - 1) div interval_us
           in \<lparr> next_deadline_us = nxt + advance * interval_us, skipped_slots = skipped + advance, throttled = True \<rparr>
         else \<lparr> next_deadline_us = nxt, skipped_slots = skipped, throttled = False \<rparr>)"

lemma unat_advance:
  assumes "unat nxt + unat adv * unat i < 2 ^ 64"
  shows "unat (nxt + adv * i :: u64) = unat nxt + unat adv * unat i"
proof -
  have "unat (adv * i) = unat adv * unat i" using assms by (intro unat_mult_fits) simp
  with assms show ?thesis by (subst unat_add_fits) simp_all
qed

lemma skip_elapsed:
  assumes "0 < unat i" "unat nxt < unat now" "unat now + unat i < 2 ^ 64"
  shows "unat ((now - nxt) div i + 1 :: u64) = (unat now - unat nxt) div unat i + 1"
    and "unat now < unat nxt + ((unat now - unat nxt) div unat i + 1) * unat i"
    and "unat nxt + ((unat now - unat nxt) div unat i + 1) * unat i \<le> unat now + unat i"
proof -
  let ?d = "(unat now - unat nxt) div unat i"
  have sub: "unat (now - nxt) = unat now - unat nxt"
    using assms(2) by (intro unat_sub) (simp add: word_le_nat_alt)
  have d: "unat ((now - nxt) div i) = ?d" by (simp add: unat_div_distrib sub)
  have "?d \<le> unat now - unat nxt" by (rule div_le_dividend)
  then have "?d + 1 < 2 ^ 64" using assms(1,3) by linarith
  with d show "unat ((now - nxt) div i + 1) = ?d + 1" by (subst unat_add_fits) simp_all
  have "?d * unat i \<le> unat now - unat nxt" "unat now - unat nxt < unat i + ?d * unat i"
    by (simp_all only: div_times_less_eq_dividend dividend_less_div_times [OF assms(1)])
  moreover have "(?d + 1) * unat i = ?d * unat i + unat i" by simp
  ultimately show "unat now < unat nxt + (?d + 1) * unat i"
    "unat nxt + (?d + 1) * unat i \<le> unat now + unat i" using assms(2) by linarith+
qed

lemma skip_throttled:
  assumes "0 < unat i" "unat nxt < unat e" "unat e + unat i < 2 ^ 64"
  shows "unat ((e - nxt + i - 1) div i :: u64) = (unat e - unat nxt + unat i - 1) div unat i"
    and "unat e \<le> unat nxt + (unat e - unat nxt + unat i - 1) div unat i * unat i"
    and "unat nxt + (unat e - unat nxt + unat i - 1) div unat i * unat i < unat e + unat i"
proof -
  let ?m = "unat e - unat nxt + unat i - 1"
  have sub: "unat (e - nxt) = unat e - unat nxt"
    using assms(2) by (intro unat_sub) (simp add: word_le_nat_alt)
  have add: "unat (e - nxt + i) = unat e - unat nxt + unat i"
    using assms(3) by (subst unat_add_fits) (simp_all add: sub)
  have "unat (e - nxt + i - 1) = ?m"
    using assms(1) add by (subst unat_sub) (simp_all add: word_le_nat_alt)
  then show "unat ((e - nxt + i - 1) div i) = ?m div unat i" by (simp add: unat_div_distrib)
  have "?m div unat i * unat i \<le> ?m" "?m < unat i + ?m div unat i * unat i"
    by (simp_all only: div_times_less_eq_dividend dividend_less_div_times [OF assms(1)])
  with assms(1,2) show "unat e \<le> unat nxt + ?m div unat i * unat i"
    "unat nxt + ?m div unat i * unat i < unat e + unat i" by linarith+
qed

text \<open>
  C16: the sampling grid. While the clock stays clear of wrapping, the next
  deadline lies on the grid of the previous one, the skipped slots are exactly
  those between them, the wait covers the time already gone and the duty cap
  (never sooner than the last sample took), and it is late by at most one
  interval beyond what they ask for.
\<close>

theorem schedule_on_grid:
  assumes "0 < unat i" "unat prev + unat now + unat work + 2 * unat i < 2 ^ 64"
  defines "s \<equiv> NextSampleSchedule prev now work i"
  shows "unat (next_deadline_us s) = unat prev + (unat (skipped_slots s) + 1) * unat i
    \<and> unat now + unat work \<le> unat (next_deadline_us s)
    \<and> unat (next_deadline_us s) \<le> max (unat prev) (unat now + unat work) + unat i"
proof -
  have i0: "i \<noteq> 0" using assms(1) by auto
  have a: "unat (prev + i) = unat prev + unat i" using assms(2) by (intro unat_add_fits) simp
  have e: "unat (now + work) = unat now + unat work" using assms(2) by (intro unat_add_fits) simp
  define k1 where "k1 = (if prev + i < now then (now - (prev + i)) div i + 1 else 0)"
  define n1 where "n1 = prev + i + k1 * i"
  have n1: "unat n1 = unat prev + (unat k1 + 1) * unat i \<and> unat now \<le> unat n1
      \<and> unat n1 \<le> max (unat prev) (unat now) + unat i"
  proof (cases "prev + i < now")
    case True
    then have lt: "unat (prev + i) < unat now" by (simp add: word_less_nat_alt)
    note sk = skip_elapsed [OF assms(1) lt]
    have k1: "unat k1 = (unat now - unat (prev + i)) div unat i + 1"
      using sk(1) assms(2) True by (simp add: k1_def)
    have "unat n1 = unat (prev + i) + unat k1 * unat i"
      unfolding n1_def using sk(3) assms(2) by (intro unat_advance) (simp add: k1)
    with sk(2,3) assms(2) a show ?thesis by (simp add: k1 algebra_simps)
  next
    case False
    then show ?thesis using a by (simp add: n1_def k1_def word_less_nat_alt not_less)
  qed
  have s: "s = (if n1 < now + work then
        \<lparr> next_deadline_us = n1 + (now + work - n1 + i - 1) div i * i,
          skipped_slots = k1 + (now + work - n1 + i - 1) div i, throttled = True \<rparr>
      else \<lparr> next_deadline_us = n1, skipped_slots = k1, throttled = False \<rparr>)"
    using i0 by (simp add: s_def NextSampleSchedule_def Let_def n1_def k1_def)
  show ?thesis
  proof (cases "n1 < now + work")
    case True
    then have lt: "unat n1 < unat (now + work)" by (simp add: word_less_nat_alt)
    let ?k2 = "(now + work - n1 + i - 1) div i"
    note sk = skip_throttled [OF assms(1) lt]
    have fits: "unat (now + work) + unat i < 2 ^ 64" using assms(2) e by simp
    have n2: "unat (n1 + ?k2 * i) = unat n1 + unat ?k2 * unat i"
      using sk(3) [OF fits] sk(1) [OF fits] fits by (intro unat_advance) simp
    have "unat k1 \<le> unat k1 * unat i" "unat ?k2 \<le> unat ?k2 * unat i" using assms(1) by simp_all
    moreover have "unat n1 = unat prev + unat k1 * unat i + unat i" using n1 by (simp add: algebra_simps)
    ultimately have "unat k1 + unat ?k2 \<le> unat n1 + unat ?k2 * unat i" by linarith
    then have k: "unat (k1 + ?k2) = unat k1 + unat ?k2"
      using sk(3) [OF fits] sk(1) [OF fits] fits by (intro unat_add_fits) simp
    show ?thesis
      using True n1 n2 k sk [OF fits] e by (simp add: s algebra_simps)
  next
    case False
    with n1 e show ?thesis by (auto simp: s word_less_nat_alt not_less max_def split: if_splits)
  qed
qed

theorem schedule_on_grid_witness:
  "unat (next_deadline_us (NextSampleSchedule 1000 4500 700 1000)) = 6000"
proof -
  have "skipped_slots (NextSampleSchedule 1000 4500 700 1000) = 4"
    by (simp add: NextSampleSchedule_def)
  with schedule_on_grid [of 1000 1000 4500 700] show ?thesis by simp
qed

end
