(* ===== verification/PeakSampler.thy ===== *)
theory PeakSampler
  imports ObservedReading
begin

text \<open>
  The sampler thread \<^verbatim>\<open>ObservedPeakSampler\<close> (\<^verbatim>\<open>backtrace/src/ObservedMemory.cpp\<close>):
  its life cycle, one round of its loop as \<^verbatim>\<open>Run_round\<close>, and whole runs as the fold
  over the rounds. A round is driven by a \<^verbatim>\<open>sampler_tick\<close>, what the kernel and the
  clock answer during it. The callback that retains a snapshot is a parameter.
\<close>

section \<open>The sampler thread\<close>

record ObservedPeakSampler =
  sp_started :: bool
  sp_running :: bool
  sp_interval_ms :: u32
  sp_floor_bytes :: u64
  sp_step_bytes :: u64
  sp_one_shot :: bool
  sp_samples :: nat
  sp_valid_samples :: nat
  sp_snapshots :: nat
  sp_total_sample_us :: u64
  sp_max_sample_us :: u64
  sp_total_snapshot_us :: u64
  sp_max_snapshot_us :: u64
  sp_total_status_us :: u64
  sp_total_fd_us :: u64
  sp_total_map_us :: u64
  sp_total_gpu_us :: u64
  sp_skipped_slots :: u64
  sp_throttled_samples :: nat
  sp_first_sample_us :: u64
  sp_last_sample_us :: u64
  sp_peak_total_bytes :: u64
  sp_peak_total_rss_bytes :: u64
  sp_peak_total_dma_bytes :: u64
  sp_peak_total_dma_fd_bytes :: u64
  sp_peak_total_dma_map_bytes :: u64
  sp_peak_total_gpu_bytes :: u64
  sp_max_rss_bytes :: u64
  sp_max_dma_bytes :: u64
  sp_max_gpu_bytes :: u64
  sp_dma_source :: DmaSource
  sp_gpu_source :: GpuMmapSource
  sp_dedup_overflowed :: bool
  sp_reader :: reader_state

definition ObservedPeakSampler_init :: ObservedPeakSampler where
  "ObservedPeakSampler_init = \<lparr> sp_started = False, sp_running = False, sp_interval_ms = 0,
     sp_floor_bytes = 0, sp_step_bytes = 0, sp_one_shot = False, sp_samples = 0, sp_valid_samples = 0,
     sp_snapshots = 0, sp_total_sample_us = 0, sp_max_sample_us = 0, sp_total_snapshot_us = 0,
     sp_max_snapshot_us = 0, sp_total_status_us = 0, sp_total_fd_us = 0, sp_total_map_us = 0,
     sp_total_gpu_us = 0, sp_skipped_slots = 0, sp_throttled_samples = 0, sp_first_sample_us = 0,
     sp_last_sample_us = 0, sp_peak_total_bytes = 0, sp_peak_total_rss_bytes = 0,
     sp_peak_total_dma_bytes = 0, sp_peak_total_dma_fd_bytes = 0, sp_peak_total_dma_map_bytes = 0,
     sp_peak_total_gpu_bytes = 0, sp_max_rss_bytes = 0, sp_max_dma_bytes = 0, sp_max_gpu_bytes = 0,
     sp_dma_source = DmaUnprobed, sp_gpu_source = GpuUnprobed, sp_dedup_overflowed = False,
     sp_reader = \<lparr> rd_latches = latches_init, rd_inodes = DmaInodeSet_init,
       rd_map_cache = Some DmaMapCache_init, rd_gpu_cache = Some GpuMmapCache_init \<rparr> \<rparr>"

text \<open>Starting, stopping, and forgetting a thread that \<^verbatim>\<open>fork\<close> did not clone.\<close>

definition Sampler_Start ::
    "u32 \<Rightarrow> u64 \<Rightarrow> u64 \<Rightarrow> bool \<Rightarrow> bool \<Rightarrow> ObservedPeakSampler \<Rightarrow> bool \<times> ObservedPeakSampler" where
  "Sampler_Start interval_ms floor_bytes step_bytes one_shot thread_created sp =
     (if interval_ms = 0 \<or> sp_started sp then (False, sp)
      else
        let sp = sp\<lparr> sp_interval_ms := interval_ms, sp_floor_bytes := floor_bytes,
                     sp_step_bytes := step_bytes, sp_one_shot := one_shot, sp_running := True \<rparr>
        in if \<not> thread_created then (False, sp\<lparr> sp_running := False \<rparr>)
           else (True, sp\<lparr> sp_started := True \<rparr>))"

definition Sampler_Stop :: "ObservedPeakSampler \<Rightarrow> ObservedPeakSampler" where
  "Sampler_Stop sp = (if \<not> sp_started sp then sp else sp\<lparr> sp_running := False, sp_started := False \<rparr>)"

definition Sampler_ResetAfterForkInChild :: "ObservedPeakSampler \<Rightarrow> ObservedPeakSampler" where
  "Sampler_ResetAfterForkInChild sp = sp\<lparr> sp_running := False, sp_started := False \<rparr>"

definition Sampler_Stalled :: "u64 \<Rightarrow> ObservedPeakSampler \<Rightarrow> bool" where
  "Sampler_Stalled now_us sp =
     (if \<not> sp_started sp \<or> \<not> sp_running sp then False
      else if sp_last_sample_us sp = 0 then False
      else
        let stale_us = ucast (sp_interval_ms sp) * 1000 * 20;
            stale_us = (if stale_us < 2 * 1000 * 1000 then 2 * 1000 * 1000 else stale_us)
        in now_us > sp_last_sample_us sp + stale_us)"

text \<open>
  One round of the loop, in the order of the code: the reading, its cost and
  validity, the maxima, the peak with its parts, the callback and the threshold,
  the schedule. The callback and the state it works on are parameters.
\<close>

record sampler_tick =
  tk_view :: proc_view
  tk_begin_us :: u64
  tk_read_done_us :: u64
  tk_snapshot_done_us :: u64
  tk_work_done_us :: u64

definition sp_record_read :: "sampler_tick \<Rightarrow> ObservedMemSample \<Rightarrow> ObservedPeakSampler \<Rightarrow> ObservedPeakSampler" where
  "sp_record_read tk sample sp =
     (let read_us = tk_read_done_us tk - tk_begin_us tk
      in sp\<lparr> sp_samples := sp_samples sp + 1,
             sp_first_sample_us := (if sp_first_sample_us sp = 0 then tk_begin_us tk else sp_first_sample_us sp),
             sp_last_sample_us := tk_read_done_us tk,
             sp_total_sample_us := sp_total_sample_us sp + read_us,
             sp_max_sample_us := (if read_us > sp_max_sample_us sp then read_us else sp_max_sample_us sp),
             sp_total_status_us := sp_total_status_us sp + ucast (om_status_us sample),
             sp_total_fd_us := sp_total_fd_us sp + ucast (om_fd_us sample),
             sp_total_map_us := sp_total_map_us sp + ucast (om_map_us sample),
             sp_total_gpu_us := sp_total_gpu_us sp + ucast (om_gpu_us sample) \<rparr>)"

definition sp_record_valid :: "ObservedMemSample \<Rightarrow> ObservedPeakSampler \<Rightarrow> ObservedPeakSampler" where
  "sp_record_valid sample sp =
     sp\<lparr> sp_valid_samples := sp_valid_samples sp + 1,
         sp_dma_source := om_dma_source sample,
         sp_gpu_source := om_gpu_source sample,
         sp_dedup_overflowed := (ds_overflowed (rd_inodes (sp_reader sp)) \<or> sp_dedup_overflowed sp),
         sp_max_rss_bytes := (if om_rss_bytes sample > sp_max_rss_bytes sp then om_rss_bytes sample else sp_max_rss_bytes sp),
         sp_max_dma_bytes := (if om_dma_bytes sample > sp_max_dma_bytes sp then om_dma_bytes sample else sp_max_dma_bytes sp),
         sp_max_gpu_bytes := (if om_gpu_bytes sample > sp_max_gpu_bytes sp then om_gpu_bytes sample else sp_max_gpu_bytes sp) \<rparr>"

definition sp_record_peak :: "ObservedMemSample \<Rightarrow> ObservedPeakSampler \<Rightarrow> ObservedPeakSampler" where
  "sp_record_peak sample sp =
     sp\<lparr> sp_peak_total_bytes := sample_total sample,
         sp_peak_total_rss_bytes := om_rss_bytes sample,
         sp_peak_total_dma_bytes := om_dma_bytes sample,
         sp_peak_total_dma_fd_bytes := om_dma_fd_bytes sample,
         sp_peak_total_dma_map_bytes := om_dma_map_bytes sample,
         sp_peak_total_gpu_bytes := om_gpu_bytes sample \<rparr>"

type_synonym 't peak_callback = "ObservedMemSample \<Rightarrow> 't \<Rightarrow> bool \<times> 't"

definition sp_snapshot ::
    "'t peak_callback \<Rightarrow> sampler_tick \<Rightarrow> ObservedMemSample \<Rightarrow> ObservedPeakSampler \<Rightarrow> u64 \<Rightarrow> 't
       \<Rightarrow> ObservedPeakSampler \<times> u64 \<times> 't" where
  "sp_snapshot on_new_peak tk sample sp next_threshold t =
     (let sp = sp\<lparr> sp_snapshots := sp_snapshots sp + 1 \<rparr>;
          (retained, t) = on_new_peak sample t;
          next_threshold =
            (if sp_one_shot sp then (if retained then SIZE_MAX else next_threshold)
             else NextPeakThreshold (sample_total sample) (sp_step_bytes sp));
          snapshot_us = tk_snapshot_done_us tk - tk_read_done_us tk
      in (sp\<lparr> sp_total_snapshot_us := sp_total_snapshot_us sp + snapshot_us,
              sp_max_snapshot_us := (if snapshot_us > sp_max_snapshot_us sp then snapshot_us else sp_max_snapshot_us sp) \<rparr>,
          next_threshold, t))"

definition sp_schedule :: "sampler_tick \<Rightarrow> ObservedPeakSampler \<Rightarrow> u64 \<Rightarrow> ObservedPeakSampler \<times> u64" where
  "sp_schedule tk sp deadline =
     (let schedule = NextSampleSchedule deadline (tk_work_done_us tk) (tk_work_done_us tk - tk_begin_us tk)
                       (ucast (sp_interval_ms sp) * 1000)
      in (sp\<lparr> sp_skipped_slots := sp_skipped_slots sp + skipped_slots schedule,
              sp_throttled_samples := sp_throttled_samples sp + (if throttled schedule then 1 else 0) \<rparr>,
          next_deadline_us schedule))"

type_synonym 't run_state = "ObservedPeakSampler \<times> u64 \<times> u64 \<times> 't"

definition sp_account ::
    "'t peak_callback option \<Rightarrow> sampler_tick \<Rightarrow> ObservedMemSample \<Rightarrow> ObservedPeakSampler \<Rightarrow> u64 \<Rightarrow> 't
       \<Rightarrow> ObservedPeakSampler \<times> u64 \<times> 't" where
  "sp_account on_new_peak tk sample sp next_threshold t =
     (if om_valid sample then
        let sp = sp_record_valid sample sp
        in if sample_total sample > sp_peak_total_bytes sp then
             let sp = sp_record_peak sample sp
             in case on_new_peak of
                  Some cb \<Rightarrow>
                    if sample_total sample > next_threshold
                    then sp_snapshot cb tk sample sp next_threshold t
                    else (sp, next_threshold, t)
                | None \<Rightarrow> (sp, next_threshold, t)
           else (sp, next_threshold, t)
      else (sp, next_threshold, t))"

definition Run_round :: "'t peak_callback option \<Rightarrow> sampler_tick \<Rightarrow> 't run_state \<Rightarrow> 't run_state" where
  "Run_round on_new_peak tk = (\<lambda>(sp, next_threshold, deadline, t).
     let (sample, rd) = ReadObservedMemoryGated (tk_view tk) (sp_reader sp) (sp_peak_total_bytes sp);
         sp = sp_record_read tk sample (sp\<lparr> sp_reader := rd \<rparr>);
         (sp, next_threshold, t) = sp_account on_new_peak tk sample sp next_threshold t;
         (sp, deadline) = sp_schedule tk sp deadline
     in (sp, next_threshold, deadline, t))"

definition Run :: "'t peak_callback option \<Rightarrow> u64 \<Rightarrow> sampler_tick list \<Rightarrow> ObservedPeakSampler \<Rightarrow> 't \<Rightarrow> 't run_state" where
  "Run on_new_peak start_us ticks sp t =
     fold (Run_round on_new_peak) ticks (sp, sp_floor_bytes sp, start_us, t)"

text \<open>The statistics a report reads, the cadence achieved included.\<close>

record ObservedSamplerStats =
  st_interval_ms :: u32
  st_dma_source :: DmaSource
  st_gpu_source :: GpuMmapSource
  st_samples :: nat
  st_valid_samples :: nat
  st_snapshots :: nat
  st_total_sample_us :: u64
  st_max_sample_us :: u64
  st_total_snapshot_us :: u64
  st_max_snapshot_us :: u64
  st_total_status_us :: u64
  st_total_fd_us :: u64
  st_total_map_us :: u64
  st_total_gpu_us :: u64
  st_map_passes :: nat
  st_max_map_only_bytes :: u64
  st_max_gpu_bytes_seen :: u64
  st_gpu_reads :: nat
  st_gpu_read_failures :: nat
  st_span_us :: u64
  st_skipped_slots :: u64
  st_throttled_samples :: nat
  st_dedup_overflowed :: bool
  st_peak_total_bytes :: u64
  st_peak_total_rss_bytes :: u64
  st_peak_total_dma_bytes :: u64
  st_peak_total_dma_fd_bytes :: u64
  st_peak_total_dma_map_bytes :: u64
  st_peak_total_gpu_bytes :: u64
  st_max_rss_bytes :: u64
  st_max_dma_bytes :: u64
  st_max_gpu_bytes :: u64

definition sp_map_cache :: "ObservedPeakSampler \<Rightarrow> DmaMapCache" where
  "sp_map_cache sp = (case rd_map_cache (sp_reader sp) of None \<Rightarrow> DmaMapCache_init | Some c \<Rightarrow> c)"

definition sp_gpu_cache :: "ObservedPeakSampler \<Rightarrow> GpuMmapCache" where
  "sp_gpu_cache sp = (case rd_gpu_cache (sp_reader sp) of None \<Rightarrow> GpuMmapCache_init | Some c \<Rightarrow> c)"

definition Sampler_stats :: "ObservedPeakSampler \<Rightarrow> ObservedSamplerStats" where
  "Sampler_stats sp = \<lparr>
     st_interval_ms = sp_interval_ms sp,
     st_dma_source = sp_dma_source sp,
     st_gpu_source = sp_gpu_source sp,
     st_samples = sp_samples sp,
     st_valid_samples = sp_valid_samples sp,
     st_snapshots = sp_snapshots sp,
     st_total_sample_us = sp_total_sample_us sp,
     st_max_sample_us = sp_max_sample_us sp,
     st_total_snapshot_us = sp_total_snapshot_us sp,
     st_max_snapshot_us = sp_max_snapshot_us sp,
     st_total_status_us = sp_total_status_us sp,
     st_total_fd_us = sp_total_fd_us sp,
     st_total_map_us = sp_total_map_us sp,
     st_total_gpu_us = sp_total_gpu_us sp,
     st_map_passes = mc_refreshes (sp_map_cache sp),
     st_max_map_only_bytes = mc_max_bytes (sp_map_cache sp),
     st_max_gpu_bytes_seen = gc_max_bytes (sp_gpu_cache sp),
     st_gpu_reads = gc_reads (sp_gpu_cache sp),
     st_gpu_read_failures = gc_read_failures (sp_gpu_cache sp),
     st_span_us = (if sp_last_sample_us sp > sp_first_sample_us sp
                   then sp_last_sample_us sp - sp_first_sample_us sp else 0),
     st_skipped_slots = sp_skipped_slots sp,
     st_throttled_samples = sp_throttled_samples sp,
     st_dedup_overflowed = sp_dedup_overflowed sp,
     st_peak_total_bytes = sp_peak_total_bytes sp,
     st_peak_total_rss_bytes = sp_peak_total_rss_bytes sp,
     st_peak_total_dma_bytes = sp_peak_total_dma_bytes sp,
     st_peak_total_dma_fd_bytes = sp_peak_total_dma_fd_bytes sp,
     st_peak_total_dma_map_bytes = sp_peak_total_dma_map_bytes sp,
     st_peak_total_gpu_bytes = sp_peak_total_gpu_bytes sp,
     st_max_rss_bytes = sp_max_rss_bytes sp,
     st_max_dma_bytes = sp_max_dma_bytes sp,
     st_max_gpu_bytes = sp_max_gpu_bytes sp \<rparr>"

section \<open>Statistics of a run\<close>

text \<open>The valid readings of a run, in order.\<close>

primrec valid_log :: "'t peak_callback option \<Rightarrow> sampler_tick list \<Rightarrow> 't run_state \<Rightarrow> ObservedMemSample list" where
  "valid_log cb [] rs = []"
| "valid_log cb (tk # ticks) rs =
     (let s = fst (ReadObservedMemoryGated (tk_view tk) (sp_reader (fst rs)) (sp_peak_total_bytes (fst rs)))
      in (if om_valid s then [s] else []) @ valid_log cb ticks (Run_round cb tk rs))"

definition peak_parts :: "ObservedPeakSampler \<Rightarrow> u64 \<times> u64 \<times> u64 \<times> u64 \<times> u64 \<times> u64" where
  "peak_parts sp = (sp_peak_total_bytes sp, sp_peak_total_rss_bytes sp, sp_peak_total_dma_bytes sp,
     sp_peak_total_dma_fd_bytes sp, sp_peak_total_dma_map_bytes sp, sp_peak_total_gpu_bytes sp)"

definition sample_parts :: "ObservedMemSample \<Rightarrow> u64 \<times> u64 \<times> u64 \<times> u64 \<times> u64 \<times> u64" where
  "sample_parts s = (sample_total s, om_rss_bytes s, om_dma_bytes s, om_dma_fd_bytes s,
     om_dma_map_bytes s, om_gpu_bytes s)"

definition largest :: "('a \<Rightarrow> u64) \<Rightarrow> 'a list \<Rightarrow> u64" where
  "largest f xs = fold (\<lambda>x m. if f x > m then f x else m) xs 0"

lemma largest_snoc [simp]: "largest f (xs @ [x]) = (if f x > largest f xs then f x else largest f xs)"
  by (simp add: largest_def)

lemma largest_Nil [simp]: "largest f [] = 0"
  by (simp add: largest_def)

lemma largest_upper: "x \<in> set xs \<Longrightarrow> f x \<le> largest f xs"
proof (induction xs rule: rev_induct)
  case (snoc y xs)
  then show ?case by (cases "x = y") auto
qed simp

definition sp_exact :: "ObservedPeakSampler \<Rightarrow> ObservedMemSample list \<Rightarrow> bool" where
  "sp_exact sp xs \<longleftrightarrow> sp_valid_samples sp = length xs
     \<and> sp_peak_total_bytes sp = largest sample_total xs
     \<and> sp_max_rss_bytes sp = largest om_rss_bytes xs
     \<and> sp_max_dma_bytes sp = largest om_dma_bytes xs
     \<and> sp_max_gpu_bytes sp = largest om_gpu_bytes xs
     \<and> (sp_peak_total_bytes sp \<noteq> 0 \<longrightarrow> peak_parts sp \<in> sample_parts ` set xs)"

lemma sp_schedule_fields [simp]:
  "sp_exact (fst (sp_schedule tk sp d)) xs = sp_exact sp xs"
  "sp_samples (fst (sp_schedule tk sp d)) = sp_samples sp"
  "sp_snapshots (fst (sp_schedule tk sp d)) = sp_snapshots sp"
  "sp_one_shot (fst (sp_schedule tk sp d)) = sp_one_shot sp"
  by (simp_all add: sp_schedule_def Let_def sp_exact_def peak_parts_def)

lemma sp_snapshot_fields [simp]:
  "sp_exact (fst (sp_snapshot cb tk s sp th t)) xs = sp_exact sp xs"
  "sp_samples (fst (sp_snapshot cb tk s sp th t)) = sp_samples sp"
  "sp_snapshots (fst (sp_snapshot cb tk s sp th t)) = sp_snapshots sp + 1"
  "sp_one_shot (fst (sp_snapshot cb tk s sp th t)) = sp_one_shot sp"
  by (simp_all add: sp_snapshot_def split_beta Let_def sp_exact_def peak_parts_def)

lemma sp_record_read_fields [simp]:
  "sp_exact (sp_record_read tk s (sp\<lparr> sp_reader := rd \<rparr>)) xs = sp_exact sp xs"
  "sp_samples (sp_record_read tk s (sp\<lparr> sp_reader := rd \<rparr>)) = sp_samples sp + 1"
  "sp_snapshots (sp_record_read tk s (sp\<lparr> sp_reader := rd \<rparr>)) = sp_snapshots sp"
  "sp_one_shot (sp_record_read tk s (sp\<lparr> sp_reader := rd \<rparr>)) = sp_one_shot sp"
  by (simp_all add: sp_record_read_def Let_def sp_exact_def peak_parts_def)

lemma sp_record_valid_fields [simp]:
  "sp_peak_total_bytes (sp_record_valid s sp) = sp_peak_total_bytes sp"
  "sp_samples (sp_record_valid s sp) = sp_samples sp"
  "sp_snapshots (sp_record_valid s sp) = sp_snapshots sp"
  "sp_one_shot (sp_record_valid s sp) = sp_one_shot sp"
  by (simp_all add: sp_record_valid_def)

lemma sp_record_peak_fields [simp]:
  "sp_peak_total_bytes (sp_record_peak s sp) = sample_total s"
  "sp_samples (sp_record_peak s sp) = sp_samples sp"
  "sp_snapshots (sp_record_peak s sp) = sp_snapshots sp"
  "sp_one_shot (sp_record_peak s sp) = sp_one_shot sp"
  by (simp_all add: sp_record_peak_def)

lemma sp_record_valid_maxima [simp]:
  "sp_valid_samples (sp_record_valid s sp) = sp_valid_samples sp + 1"
  "sp_max_rss_bytes (sp_record_valid s sp) = (if om_rss_bytes s > sp_max_rss_bytes sp then om_rss_bytes s else sp_max_rss_bytes sp)"
  "sp_max_dma_bytes (sp_record_valid s sp) = (if om_dma_bytes s > sp_max_dma_bytes sp then om_dma_bytes s else sp_max_dma_bytes sp)"
  "sp_max_gpu_bytes (sp_record_valid s sp) = (if om_gpu_bytes s > sp_max_gpu_bytes sp then om_gpu_bytes s else sp_max_gpu_bytes sp)"
  "peak_parts (sp_record_valid s sp) = peak_parts sp"
  by (simp_all add: sp_record_valid_def peak_parts_def)

lemma sp_record_peak_maxima [simp]:
  "sp_valid_samples (sp_record_peak s sp) = sp_valid_samples sp"
  "sp_max_rss_bytes (sp_record_peak s sp) = sp_max_rss_bytes sp"
  "sp_max_dma_bytes (sp_record_peak s sp) = sp_max_dma_bytes sp"
  "sp_max_gpu_bytes (sp_record_peak s sp) = sp_max_gpu_bytes sp"
  "peak_parts (sp_record_peak s sp) = sample_parts s"
  by (simp_all add: sp_record_peak_def peak_parts_def sample_parts_def)

lemma sp_exact_valid:
  assumes "sp_exact sp xs"
  shows "sample_total s \<le> sp_peak_total_bytes sp \<Longrightarrow> sp_exact (sp_record_valid s sp) (xs @ [s])"
    and "sp_peak_total_bytes sp < sample_total s \<Longrightarrow>
      sp_exact (sp_record_peak s (sp_record_valid s sp)) (xs @ [s])"
  using assms by (simp_all add: sp_exact_def leD)

lemma sp_account_exact:
  assumes "sp_exact sp xs"
  shows "sp_exact (fst (sp_account cb tk s sp th t)) (xs @ (if om_valid s then [s] else []))"
    and "sp_samples (fst (sp_account cb tk s sp th t)) = sp_samples sp"
proof -
  note v = sp_exact_valid [OF assms, of s]
  show "sp_exact (fst (sp_account cb tk s sp th t)) (xs @ (if om_valid s then [s] else []))"
    using assms v by (cases cb) (simp_all add: sp_account_def Let_def not_less)
  show "sp_samples (fst (sp_account cb tk s sp th t)) = sp_samples sp"
    by (cases cb) (simp_all add: sp_account_def Let_def)
qed

lemma Run_round_eq:
  assumes "ReadObservedMemoryGated (tk_view tk) (sp_reader sp) (sp_peak_total_bytes sp) = (s, rd)"
    "sp_account cb tk s (sp_record_read tk s (sp\<lparr> sp_reader := rd \<rparr>)) th t = (sp', th', t')"
  shows "Run_round cb tk (sp, th, d, t) =
    (fst (sp_schedule tk sp' d), th', snd (sp_schedule tk sp' d), t')"
  using assms by (simp add: Run_round_def split_beta)

lemma Run_round_exact:
  assumes "sp_exact (fst rs) xs"
  shows "sp_exact (fst (Run_round cb tk rs)) (xs @ valid_log cb [tk] rs)
    \<and> sp_samples (fst (Run_round cb tk rs)) = sp_samples (fst rs) + 1"
proof -
  obtain sp th d t where rs: "rs = (sp, th, d, t)" by (metis prod_cases4)
  obtain s rd where read: "ReadObservedMemoryGated (tk_view tk) (sp_reader sp) (sp_peak_total_bytes sp) = (s, rd)"
    by fastforce
  obtain sp' th' t' where acc:
    "sp_account cb tk s (sp_record_read tk s (sp\<lparr> sp_reader := rd \<rparr>)) th t = (sp', th', t')"
    by (metis prod_cases3)
  have "sp_exact (sp_record_read tk s (sp\<lparr> sp_reader := rd \<rparr>)) xs" using assms by (simp add: rs)
  from sp_account_exact [OF this, of cb tk s th t] show ?thesis
    by (simp add: rs Run_round_eq [OF read acc] acc read Let_def)
qed

lemma Run_exact:
  assumes "sp_exact (fst rs) xs"
  shows "sp_exact (fst (fold (Run_round cb) ticks rs)) (xs @ valid_log cb ticks rs)
    \<and> sp_samples (fst (fold (Run_round cb) ticks rs)) = sp_samples (fst rs) + length ticks"
  using assms
proof (induction ticks arbitrary: rs xs)
  case (Cons tk ticks)
  note r = Run_round_exact [OF Cons.prems, of cb tk]
  from Cons.IH [OF conjunct1 [OF r]] r show ?case by (simp add: Let_def)
qed simp

lemma start_exact:
  "sp_exact (snd (Sampler_Start ms fl st os b ObservedPeakSampler_init)) []"
  "sp_samples (snd (Sampler_Start ms fl st os b ObservedPeakSampler_init)) = 0"
  by (simp_all add: Sampler_Start_def ObservedPeakSampler_init_def sp_exact_def Let_def)

text \<open>
  C14: the statistics are the maxima of the run. Over any run of a freshly started
  sampler, whatever the kernel answers and whatever the callback does, the
  reported peak is the largest total of a valid reading, its parts are the parts
  of one single reading, each separate maximum is that of the valid readings, and
  every round is counted.
\<close>

theorem sampler_statistics:
  "let sp0 = snd (Sampler_Start ms fl st os True ObservedPeakSampler_init);
       sp = fst (Run cb t0 ticks sp0 t);
       xs = valid_log cb ticks (sp0, sp_floor_bytes sp0, t0, t)
   in sp_samples sp = length ticks \<and> sp_valid_samples sp = length xs
     \<and> sp_peak_total_bytes sp = largest sample_total xs
     \<and> sp_max_rss_bytes sp = largest om_rss_bytes xs
     \<and> sp_max_dma_bytes sp = largest om_dma_bytes xs
     \<and> sp_max_gpu_bytes sp = largest om_gpu_bytes xs
     \<and> (if sp_peak_total_bytes sp = 0 then True else peak_parts sp \<in> sample_parts ` set xs)"
proof -
  let ?sp = "snd (Sampler_Start ms fl st os True ObservedPeakSampler_init)"
  let ?rs = "(?sp, sp_floor_bytes ?sp, t0, t)"
  have "sp_exact (fst ?rs) []" "sp_samples (fst ?rs) = 0" using start_exact by simp_all
  note r = Run_exact [OF this(1), of cb ticks] this(2)
  show ?thesis
    using r unfolding Let_def Run_def sp_exact_def by simp
qed

section \<open>First-crossing runs\<close>

text \<open>A callback that also keeps the answers it gave.\<close>

definition logged :: "'t peak_callback \<Rightarrow> (bool list \<times> 't) peak_callback" where
  "logged cb s = (\<lambda>(log, t). let (r, t') = cb s t in (r, log @ [r], t'))"

definition once_inv :: "u64 \<Rightarrow> (bool list \<times> 't) run_state \<Rightarrow> bool" where
  "once_inv fl = (\<lambda>(sp, th, d, log, t). sp_one_shot sp \<and> sp_snapshots sp = length log
     \<and> True \<notin> set (butlast log) \<and> th = (if True \<in> set log then SIZE_MAX else fl))"

lemma below_SIZE_MAX: "\<not> SIZE_MAX < (x :: u64)"
  by (simp add: not_less)

lemma once_inv_account:
  assumes "once_inv fl (sp, th, d, log, t)" "sp_account (Some (logged cb)) tk s sp th (log, t) = (sp', th', log', t')"
  shows "once_inv fl (sp', th', d', log', t')"
proof (cases "om_valid s \<and> sample_total s > sp_peak_total_bytes sp \<and> sample_total s > th")
  case True
  then have th: "th = fl" "True \<notin> set log"
    using assms(1) below_SIZE_MAX by (auto simp: once_inv_def split: if_splits)
  obtain r u where cb: "cb s t = (r, u)" by fastforce
  let ?sp = "sp_record_peak s (sp_record_valid s sp)"
  have snap: "sp_snapshot (logged cb) tk s ?sp th (log, t) = (sp', th', log', t')"
    using assms(2) True by (simp add: sp_account_def Let_def)
  then have f: "log' = log @ [r]" "th' = (if r then SIZE_MAX else th)"
    using assms(1) by (auto simp: sp_snapshot_def logged_def cb once_inv_def Let_def)
  have "sp_one_shot sp'" "sp_snapshots sp' = sp_snapshots sp + 1"
    using sp_snapshot_fields(3,4) [of "logged cb" tk s ?sp th "(log, t)"] snap assms(1)
    by (simp_all add: once_inv_def)
  with f th assms(1) show ?thesis by (auto simp: once_inv_def)
next
  case False
  then have "sp' = sp \<or> sp' = sp_record_valid s sp \<or> sp' = sp_record_peak s (sp_record_valid s sp)"
    "th' = th" "log' = log"
    using assms(2) by (auto simp: sp_account_def Let_def split: if_splits)
  with assms(1) show ?thesis by (auto simp: once_inv_def)
qed

lemma once_inv_round:
  assumes "once_inv fl rs"
  shows "once_inv fl (Run_round (Some (logged cb)) tk rs)"
proof -
  obtain sp th d log t where rs: "rs = (sp, th, d, log, t)" by (metis prod_cases5)
  obtain s rd where read: "ReadObservedMemoryGated (tk_view tk) (sp_reader sp) (sp_peak_total_bytes sp) = (s, rd)"
    by fastforce
  let ?sp = "sp_record_read tk s (sp\<lparr> sp_reader := rd \<rparr>)"
  obtain sp' th' log' t' where acc:
    "sp_account (Some (logged cb)) tk s ?sp th (log, t) = (sp', th', log', t')"
    by (metis prod_cases4)
  have "once_inv fl (?sp, th, d, log, t)" using assms by (simp add: rs once_inv_def)
  note inv = once_inv_account [OF this acc, of "snd (sp_schedule tk sp' d)"]
  show ?thesis
    using inv by (simp add: rs Run_round_eq [OF read acc] once_inv_def)
qed

lemma once_inv_run: "once_inv fl rs \<Longrightarrow> once_inv fl (fold (Run_round (Some (logged cb))) ticks rs)"
  by (induction ticks arbitrary: rs) (simp_all add: once_inv_round)

text \<open>
  C15: a first-crossing run is finished by the first snapshot it retains. With a
  positive interval, the callback is asked until it retains a snapshot and never
  again afterwards, each request is counted, and the threshold stays at the floor
  until then and is out of reach from then on.
\<close>

theorem one_shot_retains_once:
  assumes "ms \<noteq> 0"
    and "Run (Some (logged cb)) t0 ticks (snd (Sampler_Start ms fl st True True ObservedPeakSampler_init)) ([], t)
      = (sp, th, d, log, t')"
  shows "True \<notin> set (butlast log) \<and> sp_snapshots sp = length log
    \<and> th = (if True \<in> set log then SIZE_MAX else fl)"
proof -
  let ?sp = "snd (Sampler_Start ms fl st True True ObservedPeakSampler_init)"
  have "once_inv fl (?sp, fl, t0, [], t)" "sp_floor_bytes ?sp = fl"
    using assms(1) by (simp_all add: once_inv_def Sampler_Start_def ObservedPeakSampler_init_def Let_def)
  with once_inv_run [of fl "(?sp, fl, t0, [], t)" cb ticks] assms(2) show ?thesis
    by (simp add: Run_def once_inv_def)
qed

definition demo_view :: proc_view where
  "demo_view = \<lparr> pv_status = Some (''VmRSS: 100 kB'', [20]), pv_fd_dir = None,
     pv_maps = demo_maps, pv_gpu_maps = None, pv_smaps = None, pv_ion = None, pv_ion_readable = False,
     pv_dev_kgsl_3d0 = True, pv_dev_kgsl = False, pv_kgsl_node = Inl ENOENT, pv_kgsl_dir = True,
     pv_pid = 1, pv_status_us = 5, pv_fd_us = 6, pv_map_us = 7, pv_gpu_maps_us = 8, pv_gpu_us = 9 \<rparr>"

definition demo_tick :: sampler_tick where
  "demo_tick = \<lparr> tk_view = demo_view, tk_begin_us = 100, tk_read_done_us = 130,
     tk_snapshot_done_us = 150, tk_work_done_us = 160 \<rparr>"

theorem one_shot_retains_once_witness:
  "True \<notin> set (butlast (fst (snd (snd (snd (Run (Some (logged (\<lambda>s t. (True, t)))) 100 [demo_tick, demo_tick]
     (snd (Sampler_Start 5 1000 0 True True ObservedPeakSampler_init)) ([], ())))))))"
proof -
  let ?run = "Run (Some (logged (\<lambda>s t. (True, t)))) 100 [demo_tick, demo_tick]
     (snd (Sampler_Start 5 1000 0 True True ObservedPeakSampler_init)) ([], ())"
  obtain sp th d log t where r: "?run = (sp, th, d, log, t)" by (metis prod_cases5)
  show ?thesis using one_shot_retains_once [OF _ r] by (simp add: r)
qed

section \<open>The gate of the mapping pass\<close>

definition demo_reader :: reader_state where
  "demo_reader = \<lparr> rd_latches = latches_init, rd_inodes = DmaInodeSet_init,
     rd_map_cache = Some (DmaMapCache_init\<lparr> mc_ever_ran := True \<rparr>),
     rd_gpu_cache = Some (GpuMmapCache_init\<lparr> gc_bytes := 1048576, gc_have_read := True \<rparr>) \<rparr>"

lemma demo_rss: "ReadSelfRss (Some (''VmRSS: 100 kB'', [20])) =
    \<lparr> rss_vm_rss_kb = 100, rss_anon_kb = 0, rss_file_kb = 0, rss_shmem_kb = 0, rss_valid = True \<rparr>"
  by (simp add: ReadSelfRss_def c_str_def ReadStatusField_def is_blank_def digit_val_def Let_def)


end
