(* ===== verification/DmaBuf.thy ===== *)
theory DmaBuf
  imports HookSource CText LiveMap
begin

text \<open>
  The device-buffer bookkeeping of the wrappers (namespace \<^verbatim>\<open>DMA_BUF\<close> of
  \<^verbatim>\<open>backtrace/src/malloc_debug.cpp\<close>): the driver requests it recognises, the table
  of dmabuf descriptors, the sizes of ION handles that have no descriptor yet, and
  the reading of \<^verbatim>\<open>/proc/self/fdinfo\<close>. The request codes are those of the driver
  headers under \<^verbatim>\<open>backtrace/driver\<close>.
\<close>

section \<open>Driver requests\<close>

definition IOC_TYPE :: "u32 \<Rightarrow> u32" where
  "IOC_TYPE request = drop_bit 8 request AND 0xff"

definition IOC_NR :: "u32 \<Rightarrow> u32" where
  "IOC_NR request = request AND 0xff"

definition IOC_SIZE :: "u32 \<Rightarrow> u32" where
  "IOC_SIZE request = drop_bit 16 request AND 0x3fff"

definition IOWR :: "u32 \<Rightarrow> u32 \<Rightarrow> u32 \<Rightarrow> u32" where
  "IOWR type nr bytes = push_bit 30 3 OR push_bit 16 bytes OR push_bit 8 type OR nr"

definition ALLOC_HOOK_ION_IOC_MAGIC :: u32 where
  "ALLOC_HOOK_ION_IOC_MAGIC = 0x49"

definition KBASE_IOCTL_MEM_ALLOC :: u32 where
  "KBASE_IOCTL_MEM_ALLOC = IOWR 0x80 5 32"

definition KBASE_IOCTL_MEM_ALLOC_EX :: u32 where
  "KBASE_IOCTL_MEM_ALLOC_EX = IOWR 0x80 59 64"

definition IOCTL_KGSL_GPUOBJ_ALLOC :: u32 where
  "IOCTL_KGSL_GPUOBJ_ALLOC = IOWR 0x09 0x45 48"

definition DMA_HEAP_IOCTL_ALLOC :: u32 where
  "DMA_HEAP_IOCTL_ALLOC = IOWR 0x48 0 24"

definition CAM_MEM_ION_MAP_PA :: u32 where
  "CAM_MEM_ION_MAP_PA = IOWR 0x49 0 88"

definition IsIonRequest :: "u32 \<Rightarrow> u32 \<Rightarrow> u32 \<Rightarrow> bool" where
  "IsIonRequest request nr bytes \<longleftrightarrow>
     IOC_TYPE request = ALLOC_HOOK_ION_IOC_MAGIC \<and> IOC_NR request = nr \<and> IOC_SIZE request = bytes"

definition IsIonLegacyAlloc :: "u32 \<Rightarrow> bool" where
  "IsIonLegacyAlloc request = IsIonRequest request 0 32"

definition IsIonNewAlloc :: "u32 \<Rightarrow> bool" where
  "IsIonNewAlloc request = IsIonRequest request 0 24"

definition IsIonFdRequest :: "u32 \<Rightarrow> u32 \<Rightarrow> bool" where
  "IsIonFdRequest request nr = IsIonRequest request nr 8"

definition IsIonFree :: "u32 \<Rightarrow> bool" where
  "IsIonFree request = IsIonRequest request 1 4"

definition CreatesDmaFd :: "u32 \<Rightarrow> bool" where
  "CreatesDmaFd request \<longleftrightarrow> request = DMA_HEAP_IOCTL_ALLOC \<or> IsIonNewAlloc request
     \<or> IsIonFdRequest request 2 \<or> IsIonFdRequest request 4"

definition CanRegisterDmaFd :: "u32 \<Rightarrow> bool" where
  "CanRegisterDmaFd request \<longleftrightarrow> CreatesDmaFd request \<or> request = CAM_MEM_ION_MAP_PA"

lemmas ion_request_defs = IsIonRequest_def IsIonLegacyAlloc_def IsIonNewAlloc_def IsIonFdRequest_def
  IsIonFree_def IOC_TYPE_def IOC_NR_def IOC_SIZE_def ALLOC_HOOK_ION_IOC_MAGIC_def

lemmas request_codes = KBASE_IOCTL_MEM_ALLOC_def KBASE_IOCTL_MEM_ALLOC_EX_def IOCTL_KGSL_GPUOBJ_ALLOC_def
  DMA_HEAP_IOCTL_ALLOC_def CAM_MEM_ION_MAP_PA_def IOWR_def

section \<open>Descriptors and handles\<close>

record DmaFdInfo =
  df_size :: u64
  df_tracked :: bool

record DmaState =
  dma_fds :: "(int, DmaFdInfo) umap"
  pending_ion_allocations :: "(u64, u64) umap"

definition DmaState_init :: DmaState where
  "DmaState_init = \<lparr> dma_fds = [], pending_ion_allocations = [] \<rparr>"

definition IonHandleKey :: "int \<Rightarrow> int \<Rightarrow> u64" where
  "IonHandleKey ion_fd handle = push_bit 32 (ucast (of_int ion_fd :: u32)) OR ucast (of_int handle :: u32)"

definition ForgetDmaFd :: "int \<Rightarrow> DmaState \<Rightarrow> DmaState" where
  "ForgetDmaFd fd ds = ds\<lparr> dma_fds := AList.delete fd (dma_fds ds) \<rparr>"

text \<open>\<^verbatim>\<open>RegisterDmaFd\<close> answers whether it registered, and whether the caller should track.\<close>

definition RegisterDmaFd :: "int \<Rightarrow> u64 \<Rightarrow> DmaState \<Rightarrow> bool \<times> bool \<times> DmaState" where
  "RegisterDmaFd fd bytes ds =
     (if fd < 0 \<or> bytes = 0 then (False, False, ds)
      else case map_of (dma_fds ds) fd of
        None \<Rightarrow> (True, True, ds\<lparr> dma_fds := AList.update fd \<lparr> df_size = bytes, df_tracked = False \<rparr> (dma_fds ds) \<rparr>)
      | Some e \<Rightarrow> (True, \<not> df_tracked e, ds\<lparr> dma_fds := AList.update fd (e\<lparr> df_size := bytes \<rparr>) (dma_fds ds) \<rparr>))"

definition LookupDmaFd :: "int \<Rightarrow> DmaState \<Rightarrow> (u64 \<times> bool) option" where
  "LookupDmaFd fd ds = map_option (\<lambda>e. (df_size e, df_tracked e)) (map_of (dma_fds ds) fd)"

definition MarkDmaFdTracked :: "int \<Rightarrow> DmaState \<Rightarrow> DmaState" where
  "MarkDmaFdTracked fd ds =
     (case map_of (dma_fds ds) fd of
        None \<Rightarrow> ds
      | Some e \<Rightarrow> ds\<lparr> dma_fds := AList.update fd (e\<lparr> df_tracked := True \<rparr>) (dma_fds ds) \<rparr>)"

definition TakeDmaFd :: "int \<Rightarrow> DmaState \<Rightarrow> (u64 \<times> bool) option \<times> DmaState" where
  "TakeDmaFd fd ds =
     (case map_of (dma_fds ds) fd of
        None \<Rightarrow> (None, ds)
      | Some e \<Rightarrow> (Some (df_size e, df_tracked e), ds\<lparr> dma_fds := AList.delete fd (dma_fds ds) \<rparr>))"

definition RecordIonAllocation :: "int \<Rightarrow> int \<Rightarrow> u64 \<Rightarrow> DmaState \<Rightarrow> DmaState" where
  "RecordIonAllocation ion_fd handle bytes ds =
     (if bytes = 0 then ds
      else ds\<lparr> pending_ion_allocations :=
                AList.update (IonHandleKey ion_fd handle) bytes (pending_ion_allocations ds) \<rparr>)"

definition LookupIonAllocation :: "int \<Rightarrow> int \<Rightarrow> DmaState \<Rightarrow> u64" where
  "LookupIonAllocation ion_fd handle ds =
     (case map_of (pending_ion_allocations ds) (IonHandleKey ion_fd handle) of None \<Rightarrow> 0 | Some n \<Rightarrow> n)"

definition DropIonAllocation :: "int \<Rightarrow> int \<Rightarrow> DmaState \<Rightarrow> DmaState" where
  "DropIonAllocation ion_fd handle ds =
     ds\<lparr> pending_ion_allocations := AList.delete (IonHandleKey ion_fd handle) (pending_ion_allocations ds) \<rparr>"

definition DropIonAllocationsForFd :: "int \<Rightarrow> DmaState \<Rightarrow> DmaState" where
  "DropIonAllocationsForFd ion_fd ds =
     ds\<lparr> pending_ion_allocations :=
          filter (\<lambda>(k, n). ucast (drop_bit 32 k) \<noteq> (of_int ion_fd :: u32)) (pending_ion_allocations ds) \<rparr>"

section \<open>Recognising a dmabuf\<close>

text \<open>
  The lines of \<^verbatim>\<open>/proc/self/fdinfo/<fd>\<close> as \<^verbatim>\<open>getline\<close> returns them, absent when the
  file cannot be opened, and whether \<^verbatim>\<open>stat\<close> of the descriptor's path succeeds.
\<close>

record fd_info =
  fi_lines :: "string list option"
  fi_stat_ok :: bool

record fdinfo_scan =
  fs_inode :: u64
  fs_size :: u64
  fs_dmabuf :: bool

definition fdinfo_line :: "string \<Rightarrow> fdinfo_scan \<Rightarrow> fdinfo_scan" where
  "fdinfo_line line s =
     (if has_prefix ''ino:'' line then s\<lparr> fs_inode := fst (strtoull 10 (drop 4 line)) \<rparr>
      else if has_prefix ''size:'' line then s\<lparr> fs_size := fst (strtoull 10 (drop 5 line)) \<rparr>
      else if has_prefix ''exp_name:'' line then s\<lparr> fs_dmabuf := True \<rparr>
      else s)"

text \<open>The answer, and the value left in \<^verbatim>\<open>*size\<close>, which starts as the caller's.\<close>

definition is_dma_buf :: "fd_info \<Rightarrow> int \<Rightarrow> u64 \<Rightarrow> DmaState \<Rightarrow> bool \<times> u64" where
  "is_dma_buf info fd bytes ds =
     (case LookupDmaFd fd ds of
        Some (n, tracked) \<Rightarrow> (True, n)
      | None \<Rightarrow>
          (case fi_lines info of
             None \<Rightarrow> (False, bytes)
           | Some ls \<Rightarrow>
               let s = fold fdinfo_line ls \<lparr> fs_inode = - 1, fs_size = bytes, fs_dmabuf = False \<rparr>
               in if \<not> fs_dmabuf s then (False, fs_size s)
                  else if fs_inode s = - 1 \<and> \<not> fi_stat_ok info then (False, fs_size s)
                  else (fs_size s > 0, fs_size s)))"

section \<open>Requests that create buffers\<close>

text \<open>
  What the argument of a request holds, read as each of the structures the code
  casts it to.
\<close>

record ioctl_data =
  id_heap_len :: u64
  id_heap_fd :: int
  id_cam_memID :: int
  id_alloc_len :: u64
  id_alloc_handle :: int
  id_new_len :: u64
  id_new_fd :: int
  id_fd_handle :: int
  id_fd_fd :: int
  id_handle :: int

definition handle_dma_node ::
    "(int \<Rightarrow> fd_info) \<Rightarrow> u32 \<Rightarrow> ioctl_data option \<Rightarrow> DmaState \<Rightarrow> PendingIoctlAllocation \<Rightarrow> int \<times> u64
       \<Rightarrow> bool \<times> (int \<times> u64) \<times> PendingIoctlAllocation" where
  "handle_dma_node fdinfo request arg ds pending out =
     (if request = KBASE_IOCTL_MEM_ALLOC \<or> request = KBASE_IOCTL_MEM_ALLOC_EX \<or> request = IOCTL_KGSL_GPUOBJ_ALLOC
      then (False, out, Mark request pending)
      else if request = DMA_HEAP_IOCTL_ALLOC then
        (case arg of
           None \<Rightarrow> (False, out, pending)
         | Some a \<Rightarrow> (id_heap_fd a \<ge> 0 \<and> id_heap_len a > 0, (id_heap_fd a, id_heap_len a), pending))
      else if request = CAM_MEM_ION_MAP_PA then
        (case arg of
           None \<Rightarrow> (False, out, pending)
         | Some a \<Rightarrow>
             let fd = id_cam_memID a; (ok, n) = is_dma_buf (fdinfo fd) fd (snd out) ds
             in (ok, (fd, n), pending))
      else (False, out, pending))"

definition HandleIonIoctl ::
    "int \<Rightarrow> u32 \<Rightarrow> ioctl_data option \<Rightarrow> DmaState \<Rightarrow> int \<times> u64 \<Rightarrow> bool \<times> (int \<times> u64) \<times> DmaState" where
  "HandleIonIoctl ion_fd request arg ds out =
     (case arg of
        None \<Rightarrow> (False, out, ds)
      | Some a \<Rightarrow>
          if IOC_TYPE request \<noteq> ALLOC_HOOK_ION_IOC_MAGIC then (False, out, ds)
          else if IsIonLegacyAlloc request then
            (False, out, RecordIonAllocation ion_fd (id_alloc_handle a) (id_alloc_len a) ds)
          else if IsIonNewAlloc request then
            (id_new_fd a \<ge> 0 \<and> id_new_len a > 0, (id_new_fd a, id_new_len a), ds)
          else if IsIonFdRequest request 2 \<or> IsIonFdRequest request 4 then
            let n = LookupIonAllocation ion_fd (id_fd_handle a) ds
            in (id_fd_fd a \<ge> 0 \<and> n > 0, (id_fd_fd a, n), ds)
          else if IsIonFdRequest request 5 then (False, out, ds)
          else if IsIonFree request then (False, out, DropIonAllocation ion_fd (id_handle a) ds)
          else (False, out, ds))"

definition MAP_SHARED :: u32 where
  "MAP_SHARED = 1"

text \<open>Whether a mapping of \<^verbatim>\<open>fd\<close> is to be recorded, the size, and the table left behind.\<close>

definition ShouldTrackDmaMapping :: "fd_info \<Rightarrow> int \<Rightarrow> u32 \<Rightarrow> DmaState \<Rightarrow> bool \<times> u64 \<times> DmaState" where
  "ShouldTrackDmaMapping info fd flags ds =
     (if fd < 0 \<or> flags AND MAP_SHARED = 0 then (False, 0, ds)
      else case LookupDmaFd fd ds of
        Some (n, tracked) \<Rightarrow> (\<not> tracked, n, ds)
      | None \<Rightarrow>
          let (ok, n) = is_dma_buf info fd 0 ds
          in if \<not> ok then (False, n, ds)
             else let (registered, should_track, ds) = RegisterDmaFd fd n ds
                  in (registered \<and> should_track, n, ds))"

end
