(* ===== verification/HookOps.thy ===== *)
theory HookOps
  imports Tracker DmaBuf
begin

text \<open>
  The wrappers behind the interposed calls (\<^verbatim>\<open>backtrace/src/malloc_debug.cpp\<close>). The
  C library and the kernel are a parameter: a record of operations on a state
  that the model does not look into. The tracker, the descriptor table, the
  pending GPU request of the calling thread and that state make up \<^verbatim>\<open>hook_state\<close>;
  \<^verbatim>\<open>call_env\<close> holds what a call finds around it.
\<close>

section \<open>The surroundings of a call\<close>

record 'h libc =
  lc_malloc :: "u64 \<Rightarrow> 'h \<Rightarrow> ptr \<times> 'h"
  lc_free :: "ptr \<Rightarrow> 'h \<Rightarrow> 'h"
  lc_realloc :: "ptr \<Rightarrow> u64 \<Rightarrow> 'h \<Rightarrow> ptr \<times> 'h"
  lc_calloc :: "u64 \<Rightarrow> u64 \<Rightarrow> 'h \<Rightarrow> ptr \<times> 'h"
  lc_memalign :: "u64 \<Rightarrow> u64 \<Rightarrow> 'h \<Rightarrow> ptr \<times> 'h"
  lc_aligned_alloc :: "u64 \<Rightarrow> u64 \<Rightarrow> 'h \<Rightarrow> ptr \<times> 'h"
  lc_posix_memalign :: "u64 \<Rightarrow> u64 \<Rightarrow> 'h \<Rightarrow> int \<times> ptr \<times> 'h"
  lc_mmap :: "ptr \<Rightarrow> u64 \<Rightarrow> u32 \<Rightarrow> u32 \<Rightarrow> int \<Rightarrow> int \<Rightarrow> 'h \<Rightarrow> ptr \<times> 'h"
  lc_mmap64 :: "(ptr \<Rightarrow> u64 \<Rightarrow> u32 \<Rightarrow> u32 \<Rightarrow> int \<Rightarrow> int \<Rightarrow> 'h \<Rightarrow> ptr \<times> 'h) option"
  lc_munmap :: "ptr \<Rightarrow> u64 \<Rightarrow> 'h \<Rightarrow> int \<times> 'h"
  lc_mremap :: "ptr \<Rightarrow> u64 \<Rightarrow> u64 \<Rightarrow> u32 \<Rightarrow> ptr \<Rightarrow> 'h \<Rightarrow> ptr \<times> 'h"
  lc_ioctl :: "int \<Rightarrow> u64 \<Rightarrow> 'h \<Rightarrow> int \<times> ioctl_data option \<times> 'h"
  lc_fdinfo :: "'h \<Rightarrow> int \<Rightarrow> fd_info"
  lc_errno :: "'h \<Rightarrow> int"
  lc_set_errno :: "int \<Rightarrow> 'h \<Rightarrow> 'h"

record call_env =
  ce_dc :: debug_ctx
  ce_peak :: peak_env
  ce_capture :: capture_fn
  ce_tv :: timeval
  ce_slot :: disable_slot
  ce_async_worker :: bool
  ce_dma_capture :: bool

record 'h hook_state =
  hk_sys :: 'h
  hk_pointer :: PointerData
  hk_dma :: DmaState
  hk_pending :: PendingIoctlAllocation

definition ENOMEM :: int where "ENOMEM = 12"
definition EINVAL :: int where "EINVAL = 22"
definition EBADF :: int where "EBADF = 9"

definition TrackPointers :: "call_env \<Rightarrow> bool" where
  "TrackPointers ce = has_option TRACK_ALLOCS (dc_config (ce_dc ce))"

definition DebugCallsDisabledOrAsyncWorker :: "call_env \<Rightarrow> bool" where
  "DebugCallsDisabledOrAsyncWorker ce \<longleftrightarrow> DebugCallsDisabled (ce_slot ce) \<or> ce_async_worker ce"

definition hook_ShouldTrackAllocation :: "call_env \<Rightarrow> u64 \<Rightarrow> MemType \<Rightarrow> bool \<times> u64" where
  "hook_ShouldTrackAllocation ce requested_size type =
     (if \<not> TrackPointers ce then (False, requested_size) else ShouldTrackAllocation requested_size type)"

text \<open>One operation of the C library, and the tracker operations of a call.\<close>

definition sys_call :: "('h \<Rightarrow> 'r \<times> 'h) \<Rightarrow> 'h hook_state \<Rightarrow> 'r \<times> 'h hook_state" where
  "sys_call f st = (let (r, h) = f (hk_sys st) in (r, st\<lparr> hk_sys := h \<rparr>))"

definition set_errno :: "'h libc \<Rightarrow> int \<Rightarrow> 'h hook_state \<Rightarrow> 'h hook_state" where
  "set_errno lc e st = st\<lparr> hk_sys := lc_set_errno lc e (hk_sys st) \<rparr>"

definition track_add :: "call_env \<Rightarrow> ptr \<Rightarrow> u64 \<Rightarrow> u64 \<Rightarrow> MemType \<Rightarrow> 'h hook_state \<Rightarrow> 'h hook_state" where
  "track_add ce p n t ty st = st\<lparr> hk_pointer :=
     Add (ce_dc ce) (ce_peak ce) (ce_capture ce) (ce_tv ce) p n t ty (hk_pointer st) \<rparr>"

definition track_remove :: "call_env \<Rightarrow> ptr \<Rightarrow> 'h hook_state \<Rightarrow> 'h hook_state" where
  "track_remove ce p st = st\<lparr> hk_pointer := Remove (ce_dc ce) p (hk_pointer st) \<rparr>"

definition fd_ptr :: "int \<Rightarrow> ptr" where
  "fd_ptr fd = of_int fd"

section \<open>Allocation\<close>

text \<open>A successful allocation is recorded when pointers are tracked.\<close>

definition track_alloc :: "call_env \<Rightarrow> u64 \<Rightarrow> u64 \<Rightarrow> ptr \<times> 'h hook_state \<Rightarrow> ptr \<times> 'h hook_state" where
  "track_alloc ce requested_size tracked_size = (\<lambda>(result, st).
     (result, if AllocationSucceeded result \<and> TrackPointers ce
              then track_add ce result requested_size tracked_size HOST st else st))"

definition InternalMalloc :: "call_env \<Rightarrow> 'h libc \<Rightarrow> u64 \<Rightarrow> u64 \<Rightarrow> 'h hook_state \<Rightarrow> ptr \<times> 'h hook_state" where
  "InternalMalloc ce lc requested_size tracked_size st =
     track_alloc ce requested_size tracked_size (sys_call (lc_malloc lc requested_size) st)"

definition InternalFree :: "call_env \<Rightarrow> 'h libc \<Rightarrow> ptr \<Rightarrow> 'h hook_state \<Rightarrow> 'h hook_state" where
  "InternalFree ce lc p st =
     (let st = (if TrackPointers ce then track_remove ce p st else st)
      in st\<lparr> hk_sys := lc_free lc p (hk_sys st) \<rparr>)"

definition debug_malloc :: "call_env \<Rightarrow> 'h libc \<Rightarrow> u64 \<Rightarrow> 'h hook_state \<Rightarrow> ptr \<times> 'h hook_state" where
  "debug_malloc ce lc n st =
     (if DebugCallsDisabledOrAsyncWorker ce then sys_call (lc_malloc lc n) st
      else if n > MaxSize then (nullptr, set_errno lc ENOMEM st)
      else
        let (track, tracked_size) = hook_ShouldTrackAllocation ce n HOST
        in if \<not> track then sys_call (lc_malloc lc n) st
           else InternalMalloc ce lc n tracked_size st)"

definition debug_free :: "call_env \<Rightarrow> 'h libc \<Rightarrow> ptr \<Rightarrow> 'h hook_state \<Rightarrow> 'h hook_state" where
  "debug_free ce lc p st =
     (if DebugCallsDisabledOrAsyncWorker ce \<or> p = nullptr then st\<lparr> hk_sys := lc_free lc p (hk_sys st) \<rparr>
      else InternalFree ce lc p st)"

definition take_entry :: "call_env \<Rightarrow> ptr \<Rightarrow> 'h hook_state \<Rightarrow> PointerInfoType option \<times> 'h hook_state" where
  "take_entry ce p st =
     (if TrackPointers ce
      then let (previous, t) = TakeEntry p (hk_pointer st) in (previous, st\<lparr> hk_pointer := t \<rparr>)
      else (None, st))"

text \<open>The part of \<^verbatim>\<open>debug_realloc\<close> that resizes a block: the record is detached first.\<close>

definition realloc_block :: "call_env \<Rightarrow> 'h libc \<Rightarrow> ptr \<Rightarrow> u64 \<Rightarrow> 'h hook_state \<Rightarrow> ptr \<times> 'h hook_state" where
  "realloc_block ce lc p n st =
     (let (track, tracked_size) = hook_ShouldTrackAllocation ce n HOST;
          (previous, st) = take_entry ce p st;
          (new_pointer, st) = sys_call (lc_realloc lc p n) st
      in if \<not> AllocationSucceeded new_pointer
         then (new_pointer,
               case previous of None \<Rightarrow> st
                 | Some i \<Rightarrow> st\<lparr> hk_pointer := RestoreEntry p i (hk_pointer st) \<rparr>)
         else
           let st = (case previous of None \<Rightarrow> st
                       | Some i \<Rightarrow> st\<lparr> hk_pointer := TraceEntryReleased (ce_dc ce) p i (hk_pointer st) \<rparr>);
               st = (if track \<and> TrackPointers ce then track_add ce new_pointer n tracked_size HOST st else st)
           in (new_pointer,
               case previous of None \<Rightarrow> st
                 | Some i \<Rightarrow> st\<lparr> hk_pointer :=
                     RemoveBacktrace (dc_config (ce_dc ce)) (pi_hash_index i) (hk_pointer st) \<rparr>))"

definition debug_realloc :: "call_env \<Rightarrow> 'h libc \<Rightarrow> ptr \<Rightarrow> u64 \<Rightarrow> 'h hook_state \<Rightarrow> ptr \<times> 'h hook_state" where
  "debug_realloc ce lc p n st =
     (if DebugCallsDisabledOrAsyncWorker ce then sys_call (lc_realloc lc p n) st
      else if p = nullptr then
        (if n > MaxSize then (nullptr, set_errno lc ENOMEM st)
         else
           let (track, tracked_size) = hook_ShouldTrackAllocation ce n HOST
           in if \<not> track then sys_call (lc_realloc lc nullptr n) st
              else InternalMalloc ce lc n tracked_size st)
      else if n = 0 then (nullptr, InternalFree ce lc p st)
      else if n > MaxSize then (nullptr, set_errno lc ENOMEM st)
      else realloc_block ce lc p n st)"

definition debug_calloc :: "call_env \<Rightarrow> 'h libc \<Rightarrow> u64 \<Rightarrow> u64 \<Rightarrow> 'h hook_state \<Rightarrow> ptr \<times> 'h hook_state" where
  "debug_calloc ce lc nmemb bytes st =
     (if DebugCallsDisabledOrAsyncWorker ce then sys_call (lc_calloc lc nmemb bytes) st
      else if unat nmemb * unat bytes \<ge> 2 ^ 64 then (nullptr, set_errno lc ENOMEM st)
      else
        let n = nmemb * bytes;
            (track, tracked_size) = hook_ShouldTrackAllocation ce n HOST
        in if \<not> track then sys_call (lc_calloc lc nmemb bytes) st
           else track_alloc ce n tracked_size (sys_call (lc_calloc lc nmemb bytes) st))"

definition debug_memalign :: "call_env \<Rightarrow> 'h libc \<Rightarrow> u64 \<Rightarrow> u64 \<Rightarrow> 'h hook_state \<Rightarrow> ptr \<times> 'h hook_state" where
  "debug_memalign ce lc alignment bytes st =
     (if DebugCallsDisabledOrAsyncWorker ce then sys_call (lc_memalign lc alignment bytes) st
      else if bytes > MaxSize then (nullptr, set_errno lc ENOMEM st)
      else
        let (track, tracked_size) = hook_ShouldTrackAllocation ce bytes HOST
        in if \<not> track then sys_call (lc_memalign lc alignment bytes) st
           else track_alloc ce bytes tracked_size (sys_call (lc_memalign lc alignment bytes) st))"

definition debug_aligned_alloc :: "call_env \<Rightarrow> 'h libc \<Rightarrow> u64 \<Rightarrow> u64 \<Rightarrow> 'h hook_state \<Rightarrow> ptr \<times> 'h hook_state" where
  "debug_aligned_alloc ce lc alignment bytes st =
     (if DebugCallsDisabledOrAsyncWorker ce then sys_call (lc_aligned_alloc lc alignment bytes) st
      else if bytes > MaxSize then (nullptr, set_errno lc ENOMEM st)
      else
        let (track, tracked_size) = hook_ShouldTrackAllocation ce bytes HOST
        in if \<not> track then sys_call (lc_aligned_alloc lc alignment bytes) st
           else track_alloc ce bytes tracked_size (sys_call (lc_aligned_alloc lc alignment bytes) st))"

definition powerof2 :: "u64 \<Rightarrow> bool" where
  "powerof2 x \<longleftrightarrow> (x - 1) AND x = 0"

text \<open>The result code and the pointer stored, if any.\<close>

definition debug_posix_memalign ::
    "call_env \<Rightarrow> 'h libc \<Rightarrow> u64 \<Rightarrow> u64 \<Rightarrow> 'h hook_state \<Rightarrow> (int \<times> ptr option) \<times> 'h hook_state" where
  "debug_posix_memalign ce lc alignment n st =
     (let call = sys_call (\<lambda>h. let (r, p, h) = lc_posix_memalign lc alignment n h
                               in ((r, if r = 0 then Some p else None), h))
      in if DebugCallsDisabledOrAsyncWorker ce then call st
         else if alignment < 8 \<or> \<not> powerof2 alignment then ((EINVAL, None), st)
         else if n > MaxSize then ((ENOMEM, None), st)
         else
           let (track, tracked_size) = hook_ShouldTrackAllocation ce n HOST
           in if \<not> track then call st
              else
                let ((r, mem), st) = call st
                in ((r, mem),
                    case mem of
                      Some p \<Rightarrow> if r = 0 \<and> p \<noteq> nullptr \<and> TrackPointers ce
                                then track_add ce p n tracked_size HOST st else st
                    | None \<Rightarrow> st))"

section \<open>Mappings\<close>

definition TrackMmapResult ::
    "call_env \<Rightarrow> 'h libc \<Rightarrow> ptr \<Rightarrow> u64 \<Rightarrow> u32 \<Rightarrow> int \<Rightarrow> bool \<Rightarrow> 'h hook_state \<Rightarrow> 'h hook_state" where
  "TrackMmapResult ce lc result n flags fd pending_ioctl st =
     (if \<not> TrackPointers ce then st
      else case ClassifyMmap result flags fd pending_ioctl of
        CaptureAnonymous \<Rightarrow> track_add ce result n n MMAP st
      | CapturePendingIoctl \<Rightarrow> track_add ce result n n DMA st
      | CaptureNone \<Rightarrow>
          if ce_dma_capture ce \<and> result \<noteq> MAP_FAILED then
            let (track, dma_size, ds) =
                  ShouldTrackDmaMapping (lc_fdinfo lc (hk_sys st) fd) fd flags (hk_dma st);
                st = st\<lparr> hk_dma := ds \<rparr>
            in if track
               then (track_add ce (fd_ptr fd) dma_size dma_size DMA st)
                      \<lparr> hk_dma := MarkDmaFdTracked fd (hk_dma st) \<rparr>
               else st
          else st)"

definition map_and_track ::
    "call_env \<Rightarrow> 'h libc \<Rightarrow> ('h \<Rightarrow> ptr \<times> 'h) \<Rightarrow> u64 \<Rightarrow> u32 \<Rightarrow> int \<Rightarrow> 'h hook_state \<Rightarrow> ptr \<times> 'h hook_state" where
  "map_and_track ce lc call n flags fd st =
     (if DebugCallsDisabledOrAsyncWorker ce then sys_call call st
      else
        let (pending_ioctl, st) =
              (if ce_dma_capture ce
               then let (r, p) = Take (hk_pending st) in (r \<noteq> 0, st\<lparr> hk_pending := p \<rparr>)
               else (False, st))
        in if n > MaxSize then (MAP_FAILED, set_errno lc ENOMEM st)
           else
             let (result, st) = sys_call call st
             in (result, TrackMmapResult ce lc result n flags fd pending_ioctl st))"

definition CallMmap64 ::
    "'h libc \<Rightarrow> ptr \<Rightarrow> u64 \<Rightarrow> u32 \<Rightarrow> u32 \<Rightarrow> int \<Rightarrow> int \<Rightarrow> 'h \<Rightarrow> ptr \<times> 'h" where
  "CallMmap64 lc = (case lc_mmap64 lc of Some f \<Rightarrow> f | None \<Rightarrow> lc_mmap lc)"

definition debug_mmap64 ::
    "call_env \<Rightarrow> 'h libc \<Rightarrow> ptr \<Rightarrow> u64 \<Rightarrow> u32 \<Rightarrow> u32 \<Rightarrow> int \<Rightarrow> int \<Rightarrow> 'h hook_state \<Rightarrow> ptr \<times> 'h hook_state" where
  "debug_mmap64 ce lc addr n prot flags fd offset st =
     map_and_track ce lc (CallMmap64 lc addr n prot flags fd offset) n flags fd st"

definition debug_mmap ::
    "call_env \<Rightarrow> 'h libc \<Rightarrow> ptr \<Rightarrow> u64 \<Rightarrow> u32 \<Rightarrow> u32 \<Rightarrow> int \<Rightarrow> int \<Rightarrow> 'h hook_state \<Rightarrow> ptr \<times> 'h hook_state" where
  "debug_mmap ce lc addr n prot flags fd offset st =
     map_and_track ce lc (lc_mmap lc addr n prot flags fd offset) n flags fd st"

definition debug_munmap :: "call_env \<Rightarrow> 'h libc \<Rightarrow> ptr \<Rightarrow> u64 \<Rightarrow> 'h hook_state \<Rightarrow> int \<times> 'h hook_state" where
  "debug_munmap ce lc addr n st =
     (if DebugCallsDisabledOrAsyncWorker ce then sys_call (lc_munmap lc addr n) st
      else
        let (previous, st) = take_entry ce addr st;
            (ret, st) = sys_call (lc_munmap lc addr n) st
        in (ret,
            case previous of
              None \<Rightarrow> st
            | Some i \<Rightarrow>
                if SyscallSucceeded ret
                then st\<lparr> hk_pointer := RemoveBacktrace (dc_config (ce_dc ce)) (pi_hash_index i)
                          (TraceEntryReleased (ce_dc ce) addr i (hk_pointer st)) \<rparr>
                else st\<lparr> hk_pointer := RestoreEntry addr i (hk_pointer st) \<rparr>))"

definition ALLOC_HOOK_MREMAP_DONTUNMAP :: u32 where
  "ALLOC_HOOK_MREMAP_DONTUNMAP = 4"

definition debug_mremap ::
    "call_env \<Rightarrow> 'h libc \<Rightarrow> ptr \<Rightarrow> u64 \<Rightarrow> u64 \<Rightarrow> u32 \<Rightarrow> ptr \<Rightarrow> 'h hook_state \<Rightarrow> ptr \<times> 'h hook_state" where
  "debug_mremap ce lc old_addr old_size new_size flags new_addr st =
     (let call = sys_call (lc_mremap lc old_addr old_size new_size flags new_addr)
      in if DebugCallsDisabledOrAsyncWorker ce then call st
         else if new_size > MaxSize then (MAP_FAILED, set_errno lc ENOMEM st)
         else
           let (result, st) = call st
           in (result,
               if MappingSucceeded result \<and> TrackPointers ce then
                 (if flags AND ALLOC_HOOK_MREMAP_DONTUNMAP \<noteq> 0
                  then track_add ce result new_size new_size MMAP st
                  else st\<lparr> hk_pointer := Remap (ce_dc ce) (ce_peak ce) old_addr result new_size (hk_pointer st) \<rparr>)
               else st))"

section \<open>Driver calls and closes\<close>

text \<open>A recognised buffer descriptor replaces what an older descriptor of that number left.\<close>

definition register_node :: "call_env \<Rightarrow> u32 \<Rightarrow> int \<Rightarrow> u64 \<Rightarrow> 'h hook_state \<Rightarrow> 'h hook_state" where
  "register_node ce cmd node_fd node_size st =
     (let st = (if CreatesDmaFd cmd then
                  let (old, ds) = TakeDmaFd node_fd (hk_dma st);
                      st = st\<lparr> hk_dma := ds \<rparr>
                  in case old of
                       Some (n, True) \<Rightarrow> track_remove ce (fd_ptr node_fd) st
                     | _ \<Rightarrow> st
                else st);
          (registered, should_track, ds) = RegisterDmaFd node_fd node_size (hk_dma st);
          st = st\<lparr> hk_dma := ds \<rparr>
      in if registered \<and> should_track
         then (track_add ce (fd_ptr node_fd) node_size node_size DMA st)
                \<lparr> hk_dma := MarkDmaFdTracked node_fd (hk_dma st) \<rparr>
         else st)"

definition debug_ioctl :: "call_env \<Rightarrow> 'h libc \<Rightarrow> int \<Rightarrow> u64 \<Rightarrow> 'h hook_state \<Rightarrow> int \<times> 'h hook_state" where
  "debug_ioctl ce lc fd request st =
     (let call = sys_call (\<lambda>h. let (r, arg, h) = lc_ioctl lc fd request h in ((r, arg), h))
      in if \<not> ce_dma_capture ce \<or> DebugCallsDisabledOrAsyncWorker ce
         then (let ((r, arg), st) = call st in (r, st))
         else
           let cmd = ucast request :: u32;
               registers_fd = (TrackPointers ce \<and> CanRegisterDmaFd cmd);
               ((result, arg), st) = call st;
               saved_errno = lc_errno lc (hk_sys st);
               st = (if SyscallSucceeded result \<and> TrackPointers ce then
                       let (ion, out, ds) = HandleIonIoctl fd cmd arg (hk_dma st) (- 1, 0);
                           st = st\<lparr> hk_dma := ds \<rparr>;
                           (recognized, out, pending) =
                             (if ion then (True, out, hk_pending st)
                              else handle_dma_node (lc_fdinfo lc (hk_sys st)) cmd arg (hk_dma st) (hk_pending st) out);
                           st = st\<lparr> hk_pending := pending \<rparr>
                       in if recognized \<and> registers_fd then register_node ce cmd (fst out) (snd out) st else st
                     else st)
           in (result, set_errno lc saved_errno st))"

text \<open>The close itself is the caller's: the raw system call or the checked one of bionic.\<close>

definition debug_close_with ::
    "call_env \<Rightarrow> 'h libc \<Rightarrow> (int \<Rightarrow> 'h \<Rightarrow> int \<times> 'h) \<Rightarrow> int \<Rightarrow> 'h hook_state \<Rightarrow> int \<times> 'h hook_state" where
  "debug_close_with ce lc operation fd st =
     (if \<not> ce_dma_capture ce \<or> DebugCallsDisabledOrAsyncWorker ce \<or> \<not> TrackPointers ce
      then sys_call (operation fd) st
      else
        let (result, st) = sys_call (operation fd) st;
            saved_errno = lc_errno lc (hk_sys st);
            st = (if result = 0 \<or> saved_errno \<noteq> EBADF then
                    let (old, ds) = TakeDmaFd fd (hk_dma st);
                        st = st\<lparr> hk_dma := ds \<rparr>;
                        st = (case old of
                                Some (n, True) \<Rightarrow> track_remove ce (fd_ptr fd) st
                              | _ \<Rightarrow> st)
                    in st\<lparr> hk_dma := DropIonAllocationsForFd fd (hk_dma st) \<rparr>
                  else st)
        in (result, set_errno lc saved_errno st))"

end
