(* ===== verification/HookTracking.thy ===== *)
theory HookTracking
  imports HookOps
begin

text \<open>
  What the wrappers guarantee: below the size limit they answer what the C library
  or the kernel answered and leave it in the same state, and every sequence of them
  keeps the tracker's accounting exact.
\<close>

section \<open>Transparency\<close>

lemma hk_sys_track [simp]:
  "hk_sys (track_add ce p n t ty st) = hk_sys st" "hk_sys (track_remove ce p st) = hk_sys st"
  "hk_dma (track_add ce p n t ty st) = hk_dma st" "hk_dma (track_remove ce p st) = hk_dma st"
  "hk_pending (track_add ce p n t ty st) = hk_pending st"
  by (simp_all add: track_add_def track_remove_def)

lemma sys_call_sel [simp]:
  "fst (sys_call f st) = fst (f (hk_sys st))" "hk_sys (snd (sys_call f st)) = snd (f (hk_sys st))"
  "hk_pointer (snd (sys_call f st)) = hk_pointer st" "hk_dma (snd (sys_call f st)) = hk_dma st"
  by (simp_all add: sys_call_def split_beta)

lemma track_alloc_sel [simp]:
  "fst (track_alloc ce n t r) = fst r" "hk_sys (snd (track_alloc ce n t r)) = hk_sys (snd r)"
  by (simp_all add: track_alloc_def split_beta)

lemma take_entry_sys [simp]: "hk_sys (snd (take_entry ce p st)) = hk_sys st"
  by (simp add: take_entry_def split_beta)

lemma realloc_block_sel:
  "fst (realloc_block ce lc p n st) = fst (lc_realloc lc p n (hk_sys st))"
  "hk_sys (snd (realloc_block ce lc p n st)) = snd (lc_realloc lc p n (hk_sys st))"
  by (simp_all add: realloc_block_def split_beta Let_def split: option.splits)

lemma hk_sys_TrackMmapResult [simp]: "hk_sys (TrackMmapResult ce lc r n flags fd b st) = hk_sys st"
  by (simp add: TrackMmapResult_def split_beta Let_def split: MmapCaptureKind.splits)

lemma map_and_track_sel:
  "n \<le> MaxSize \<Longrightarrow> fst (map_and_track ce lc call n flags fd st) = fst (call (hk_sys st))"
  "n \<le> MaxSize \<Longrightarrow> hk_sys (snd (map_and_track ce lc call n flags fd st)) = snd (call (hk_sys st))"
  by (simp_all add: map_and_track_def split_beta Let_def not_less [symmetric])


section \<open>Every sequence of calls keeps the accounting\<close>

datatype hook_call =
    Malloc u64 | Free ptr | Realloc ptr u64 | Calloc u64 u64 | Memalign u64 u64 | AlignedAlloc u64 u64
  | PosixMemalign u64 u64 | Mmap ptr u64 u32 u32 int int | Mmap64 ptr u64 u32 u32 int int
  | Munmap ptr u64 | Mremap ptr u64 u64 u32 ptr | Ioctl int u64 | Close int

fun hook_step :: "call_env \<Rightarrow> 'h libc \<Rightarrow> (int \<Rightarrow> 'h \<Rightarrow> int \<times> 'h) \<Rightarrow> hook_call \<Rightarrow> 'h hook_state \<Rightarrow> 'h hook_state" where
  "hook_step ce lc op (Malloc n) st = snd (debug_malloc ce lc n st)"
| "hook_step ce lc op (Free p) st = debug_free ce lc p st"
| "hook_step ce lc op (Realloc p n) st = snd (debug_realloc ce lc p n st)"
| "hook_step ce lc op (Calloc m n) st = snd (debug_calloc ce lc m n st)"
| "hook_step ce lc op (Memalign a n) st = snd (debug_memalign ce lc a n st)"
| "hook_step ce lc op (AlignedAlloc a n) st = snd (debug_aligned_alloc ce lc a n st)"
| "hook_step ce lc op (PosixMemalign a n) st = snd (debug_posix_memalign ce lc a n st)"
| "hook_step ce lc op (Mmap p n prot flags fd off) st = snd (debug_mmap ce lc p n prot flags fd off st)"
| "hook_step ce lc op (Mmap64 p n prot flags fd off) st = snd (debug_mmap64 ce lc p n prot flags fd off st)"
| "hook_step ce lc op (Munmap p n) st = snd (debug_munmap ce lc p n st)"
| "hook_step ce lc op (Mremap p m n flags q) st = snd (debug_mremap ce lc p m n flags q st)"
| "hook_step ce lc op (Ioctl fd request) st = snd (debug_ioctl ce lc fd request st)"
| "hook_step ce lc op (Close fd) st = snd (debug_close_with ce lc op fd st)"

text \<open>The tracker of a state is one that calls can reach, with no reference in flight.\<close>

definition settled :: "call_env \<Rightarrow> 'h hook_state \<Rightarrow> bool" where
  "settled ce st \<longleftrightarrow> reach (ce_dc ce) {#} (hk_pointer st)"

lemma settled_simps [simp]:
  "settled ce (st\<lparr> hk_sys := h \<rparr>) = settled ce st" "settled ce (st\<lparr> hk_dma := d \<rparr>) = settled ce st"
  "settled ce (st\<lparr> hk_pending := q \<rparr>) = settled ce st" "settled ce (set_errno lc e st) = settled ce st"
  "settled ce (snd (sys_call f st)) = settled ce st"
  by (simp_all add: settled_def set_errno_def)

lemma settled_track_add:
  "settled ce st \<Longrightarrow> capture_ok (ce_capture ce) \<Longrightarrow> settled ce (track_add ce p n t ty st)"
  by (simp add: settled_def track_add_def reach_Add)

lemma settled_track_remove: "settled ce st \<Longrightarrow> settled ce (track_remove ce p st)"
  by (simp add: settled_def track_remove_def reach_Remove)

lemma settled_track_alloc:
  "settled ce (snd r) \<Longrightarrow> capture_ok (ce_capture ce) \<Longrightarrow> settled ce (snd (track_alloc ce n t r))"
  by (simp add: track_alloc_def split_beta settled_track_add)

lemma settled_InternalFree: "settled ce st \<Longrightarrow> settled ce (InternalFree ce lc p st)"
  by (simp add: InternalFree_def Let_def settled_track_remove)

lemmas settled_intros = settled_track_add settled_track_remove settled_track_alloc settled_InternalFree

text \<open>A detached record is put back, or its reference released.\<close>

lemma TakeEntry_gone:
  assumes "reach dc M t" "TakeEntry p t = (Some i, t')"
  shows "shard_find (shards t') (ManglePointer p) = None"
  using assms(2) table_invD(1) [OF reach_table_inv [OF assms(1)]]
  by (auto simp: TakeEntry_def Let_def sm_simps split: option.splits)

lemma settled_restore:
  assumes "reach dc {#} t" "TakeEntry p t = (Some i, t')"
  shows "reach dc {#} (RestoreEntry p i t')"
  using reach.take [OF assms] TakeEntry_gone [OF assms] by (intro reach.restore) simp_all

lemma settled_release:
  assumes "reach dc {#} t" "TakeEntry p t = (Some i, t')"
  shows "reach dc {#} (RemoveBacktrace (dc_config dc) (pi_hash_index i) (TraceEntryReleased dc q i t'))"
  using reach.take [OF assms] by (intro reach.release reach_TraceEntryReleased) simp

lemma settled_realloc_block:
  assumes "settled ce st" "capture_ok (ce_capture ce)"
  shows "settled ce (snd (realloc_block ce lc p n st))"
proof (cases "TrackPointers ce")
  case True
  obtain d t' where take: "TakeEntry p (hk_pointer st) = (d, t')" by fastforce
  have r: "reach (ce_dc ce) (opt_refs d) t'"
    using reach.take [OF assms(1) [unfolded settled_def] take] by simp
  show ?thesis
  proof (cases d)
    case None
    have "t' = hk_pointer st" using take None by (auto simp: TakeEntry_def Let_def split: option.splits)
    with take None assms show ?thesis
      by (simp add: realloc_block_def take_entry_def split_beta Let_def settled_track_add)
  next
    case (Some i)
    note restored = settled_restore [OF assms(1) [unfolded settled_def] take [unfolded Some]]
    have add: "reach (ce_dc ce) {#} (RemoveBacktrace (dc_config (ce_dc ce)) (pi_hash_index i)
        (Add (ce_dc ce) (ce_peak ce) (ce_capture ce) (ce_tv ce) q n m ty (TraceEntryReleased (ce_dc ce) p i t')))"
      for q m ty
      using r Some by (intro reach.release reach_Add reach_TraceEntryReleased assms(2)) simp
    have rel: "reach (ce_dc ce) {#} (RemoveBacktrace (dc_config (ce_dc ce)) (pi_hash_index i)
        (TraceEntryReleased (ce_dc ce) p i t'))"
      using r Some by (intro reach.release reach_TraceEntryReleased) simp
    show ?thesis
      using restored add rel True
      by (simp add: realloc_block_def take_entry_def take Some split_beta Let_def settled_def track_add_def)
  qed
next
  case False
  with assms(1) show ?thesis
    by (simp add: realloc_block_def take_entry_def split_beta Let_def)
qed

lemma settled_munmap:
  assumes "settled ce st"
  shows "settled ce (snd (debug_munmap ce lc p n st))"
proof (cases "TrackPointers ce")
  case True
  obtain d t' where take: "TakeEntry p (hk_pointer st) = (d, t')" by fastforce
  show ?thesis
  proof (cases d)
    case None
    have "t' = hk_pointer st" using take None by (auto simp: TakeEntry_def Let_def split: option.splits)
    with take None assms show ?thesis
      by (simp add: debug_munmap_def take_entry_def split_beta Let_def)
  next
    case (Some i)
    note take = take [unfolded Some]
    show ?thesis
      using settled_restore [OF assms [unfolded settled_def] take]
        settled_release [OF assms [unfolded settled_def] take] True assms
      by (simp add: debug_munmap_def take_entry_def take split_beta Let_def settled_def)
  qed
next
  case False
  with assms show ?thesis by (simp add: debug_munmap_def take_entry_def split_beta Let_def)
qed

lemma settled_TrackMmapResult:
  "settled ce st \<Longrightarrow> capture_ok (ce_capture ce) \<Longrightarrow> settled ce (TrackMmapResult ce lc r n flags fd b st)"
  by (simp add: TrackMmapResult_def split_beta Let_def settled_track_add split: MmapCaptureKind.splits)

lemma settled_map_and_track:
  "settled ce st \<Longrightarrow> capture_ok (ce_capture ce) \<Longrightarrow> settled ce (snd (map_and_track ce lc call n flags fd st))"
  by (simp add: map_and_track_def split_beta Let_def settled_TrackMmapResult)

lemma settled_mremap:
  "settled ce st \<Longrightarrow> capture_ok (ce_capture ce) \<Longrightarrow> settled ce (snd (debug_mremap ce lc p m n flags q st))"
  by (simp add: debug_mremap_def split_beta Let_def settled_track_add)
    (simp add: settled_def reach_Remap)

lemma settled_register_node:
  assumes "settled ce st" "capture_ok (ce_capture ce)"
  shows "settled ce (register_node ce cmd fd n st)"
  using assms
  by (simp add: register_node_def split_beta Let_def settled_track_add settled_track_remove
      split: option.splits bool.splits)

lemma settled_ioctl:
  assumes "settled ce st" "capture_ok (ce_capture ce)"
  shows "settled ce (snd (debug_ioctl ce lc fd request st))"
  using assms by (simp add: debug_ioctl_def split_beta Let_def settled_register_node)

lemma settled_close: "settled ce st \<Longrightarrow> settled ce (snd (debug_close_with ce lc op fd st))"
  by (simp add: debug_close_with_def split_beta Let_def settled_track_remove split: option.splits bool.splits)

lemma settled_posix_memalign:
  "settled ce st \<Longrightarrow> capture_ok (ce_capture ce) \<Longrightarrow> settled ce (snd (debug_posix_memalign ce lc a n st))"
  by (simp add: debug_posix_memalign_def split_beta Let_def settled_track_add split: option.splits)

lemma settled_step:
  assumes "settled ce st" "capture_ok (ce_capture ce)"
  shows "settled ce (hook_step ce lc op c st)"
proof (cases c)
  case (Malloc n)
  then show ?thesis
    using assms by (simp add: debug_malloc_def InternalMalloc_def split_beta Let_def settled_track_alloc)
next
  case (Free p)
  then show ?thesis using assms by (simp add: debug_free_def settled_InternalFree)
next
  case (Realloc p n)
  then show ?thesis
    using assms settled_realloc_block [OF assms]
    by (simp add: debug_realloc_def InternalMalloc_def split_beta Let_def settled_intros)
next
  case (Calloc m n)
  then show ?thesis using assms by (simp add: debug_calloc_def split_beta Let_def settled_track_alloc)
next
  case (Memalign a n)
  then show ?thesis using assms by (simp add: debug_memalign_def split_beta Let_def settled_track_alloc)
next
  case (AlignedAlloc a n)
  then show ?thesis using assms by (simp add: debug_aligned_alloc_def split_beta Let_def settled_track_alloc)
qed (use assms in \<open>simp_all add: settled_posix_memalign settled_munmap settled_mremap settled_ioctl
      settled_close debug_mmap_def debug_mmap64_def settled_map_and_track\<close>)

text \<open>Calls of one process: the surroundings change from call to call, the configuration does not.\<close>

definition hook_run ::
    "'h libc \<Rightarrow> (int \<Rightarrow> 'h \<Rightarrow> int \<times> 'h) \<Rightarrow> (call_env \<times> hook_call) list \<Rightarrow> 'h hook_state \<Rightarrow> 'h hook_state" where
  "hook_run lc op = fold (\<lambda>(ce, c). hook_step ce lc op c)"

lemma settled_dc: "settled ce st \<longleftrightarrow> settled ce' st" if "ce_dc ce = ce_dc ce'"
  using that by (simp add: settled_def)

lemma settled_run:
  assumes "settled ce0 st" "\<forall>(ce, c) \<in> set calls. ce_dc ce = ce_dc ce0 \<and> capture_ok (ce_capture ce)"
  shows "settled ce0 (hook_run lc op calls st)"
  using assms
proof (induction calls arbitrary: st)
  case (Cons x calls)
  obtain ce c where x: "x = (ce, c)" by fastforce
  with Cons.prems have ce: "ce_dc ce = ce_dc ce0" "capture_ok (ce_capture ce)" by simp_all
  have "settled ce st" using Cons.prems(1) settled_dc [OF ce(1)] by blast
  then have "settled ce0 (hook_step ce lc op c st)"
    using settled_step [OF _ ce(2)] settled_dc [OF ce(1)] by blast
  with x Cons show ?case by (simp add: hook_run_def)
qed (simp add: hook_run_def)

text \<open>The state a process starts tracking with.\<close>

definition hook_start :: "call_env \<Rightarrow> 'h \<Rightarrow> 'h hook_state" where
  "hook_start ce h = \<lparr> hk_sys = h, hk_pointer = PointerData_start (dc_config (ce_dc ce)),
     hk_dma = DmaState_init, hk_pending = pia_init \<rparr>"

lemma settled_start: "settled ce (hook_start ce h)"
  by (simp add: settled_def hook_start_def reach.start)

text \<open>
  C5: accounting survives every sequence of calls. Whatever calls a process makes
  and whatever the C library answers, failed calls included, the byte counter is
  the sum of the sizes of the live records, its two sides add up to it, no pointer
  has two records, and the stack table holds exactly the stacks of live records.
\<close>

theorem hook_calls_keep_accounting:
  assumes "\<forall>(ce, c) \<in> set calls. ce_dc ce = ce_dc ce0 \<and> capture_ok (ce_capture ce)"
    and "t = hk_pointer (hook_run lc op calls (hook_start ce0 h))"
  shows "current_used t = total pi_size (live t)
    \<and> current_used t = current_host t + current_dma t
    \<and> distinct (map fst (live t))
    \<and> dom (map_of (frames t)) = {i. kBacktraceEmptyIndex < i
         \<and> (\<exists>k r. shard_find (shards t) k = Some r \<and> pi_hash_index r = i)}"
proof -
  have r: "reach (ce_dc ce0) {#} t"
    using settled_run [OF settled_start assms(1)] by (simp add: assms(2) settled_def)
  note inv = table_invD [OF reach_table_inv [OF r]]
  have f: "frames_inv (\<lambda>h. total (holds_ref h) (live t) + count {#} h) t"
    using inv(4) by (simp add: refs_ok_def)
  have "total pi_size es = total host_size es + total dma_size es" for es :: "(u64 \<times> PointerInfoType) list"
    by (rule total_mono_split) (simp add: host_size_def dma_size_def)
  with inv(2) have c: "current_used t = total pi_size (live t)" "current_used t = current_host t + current_dma t"
    by (simp_all add: counters_ok_def)
  have "dom (map_of (frames t)) = {i. kBacktraceEmptyIndex < i
         \<and> (\<exists>k r. shard_find (shards t) k = Some r \<and> pi_hash_index r = i)}"
    using frames_dom [OF f] by (auto simp: total_holds_pos [OF inv(1)] set_eq_iff)
  with c sm.distinct_entries [OF inv(1)] show ?thesis by blast
qed

text \<open>A small allocator: addresses are handed out upwards and never reused.\<close>

record demo_heap =
  dh_next :: u64
  dh_blocks :: "(ptr \<times> u64) list"
  dh_errno :: int

definition demo_alloc :: "u64 \<Rightarrow> demo_heap \<Rightarrow> ptr \<times> demo_heap" where
  "demo_alloc n h =
     (if dh_next h = nullptr \<or> map_of (dh_blocks h) (dh_next h) \<noteq> None then (nullptr, h\<lparr> dh_errno := ENOMEM \<rparr>)
      else (dh_next h, h\<lparr> dh_next := dh_next h + 64, dh_blocks := (dh_next h, n) # dh_blocks h \<rparr>))"

definition demo_release :: "ptr \<Rightarrow> demo_heap \<Rightarrow> demo_heap" where
  "demo_release p h = h\<lparr> dh_blocks := filter (\<lambda>(q, n). q \<noteq> p) (dh_blocks h) \<rparr>"

definition demo_libc :: "demo_heap libc" where
  "demo_libc = \<lparr> lc_malloc = demo_alloc,
     lc_free = (\<lambda>p h. if p = nullptr then h else demo_release p h),
     lc_realloc = (\<lambda>p n h. let (q, h') = demo_alloc n h in (q, if q = nullptr then h' else demo_release p h')),
     lc_calloc = (\<lambda>m n. demo_alloc (m * n)), lc_memalign = (\<lambda>a. demo_alloc), lc_aligned_alloc = (\<lambda>a. demo_alloc),
     lc_posix_memalign = (\<lambda>a n h. let (p, h) = demo_alloc n h in (if p = nullptr then ENOMEM else 0, p, h)),
     lc_mmap = (\<lambda>p n prot flags fd off h. (MAP_FAILED, h)), lc_mmap64 = None, lc_munmap = (\<lambda>p n h. (- 1, h)),
     lc_mremap = (\<lambda>p m n flags q h. (MAP_FAILED, h)), lc_ioctl = (\<lambda>fd r h. (- 1, None, h)),
     lc_fdinfo = (\<lambda>h fd. \<lparr> fi_lines = None, fi_stat_ok = False \<rparr>), lc_errno = dh_errno, lc_set_errno = (\<lambda>e h. h\<lparr> dh_errno := e \<rparr>) \<rparr>"

definition demo_heap_start :: demo_heap where
  "demo_heap_start = \<lparr> dh_next = 0x5000, dh_blocks = [], dh_errno = 0 \<rparr>"

definition demo_ce :: call_env where
  "demo_ce = \<lparr> ce_dc = demo_dc, ce_peak = demo_env, ce_capture = demo_capture, ce_tv = demo_tv,
     ce_slot = nullptr, ce_async_worker = False, ce_dma_capture = False \<rparr>"


theorem hook_calls_keep_accounting_witness:
  "let t = hk_pointer (hook_run demo_libc (\<lambda>fd h. (0, h)) [(demo_ce, Malloc 64), (demo_ce, Realloc 0x5000 96)]
       (hook_start demo_ce demo_heap_start))
   in current_used t = total pi_size (live t)"
proof -
  have "\<forall>(ce, c) \<in> set [(demo_ce, Malloc 64), (demo_ce, Realloc 0x5000 96)].
      ce_dc ce = ce_dc demo_ce \<and> capture_ok (ce_capture ce)"
    by (simp add: demo_ce_def demo_capture_ok)
  from hook_calls_keep_accounting [OF this refl, of demo_libc "\<lambda>fd h. (0, h)" demo_heap_start] show ?thesis
    unfolding Let_def by blast
qed

end
