(* ===== verification/HeapTracking.thy ===== *)
theory HeapTracking
  imports HookTracking
begin

text \<open>
  The tracker against the C heap: with the documented laws of the allocator, the
  records of an observed process are exactly its live blocks.
\<close>

section \<open>Heap records are exactly the live blocks\<close>

definition tracked :: "'h hook_state \<Rightarrow> ptr \<Rightarrow> u64 option" where
  "tracked st p = map_option pi_size (abs_map (hk_pointer st) p)"

text \<open>
  What the C library documents of its allocator, for a function \<^verbatim>\<open>blocks\<close> that
  reads the live blocks with their requested sizes off its state: an allocation
  fails or returns a block that was not live, a free ends a block, a resize fails
  and changes nothing or replaces one block by another.
\<close>

definition alloc_law :: "('h \<Rightarrow> ptr \<rightharpoonup> u64) \<Rightarrow> u64 \<Rightarrow> ('h \<Rightarrow> ptr \<times> 'h) \<Rightarrow> bool" where
  "alloc_law blocks n f \<longleftrightarrow> (\<forall>h p h'. f h = (p, h') \<longrightarrow>
     (if p = nullptr then blocks h' = blocks h else blocks h p = None \<and> blocks h' = (blocks h)(p \<mapsto> n)))"

definition realloc_law :: "('h \<Rightarrow> ptr \<rightharpoonup> u64) \<Rightarrow> 'h libc \<Rightarrow> bool" where
  "realloc_law blocks lc \<longleftrightarrow> (\<forall>p n h q h'. p \<noteq> nullptr \<longrightarrow> n \<noteq> 0 \<longrightarrow> blocks h p \<noteq> None \<longrightarrow>
     lc_realloc lc p n h = (q, h') \<longrightarrow>
     (if q = nullptr then blocks h' = blocks h
      else (q = p \<or> blocks h q = None) \<and> blocks h' = (blocks h)(p := None, q \<mapsto> n)))"

definition heap_laws :: "('h \<Rightarrow> ptr \<rightharpoonup> u64) \<Rightarrow> 'h libc \<Rightarrow> bool" where
  "heap_laws blocks lc \<longleftrightarrow>
     (\<forall>n. alloc_law blocks n (lc_malloc lc n))
     \<and> (\<forall>m n. unat m * unat n < 2 ^ 64 \<longrightarrow> alloc_law blocks (m * n) (lc_calloc lc m n))
     \<and> (\<forall>a n. alloc_law blocks n (lc_memalign lc a n))
     \<and> (\<forall>a n. alloc_law blocks n (lc_aligned_alloc lc a n))
     \<and> (\<forall>a n h r p h'. lc_posix_memalign lc a n h = (r, p, h') \<longrightarrow>
          (if r = 0 \<and> p \<noteq> nullptr then blocks h p = None \<and> blocks h' = (blocks h)(p \<mapsto> n)
           else blocks h' = blocks h))
     \<and> (\<forall>p h. blocks (lc_free lc p h) = (if p = nullptr then blocks h else (blocks h)(p := None)))
     \<and> realloc_law blocks lc
     \<and> (\<forall>e h. blocks (lc_set_errno lc e h) = blocks h)"

text \<open>A heap call on a live block, by a thread the hook observes.\<close>

fun heap_call :: "(ptr \<rightharpoonup> u64) \<Rightarrow> hook_call \<Rightarrow> bool" where
  "heap_call b (Malloc n) = True"
| "heap_call b (Free p) \<longleftrightarrow> p = nullptr \<or> b p \<noteq> None"
| "heap_call b (Realloc p n) \<longleftrightarrow> p = nullptr \<or> b p \<noteq> None"
| "heap_call b (Calloc m n) = True"
| "heap_call b (Memalign a n) = True"
| "heap_call b (AlignedAlloc a n) = True"
| "heap_call b (PosixMemalign a n) = True"
| "heap_call b c = False"

definition observing :: "call_env \<Rightarrow> bool" where
  "observing ce \<longleftrightarrow> TrackPointers ce \<and> \<not> DebugCallsDisabledOrAsyncWorker ce \<and> capture_ok (ce_capture ce)"

inductive heap_run :: "call_env \<Rightarrow> 'h libc \<Rightarrow> ('h \<Rightarrow> ptr \<rightharpoonup> u64) \<Rightarrow> 'h hook_state \<Rightarrow> bool" for ce0 lc blocks where
  start: "blocks h = Map.empty \<Longrightarrow> heap_run ce0 lc blocks (hook_start ce0 h)"
| step: "heap_run ce0 lc blocks st \<Longrightarrow> ce_dc ce = ce_dc ce0 \<Longrightarrow> observing ce \<Longrightarrow>
    heap_call (blocks (hk_sys st)) c \<Longrightarrow> heap_run ce0 lc blocks (hook_step ce lc op c st)"

lemma abs_map_TakeEntry:
  assumes "reach dc M t" "TakeEntry p t = (d, t')"
  shows "d = abs_map t p" "abs_map t' = (abs_map t)(p := None)"
  using assms(2) table_invD(1) [OF reach_table_inv [OF assms(1)]]
  by (auto simp: TakeEntry_def Let_def abs_map_def [abs_def] abs_map_upd fun_upd_idem split: option.splits)

lemma abs_map_RestoreEntry:
  assumes "reach dc M t"
  shows "abs_map (RestoreEntry p i t) = (abs_map t)(p \<mapsto> i)"
  using table_invD(1) [OF reach_table_inv [OF assms]]
  by (simp add: RestoreEntry_def Let_def abs_map_def [abs_def] abs_map_upd)

lemma abs_map_unchanged [simp]:
  "abs_map (TraceEntryReleased dc q i t) = abs_map t" "abs_map (RemoveBacktrace cfg x t) = abs_map t"
  by (simp_all add: abs_map_def [abs_def])

lemma tracked_upd:
  assumes "settled ce st" "capture_ok (ce_capture ce)"
  shows "tracked (track_add ce p n t ty st) = (tracked st)(p \<mapsto> t)"
    and "tracked (track_remove ce p st) = (tracked st)(p := None)"
  using abs_map_Add [OF assms(1) [unfolded settled_def] assms(2)] abs_map_Remove [OF assms(1) [unfolded settled_def]]
  by (auto simp: tracked_def track_add_def track_remove_def spec_add_def spec_remove_def fun_eq_iff)

lemma tracked_simps [simp]:
  "tracked (st\<lparr> hk_sys := h \<rparr>) = tracked st" "tracked (st\<lparr> hk_dma := d \<rparr>) = tracked st"
  "tracked (st\<lparr> hk_pending := q \<rparr>) = tracked st"
  "tracked (set_errno lc e st) = tracked st" "tracked (snd (sys_call f st)) = tracked st"
  by (auto simp: tracked_def set_errno_def fun_eq_iff)

lemma tracked_alloc:
  assumes "alloc_law blocks n f" "settled ce st" "observing ce" "tracked st = blocks (hk_sys st)"
  shows "tracked (snd (track_alloc ce m n (sys_call f st))) = blocks (hk_sys (snd (track_alloc ce m n (sys_call f st))))"
proof -
  obtain p h where f: "f (hk_sys st) = (p, h)" by fastforce
  have s: "settled ce (snd (sys_call f st))" using assms(2) by simp
  from assms(1) f have law: "if p = nullptr then blocks h = blocks (hk_sys st)
      else blocks (hk_sys st) p = None \<and> blocks h = (blocks (hk_sys st))(p \<mapsto> n)"
    by (simp add: alloc_law_def)
  with assms(3,4) f tracked_upd(1) [OF s, of p m n HOST] show ?thesis
    by (simp add: track_alloc_def split_beta AllocationSucceeded_def observing_def split: if_splits)
qed

lemma tracked_realloc:
  assumes "realloc_law blocks lc" "settled ce st" "observing ce" "tracked st = blocks (hk_sys st)"
    "p \<noteq> nullptr" "n \<noteq> 0" "blocks (hk_sys st) p \<noteq> None"
  shows "tracked (snd (realloc_block ce lc p n st)) = blocks (hk_sys (snd (realloc_block ce lc p n st)))"
proof -
  obtain q h where f: "lc_realloc lc p n (hk_sys st) = (q, h)" by fastforce
  have law: "if q = nullptr then blocks h = blocks (hk_sys st)
      else blocks h = (blocks (hk_sys st))(p := None, q \<mapsto> n)"
    using assms(1) [unfolded realloc_law_def, rule_format, OF assms(5-7) f] by (simp split: if_splits)
  have tp: "TrackPointers ce" "capture_ok (ce_capture ce)" using assms(3) by (simp_all add: observing_def)
  obtain d t' where take: "TakeEntry p (hk_pointer st) = (d, t')" by fastforce
  note r = assms(2) [unfolded settled_def]
  note ab = abs_map_TakeEntry [OF r take]
  have "d \<noteq> None" using assms(7) fun_cong [OF assms(4), of p] ab(1) by (auto simp: tracked_def)
  then obtain i where d: "d = Some i" by blast
  have r': "reach (ce_dc ce) {# pi_hash_index i #} t'" using reach.take [OF r take] d by simp
  have restore: "abs_map (RestoreEntry p i t') = abs_map (hk_pointer st)"
    unfolding abs_map_RestoreEntry [OF r'] ab(2) using ab(1) d by (simp add: fun_upd_idem)
  have add: "abs_map (Add (ce_dc ce) (ce_peak ce) (ce_capture ce) (ce_tv ce) q n n HOST
      (TraceEntryReleased (ce_dc ce) p i t')) = (abs_map (hk_pointer st))(p := None, q \<mapsto>
        \<lparr> pi_size = n, pi_hash_index = fst (AddBacktrace (dc_config (ce_dc ce)) (ce_capture ce)
            (cfg_frames (dc_config (ce_dc ce))) n (TraceEntryReleased (ce_dc ce) p i t')),
          pi_mem_type = HOST, pi_alloc_time = ce_tv ce \<rparr>)"
    using abs_map_Add [OF reach_TraceEntryReleased [OF r', of p i] tp(2), of "ce_peak ce" "ce_tv ce" q n n HOST] ab(2)
    by (simp add: spec_add_def)
  have am: "abs_map (hk_pointer (snd (realloc_block ce lc p n st))) =
      (if q = nullptr then abs_map (hk_pointer st)
       else abs_map (Add (ce_dc ce) (ce_peak ce) (ce_capture ce) (ce_tv ce) q n n HOST
         (TraceEntryReleased (ce_dc ce) p i t')))"
    using tp(1) restore
    by (simp add: realloc_block_def take_entry_def take d f split_beta Let_def AllocationSucceeded_def
        track_add_def hook_ShouldTrackAllocation_def ShouldTrackAllocation_def sys_call_def)
  have "tracked (snd (realloc_block ce lc p n st)) =
      (if q = nullptr then tracked st else (tracked st)(p := None, q \<mapsto> n))"
    unfolding tracked_def am add by (simp add: fun_eq_iff)
  with law assms(4) show ?thesis by (simp add: realloc_block_sel f split: if_splits)
qed

lemma tracked_InternalFree:
  assumes "settled ce st" "observing ce" "tracked st = blocks (hk_sys st)" "p \<noteq> nullptr"
    "\<forall>p h. blocks (lc_free lc p h) = (if p = nullptr then blocks h else (blocks h)(p := None))"
  shows "tracked (InternalFree ce lc p st) = blocks (hk_sys (InternalFree ce lc p st))"
  using assms tracked_upd(2) [OF assms(1), of p]
  by (simp add: InternalFree_def Let_def observing_def)

lemma tracked_posix:
  assumes "settled ce st" "observing ce" "tracked st = blocks (hk_sys st)"
    "\<forall>a n h r p h'. lc_posix_memalign lc a n h = (r, p, h') \<longrightarrow>
       (if r = 0 \<and> p \<noteq> nullptr then blocks h p = None \<and> blocks h' = (blocks h)(p \<mapsto> n)
        else blocks h' = blocks h)"
  shows "tracked (snd (debug_posix_memalign ce lc a n st)) = blocks (hk_sys (snd (debug_posix_memalign ce lc a n st)))"
proof -
  obtain r p h where f: "lc_posix_memalign lc a n (hk_sys st) = (r, p, h)" by (metis prod_cases3)
  let ?st = "st\<lparr> hk_sys := h \<rparr>"
  have s: "settled ce ?st" using assms(1) by simp
  have law: "if r = 0 \<and> p \<noteq> nullptr then blocks h = (blocks (hk_sys st))(p \<mapsto> n) else blocks h = blocks (hk_sys st)"
    using assms(4) f by (auto split: if_splits)
  from assms(2,3) f law tracked_upd(1) [OF s, of p n n HOST] show ?thesis
    by (simp add: debug_posix_memalign_def sys_call_def observing_def hook_ShouldTrackAllocation_def
        ShouldTrackAllocation_def Let_def split: if_splits)
qed

lemma tracked_step:
  assumes "heap_laws blocks lc" "settled ce st" "observing ce" "tracked st = blocks (hk_sys st)"
    "heap_call (blocks (hk_sys st)) c"
  shows "tracked (hook_step ce lc op c st) = blocks (hk_sys (hook_step ce lc op c st))"
proof -
  have ce: "\<not> DebugCallsDisabledOrAsyncWorker ce" "hook_ShouldTrackAllocation ce n ty = (True, n)" for n ty
    using assms(3) by (simp_all add: observing_def hook_ShouldTrackAllocation_def ShouldTrackAllocation_def)
  note L = assms(1) [unfolded heap_laws_def]
  have err: "blocks (lc_set_errno lc e h) = blocks h" for e h using L by blast
  have free: "\<forall>p h. blocks (lc_free lc p h) = (if p = nullptr then blocks h else (blocks h)(p := None))"
    using L by blast
  have malloc: "alloc_law blocks n (lc_malloc lc n)" for n using L by blast
  have mem: "alloc_law blocks n (lc_memalign lc a n)" "alloc_law blocks n (lc_aligned_alloc lc a n)" for a n
    using L by blast+
  have re: "realloc_law blocks lc" using L by blast
  note alloc = tracked_alloc [where blocks = blocks, OF _ assms(2-4)]
  have errno: "tracked (set_errno lc e st) = blocks (hk_sys (set_errno lc e st))" for e
    using assms(4) err by (simp add: set_errno_def)
  show ?thesis
  proof (cases c)
    case (Malloc n)
    then show ?thesis
      using ce alloc [OF malloc] errno by (simp add: debug_malloc_def InternalMalloc_def)
  next
    case (Free p)
    then show ?thesis
      using ce free assms(4) tracked_InternalFree [where blocks = blocks, OF assms(2-4) _ free, of p] by (simp add: debug_free_def)
  next
    case (Realloc p n)
    then show ?thesis
      using ce alloc [OF malloc] errno tracked_InternalFree [where blocks = blocks, OF assms(2-4) _ free, of p]
        tracked_realloc [where blocks = blocks, OF re assms(2-4), of p n] assms(5)
      by (auto simp: debug_realloc_def InternalMalloc_def)
  next
    case (Calloc m n)
    have "unat m * unat n < 2 ^ 64 \<Longrightarrow> alloc_law blocks (m * n) (lc_calloc lc m n)" using L by blast
    with Calloc show ?thesis
      using ce alloc [of "m * n" "lc_calloc lc m n" "m * n"] errno by (simp add: debug_calloc_def Let_def not_le)
  next
    case (Memalign a n)
    then show ?thesis using ce alloc [OF mem(1)] errno by (simp add: debug_memalign_def)
  next
    case (AlignedAlloc a n)
    then show ?thesis using ce alloc [OF mem(2)] errno by (simp add: debug_aligned_alloc_def)
  next
    case (PosixMemalign a n)
    with L show ?thesis using tracked_posix [where blocks = blocks, OF assms(2-4), of lc a n] by simp
  qed (use assms(5) in simp_all)
qed

text \<open>
  C4: the tracker knows exactly the live heap. For a thread the hook observes,
  after any sequence of malloc, free, realloc, calloc and aligned allocations on
  live blocks, resizes that fail and moves that reuse the old address included,
  a pointer is tracked with size \<^verbatim>\<open>n\<close> exactly when the C library has a live block
  of requested size \<^verbatim>\<open>n\<close> there.
\<close>

theorem heap_tracked_exactly:
  assumes "heap_run ce0 lc blocks st" "heap_laws blocks lc"
  shows "tracked st = blocks (hk_sys st)"
proof -
  from assms(1) have "settled ce0 st \<and> tracked st = blocks (hk_sys st)"
  proof induction
    case (start h)
    have "abs_map (PointerData_start (dc_config (ce_dc ce0))) p = None" for p
      by (simp add: abs_map_def PointerData_start_def PointerData_Initialize_def PointerData_new_def
          map_nil_shards_init)
    with start show ?case by (simp add: settled_start) (simp add: tracked_def [abs_def] hook_start_def)
  next
    case (step st ce c op)
    have ok: "capture_ok (ce_capture ce)" using step.hyps(3) by (simp add: observing_def)
    have s: "settled ce st" using step.IH settled_dc [OF step.hyps(2)] by blast
    show ?case
      using settled_step [OF s ok] settled_dc [OF step.hyps(2)] tracked_step [OF assms(2) s step.hyps(3)]
        step.IH step.hyps(4) by blast
  qed
  then show ?thesis by blast
qed

definition demo_live :: "demo_heap \<Rightarrow> ptr \<rightharpoonup> u64" where
  "demo_live h = map_of (dh_blocks h)"

lemma demo_live_release: "demo_live (demo_release p h) = (demo_live h)(p := None)"
proof -
  have "map_of (filter (\<lambda>(q, n). q \<noteq> p) xs) = (map_of xs)(p := None)" for xs :: "(ptr \<times> u64) list"
    by (induction xs) (auto simp: fun_eq_iff)
  then show ?thesis by (simp add: demo_live_def demo_release_def)
qed

lemma demo_alloc_law: "alloc_law demo_live n (demo_alloc n)"
  by (auto simp: alloc_law_def demo_alloc_def demo_live_def split: if_splits)

lemma demo_heap_laws: "heap_laws demo_live demo_libc"
proof -
  have a: "if p = nullptr then demo_live h' = demo_live h
      else demo_live h p = None \<and> demo_live h' = (demo_live h)(p \<mapsto> n)" if "demo_alloc n h = (p, h')" for n h p h'
    using demo_alloc_law [of n] that by (simp add: alloc_law_def)
  have "realloc_law demo_live demo_libc"
    unfolding realloc_law_def
  proof (intro allI impI)
    fix p n h q h'
    assume p: "p \<noteq> nullptr" "demo_live h p \<noteq> None" and r: "lc_realloc demo_libc p n h = (q, h')"
    obtain r h1 where h1: "demo_alloc n h = (r, h1)" by fastforce
    from r h1 have q: "q = r" "h' = (if r = nullptr then h1 else demo_release p h1)"
      by (auto simp: demo_libc_def)
    show "if q = nullptr then demo_live h' = demo_live h
        else (q = p \<or> demo_live h q = None) \<and> demo_live h' = (demo_live h)(p := None, q \<mapsto> n)"
      using a [OF h1] q p by (auto simp: demo_live_release fun_eq_iff split: if_splits)
  qed
  moreover have "if r = 0 \<and> p \<noteq> nullptr then demo_live h p = None \<and> demo_live h' = (demo_live h)(p \<mapsto> n)
      else demo_live h' = demo_live h" if "lc_posix_memalign demo_libc al n h = (r, p, h')" for al n h r p h'
    using that a [of n h] by (auto simp: demo_libc_def ENOMEM_def split: prod.splits if_splits)
  moreover have "demo_live (lc_set_errno demo_libc e h) = demo_live h" for e h
    by (simp add: demo_libc_def demo_live_def)
  moreover have "demo_live (lc_free demo_libc p h) = (if p = nullptr then demo_live h else (demo_live h)(p := None))" for p h
    by (simp add: demo_libc_def demo_live_release)
  ultimately show ?thesis
    using demo_alloc_law unfolding heap_laws_def by (simp add: demo_libc_def)
qed

lemma demo_observing: "observing demo_ce"
  by (simp add: observing_def demo_ce_def demo_capture_ok TrackPointers_def DebugCallsDisabledOrAsyncWorker_def
      DebugCallsDisabled_def demo_dc_def demo_config_def has_option_def TRACK_ALLOCS_def)

theorem heap_tracked_exactly_witness:
  "tracked (hook_run demo_libc (\<lambda>fd h. (0, h)) [(demo_ce, Malloc 64), (demo_ce, Realloc 0x5000 96)]
     (hook_start demo_ce demo_heap_start)) = [0x5040 \<mapsto> 96]"
proof -
  let ?s0 = "hook_start demo_ce demo_heap_start" and ?op = "\<lambda>fd h. (0 :: int, h :: demo_heap)"
  let ?s1 = "hook_step demo_ce demo_libc ?op (Malloc 64) ?s0"
  let ?s2 = "hook_step demo_ce demo_libc ?op (Realloc 0x5000 96) ?s1"
  have le: "\<not> MaxSize < 64" "\<not> MaxSize < 96" by (simp_all add: MaxSize_def)
  have s1: "hk_sys ?s1 = \<lparr> dh_next = 0x5040, dh_blocks = [(0x5000, 64)], dh_errno = 0 \<rparr>"
    using le(1) by (simp add: debug_malloc_def InternalMalloc_def split_beta demo_libc_def demo_alloc_def hook_start_def
        demo_heap_start_def)
  have s2: "hk_sys ?s2 = \<lparr> dh_next = 0x5080, dh_blocks = [(0x5040, 96)], dh_errno = 0 \<rparr>"
    using le(2) s1 by (simp add: debug_realloc_def realloc_block_sel demo_libc_def demo_alloc_def
        demo_release_def Let_def)
  have "heap_run demo_ce demo_libc demo_live ?s0"
    by (rule heap_run.start) (simp add: demo_live_def demo_heap_start_def)
  then have "heap_run demo_ce demo_libc demo_live ?s1"
    by (rule heap_run.step) (simp_all add: demo_observing)
  then have "heap_run demo_ce demo_libc demo_live ?s2"
    by (rule heap_run.step) (simp_all add: demo_observing s1 [simplified] demo_live_def)
  from heap_tracked_exactly [OF this demo_heap_laws] show ?thesis
    unfolding s2 by (simp add: hook_run_def demo_live_def)
qed

end
