(* ===== verification/ObserveOnly.thy ===== *)
theory ObserveOnly
  imports HookConfig PeakSampler
begin

text \<open>
  Process scope and the observe-only probe (\<^verbatim>\<open>backtrace/include/ObserveOnlyProbe.h\<close>,
  \<^verbatim>\<open>backtrace/src/ObserveOnlyProbe.cpp\<close>). Every loaded copy of the library has its
  own \<^verbatim>\<open>probe_copy\<close>; the environment is what the copies of a process share and
  what its descendants inherit. A process identifier is an integer.
\<close>

section \<open>The environment\<close>

text \<open>\<^verbatim>\<open>setenv\<close> with overwriting: the first entry of that name, or a new one.\<close>

fun setenv_in :: "string list \<Rightarrow> string \<Rightarrow> string \<Rightarrow> string list" where
  "setenv_in [] name v = [name @ ''='' @ v]"
| "setenv_in (entry # es) name v =
     (case strip_prefix (name @ ''='') entry of
        Some w \<Rightarrow> (name @ ''='' @ v) # es
      | None \<Rightarrow> entry # setenv_in es name v)"

definition setenv :: "environ \<Rightarrow> string \<Rightarrow> string \<Rightarrow> environ" where
  "setenv env name v = Some (setenv_in (case env of None \<Rightarrow> [] | Some es \<Rightarrow> es) name v)"

definition kPrimaryPidEnv :: string where "kPrimaryPidEnv = ''ALLOC_HOOK_PRIMARY_PID''"
definition kTargetPidEnv :: string where "kTargetPidEnv = ''ALLOC_HOOK_TARGET_PID''"

fun parse_pid :: "int \<Rightarrow> string \<Rightarrow> int option" where
  "parse_pid v [] = (if v = 0 then None else Some v)"
| "parse_pid v (c # s) =
     (case digit_val 10 c of
        None \<Rightarrow> None
      | Some d \<Rightarrow> if v > (2147483647 - int d) div 10 then None else parse_pid (v * 10 + int d) s)"

definition ParsePid :: "string option \<Rightarrow> int option" where
  "ParsePid t = (case t of None \<Rightarrow> None | Some s \<Rightarrow> if s = [] then None else parse_pid 0 s)"

text \<open>
  The stamp of the report election. The code accumulates in a \<^verbatim>\<open>long\<close>; the model
  has no overflow, which only a stamp of more than 18 digits could reach.
\<close>

definition ReadStampedPrimaryPid :: "environ \<Rightarrow> int" where
  "ReadStampedPrimaryPid env =
     (case getenv env kPrimaryPidEnv of
        None \<Rightarrow> - 1
      | Some t \<Rightarrow> if t = [] \<or> digit_val 10 (hd t) = None then - 1 else int (fst (read_digits 10 0 t)))"

section \<open>One copy of the library\<close>

datatype Mode = kUndecided | kBypass | kTrack | kSuppressed

record probe_copy =
  oo_mode :: Mode
  oo_fork_depth :: int
  oo_primary :: "bool option"
  oo_target_pid :: int
  oo_target_ready :: bool
  oo_target_guarded :: bool
  oo_probe_pid :: int
  oo_reported :: bool
  oo_sampler :: ObservedPeakSampler

definition probe_copy_init :: probe_copy where
  "probe_copy_init = \<lparr> oo_mode = kUndecided, oo_fork_depth = 0, oo_primary = None, oo_target_pid = 0,
     oo_target_ready = False, oo_target_guarded = False, oo_probe_pid = 0, oo_reported = False,
     oo_sampler = ObservedPeakSampler_init \<rparr>"

definition TargetIdentity :: "environ \<Rightarrow> int \<Rightarrow> probe_copy \<Rightarrow> int \<times> probe_copy" where
  "TargetIdentity env self c =
     (if oo_target_pid c \<noteq> 0 then (oo_target_pid c, c)
      else
        let target = (case getenv env kTargetPidEnv of
                        None \<Rightarrow> self
                      | Some stamped \<Rightarrow> (case ParsePid (Some stamped) of None \<Rightarrow> - 1 | Some p \<Rightarrow> p))
        in (target, c\<lparr> oo_target_pid := target \<rparr>))"

definition PrepareTargetFork :: "probe_copy \<Rightarrow> probe_copy" where
  "PrepareTargetFork c = c\<lparr> oo_fork_depth := oo_fork_depth c + 1 \<rparr>"

definition FinishTargetForkInParent :: "probe_copy \<Rightarrow> probe_copy" where
  "FinishTargetForkInParent c = c\<lparr> oo_fork_depth := oo_fork_depth c - 1 \<rparr>"

definition InForkChild :: "int \<Rightarrow> probe_copy \<Rightarrow> bool" where
  "InForkChild pid c \<longleftrightarrow> oo_target_pid c > 0 \<and> oo_target_pid c \<noteq> pid"

definition SuppressAfterFork :: "probe_copy \<Rightarrow> probe_copy" where
  "SuppressAfterFork c = c\<lparr> oo_mode := kSuppressed, oo_fork_depth := 0 \<rparr>"

definition ResolveMode :: "environ \<Rightarrow> int \<Rightarrow> probe_copy \<Rightarrow> Mode \<times> probe_copy" where
  "ResolveMode env pid c =
     (if env = None then (kUndecided, c)
      else
        let (target, c) = TargetIdentity env pid c;
            mode = (if target \<noteq> pid then kSuppressed
                    else if fst (ObserveOnlyRequested env) then kBypass else kTrack)
        in (mode, c\<lparr> oo_mode := mode \<rparr>))"

definition CurrentMode :: "environ \<Rightarrow> int \<Rightarrow> probe_copy \<Rightarrow> Mode \<times> probe_copy" where
  "CurrentMode env pid c =
     (if oo_fork_depth c \<noteq> 0 \<and> InForkChild pid c then (kSuppressed, c)
      else if oo_mode c = kUndecided then ResolveMode env pid c
      else (oo_mode c, c))"

definition Bypassed :: "environ \<Rightarrow> int \<Rightarrow> probe_copy \<Rightarrow> bool \<times> probe_copy" where
  "Bypassed env pid c =
     (let (mode, c) = CurrentMode env pid c in (mode = kBypass \<or> mode = kSuppressed, c))"

definition Suppressed :: "environ \<Rightarrow> int \<Rightarrow> probe_copy \<Rightarrow> bool \<times> probe_copy" where
  "Suppressed env pid c = (let (mode, c) = CurrentMode env pid c in (mode = kSuppressed, c))"

definition IsTargetProcess :: "environ \<Rightarrow> int \<Rightarrow> probe_copy \<Rightarrow> bool \<times> probe_copy" where
  "IsTargetProcess env pid c =
     (let (suppressed, c) = Suppressed env pid c
      in if suppressed then (False, c)
         else (oo_target_pid c = 0 \<or> oo_target_pid c = pid, c))"

text \<open>
  \<^verbatim>\<open>InitializeTargetProcess\<close>, absent where it ends the process. The two flags say
  whether \<^verbatim>\<open>setenv\<close> and \<^verbatim>\<open>pthread_atfork\<close> succeed.
\<close>

definition InitializeTargetProcess ::
    "bool \<Rightarrow> bool \<Rightarrow> environ \<Rightarrow> int \<Rightarrow> probe_copy \<Rightarrow> (bool \<times> environ \<times> probe_copy) option" where
  "InitializeTargetProcess setenv_ok atfork_ok env pid c =
     (if oo_target_ready c then (let (r, c) = IsTargetProcess env pid c in Some (r, env, c))
      else
        let (target, c) = TargetIdentity env pid c;
            environment_ready = (env \<noteq> None);
            stamped = getenv env kTargetPidEnv;
            target = (if target > 0 \<and> stamped \<noteq> None \<and> ParsePid stamped \<noteq> Some target then - 1 else target);
            publish = (target > 0 \<and> environment_ready \<and> stamped = None)
        in if publish \<and> \<not> setenv_ok then None
           else
             let env = (if publish then setenv env kTargetPidEnv (show_nat (nat target)) else env);
                 guard = (target = pid \<and> \<not> oo_target_guarded c)
             in if guard \<and> \<not> atfork_ok \<and> \<not> environment_ready then None
                else
                  let target = (if guard \<and> \<not> atfork_ok then - 1 else target);
                      c = (if guard \<and> atfork_ok then c\<lparr> oo_target_guarded := True \<rparr> else c);
                      c = c\<lparr> oo_target_pid := target \<rparr>;
                      c = (if target \<noteq> pid then SuppressAfterFork c else c);
                      c = c\<lparr> oo_target_ready := (environment_ready \<or> target < 0) \<rparr>
                  in Some (target = pid, env, c))"

definition IsPrimary :: "environ \<Rightarrow> int \<Rightarrow> probe_copy \<Rightarrow> bool \<times> environ \<times> probe_copy" where
  "IsPrimary env pid c =
     (if env = None then (False, env, c)
      else case oo_primary c of
        Some known \<Rightarrow> (known, env, c)
      | None \<Rightarrow>
          if ReadStampedPrimaryPid env = pid then (False, env, c\<lparr> oo_primary := Some False \<rparr>)
          else (True, setenv env kPrimaryPidEnv (show_nat (nat pid)), c\<lparr> oo_primary := Some True \<rparr>))"

definition OwnsAutomaticReports :: "environ \<Rightarrow> int \<Rightarrow> probe_copy \<Rightarrow> bool \<times> environ \<times> probe_copy" where
  "OwnsAutomaticReports env pid c =
     (let (target, c) = IsTargetProcess env pid c
      in if target then IsPrimary env pid c else (False, env, c))"

definition IsSecondaryCopy :: "environ \<Rightarrow> int \<Rightarrow> probe_copy \<Rightarrow> bool" where
  "IsSecondaryCopy env pid c \<longleftrightarrow>
     oo_primary c = Some False \<or> (oo_primary c = None \<and> ReadStampedPrimaryPid env = pid)"

text \<open>The scope part of the adapter's \<^verbatim>\<open>InitializeTargetScope\<close>, and what \<^verbatim>\<open>fork\<close> does first.\<close>

definition InitializeTargetScope ::
    "bool \<Rightarrow> bool \<Rightarrow> environ \<Rightarrow> int \<Rightarrow> probe_copy \<Rightarrow> (environ \<times> probe_copy) option" where
  "InitializeTargetScope setenv_ok atfork_ok env pid c =
     (case InitializeTargetProcess setenv_ok atfork_ok env pid c of
        None \<Rightarrow> None
      | Some (target, env, c) \<Rightarrow>
          if target \<and> oo_target_ready c then (let (r, env, c) = IsPrimary env pid c in Some (env, c))
          else Some (env, c))"

definition fork_scope :: "bool \<Rightarrow> bool \<Rightarrow> environ \<Rightarrow> int \<Rightarrow> probe_copy \<Rightarrow> (environ \<times> probe_copy) option" where
  "fork_scope setenv_ok atfork_ok env pid c =
     (if oo_target_ready c then Some (env, c) else InitializeTargetScope setenv_ok atfork_ok env pid c)"

section \<open>The probe\<close>

definition StartProbe :: "bool \<Rightarrow> environ \<Rightarrow> int \<Rightarrow> probe_copy \<Rightarrow> bool \<times> environ \<times> probe_copy" where
  "StartProbe thread_created env pid c =
     (let (mode, c) = CurrentMode env pid c;
          (requested, interval_ms) = ObserveOnlyRequested env
      in if mode \<noteq> kBypass \<or> \<not> requested then (False, env, c)
         else
           let (owns, env, c) = OwnsAutomaticReports env pid c
           in if \<not> owns then (False, env, c)
              else
                let (started, sp) = Sampler_Start interval_ms 0 0 False thread_created (oo_sampler c);
                    c = c\<lparr> oo_sampler := sp \<rparr>
                in if started then (True, env, c\<lparr> oo_probe_pid := pid \<rparr>)
                   else (False, env, c\<lparr> oo_probe_pid := 0 \<rparr>))"

text \<open>The figures the exit report prints, if it prints.\<close>

definition ReportAtExit :: "environ \<Rightarrow> int \<Rightarrow> probe_copy \<Rightarrow> ObservedSamplerStats option \<times> probe_copy" where
  "ReportAtExit env pid c =
     (let (target, c) = IsTargetProcess env pid c
      in if \<not> target \<or> oo_probe_pid c = 0 \<or> pid \<noteq> oo_probe_pid c then (None, c)
         else if oo_reported c then (None, c)
         else
           let sp = Sampler_Stop (oo_sampler c)
           in (Some (Sampler_stats sp), c\<lparr> oo_reported := True, oo_sampler := sp \<rparr>))"

text \<open>
  The checkpoint answer: whether it succeeded, where the figures went (the file or
  the standard error stream), and the figures.
\<close>

datatype report_sink = ToFile | ToStderr

definition WriteReport ::
    "bool \<Rightarrow> string option \<Rightarrow> environ \<Rightarrow> int \<Rightarrow> probe_copy
       \<Rightarrow> bool \<times> (report_sink \<times> ObservedSamplerStats) option \<times> probe_copy" where
  "WriteReport opened file_name env pid c =
     (let (suppressed, c) = Suppressed env pid c;
          figures = Sampler_stats (oo_sampler c)
      in if suppressed then (False, None, c)
         else case file_name of
           None \<Rightarrow> (True, Some (ToStderr, figures), c)
         | Some f \<Rightarrow> if opened then (True, Some (ToFile, figures), c) else (False, Some (ToStderr, figures), c))"

section \<open>Environment lemmas\<close>

lemma strip_prefix_self [simp]: "strip_prefix (name @ ''='') (name @ CHR ''='' # v) = Some v"
  using strip_prefix_iff [of "name @ ''=''" "name @ CHR ''='' # v" v] by simp

lemma getenv_setenv_same [simp]: "getenv (setenv env name v) name = Some v"
proof -
  have "getenv_in (setenv_in es name v) name = Some v" for es
    by (induction es) (auto split: option.splits)
  then show ?thesis by (simp add: getenv_def setenv_def)
qed

lemma getenv_setenv_other:
  assumes "\<And>w. strip_prefix (m @ ''='') (name @ ''='' @ w) = None"
  shows "getenv (setenv env name v) m = getenv env m"
proof -
  have "getenv_in (setenv_in es name v) m = getenv_in es m" for es
  proof (induction es)
    case (Cons e es)
    show ?case
    proof (cases "strip_prefix (name @ ''='') e")
      case None
      then show ?thesis using Cons by (simp split: option.splits)
    next
      case (Some w)
      then have "e = name @ ''='' @ w" by (simp add: strip_prefix_iff)
      then show ?thesis using Some assms by simp
    qed
  qed (use assms in simp)
  then show ?thesis by (simp add: getenv_def setenv_def split: option.splits)
qed

lemma stamps_apart [simp]:
  "getenv (setenv env kPrimaryPidEnv v) kTargetPidEnv = getenv env kTargetPidEnv"
  "getenv (setenv env kTargetPidEnv v) kPrimaryPidEnv = getenv env kPrimaryPidEnv"
  by (rule getenv_setenv_other, simp add: kPrimaryPidEnv_def kTargetPidEnv_def)+

lemma setenv_ready [simp]: "setenv env name v \<noteq> None" "setenv env name v = None \<longleftrightarrow> False"
  by (simp_all add: setenv_def)

lemma parse_pid_append:
  assumes "\<forall>c \<in> set s. digit_val 10 c \<noteq> None" "0 \<le> v" "int (fst (read_digits 10 (nat v) s)) \<le> 2147483647"
  shows "parse_pid v (s @ t) = parse_pid (int (fst (read_digits 10 (nat v) s))) t"
  using assms
proof (induction s arbitrary: v)
  case (Cons c s)
  obtain d where d: "digit_val 10 c = Some d" using Cons.prems(1) by auto
  have mono: "n \<le> fst (read_digits 10 n s)" for n
    by (induction "10 :: nat" n s rule: read_digits.induct) (auto split: option.splits elim: order_trans [rotated])
  have n: "nat (v * 10 + int d) = nat v * 10 + d" using Cons.prems(2) by (simp add: nat_add_distrib nat_mult_distrib)
  have "v * 10 + int d \<le> 2147483647"
    using mono [of "nat v * 10 + d"] Cons.prems(2,3) d by simp
  then have "\<not> v > (2147483647 - int d) div 10" by simp
  then show ?case using Cons d n by simp
qed simp

lemma ParsePid_show: "0 < n \<Longrightarrow> n \<le> 2147483647 \<Longrightarrow> ParsePid (Some (show_nat (nat n))) = Some n"
  using parse_pid_append [OF show_nat_digits, of 0 "nat n" "[]"]
  by (simp add: ParsePid_def show_nat_nonempty read_digits_show_nat)

lemma ReadStamped_set: "0 < n \<Longrightarrow> ReadStampedPrimaryPid (setenv env kPrimaryPidEnv (show_nat (nat n))) = n"
proof -
  assume "0 < n"
  obtain d s where "show_nat (nat n) = d # s" using show_nat_nonempty [of "nat n"] by (cases "show_nat (nat n)") auto
  moreover have "digit_val 10 d \<noteq> None" using show_nat_digits [of "nat n"] calculation by simp
  ultimately show ?thesis using \<open>0 < n\<close> read_digits_show_nat [of "nat n"]
    by (simp add: ReadStampedPrimaryPid_def)
qed

section \<open>A tree of processes\<close>

record process =
  pr_pid :: int
  pr_env :: environ
  pr_copies :: "probe_copy list"

text \<open>What a copy may be asked; the flags are the answers of the system calls involved.\<close>

datatype copy_act = AskMode | AskTarget | AskOwner | InitScope bool bool | Probe bool | Exit

fun act_ok :: "copy_act \<Rightarrow> bool" where
  "act_ok (InitScope s a) \<longleftrightarrow> s \<and> a"
| "act_ok _ \<longleftrightarrow> True"

fun copy_step :: "copy_act \<Rightarrow> environ \<Rightarrow> int \<Rightarrow> probe_copy \<Rightarrow> (environ \<times> probe_copy) option" where
  "copy_step AskMode env pid c = Some (env, snd (CurrentMode env pid c))"
| "copy_step AskTarget env pid c = Some (env, snd (IsTargetProcess env pid c))"
| "copy_step AskOwner env pid c = Some (snd (OwnsAutomaticReports env pid c))"
| "copy_step (InitScope s a) env pid c = InitializeTargetScope s a env pid c"
| "copy_step (Probe th) env pid c = Some (snd (StartProbe th env pid c))"
| "copy_step Exit env pid c = Some (env, snd (ReportAtExit env pid c))"

definition valid_pid :: "int \<Rightarrow> bool" where
  "valid_pid p \<longleftrightarrow> 0 < p \<and> p \<le> 2147483647"

text \<open>
  The processes that descend from one launch: copies are loaded and asked in any
  order, the application sets variables of its own, processes fork through the
  interposed \<^verbatim>\<open>fork\<close> and execute other images. A child is seen both before and
  after the child-side handlers of its guarded copies have run. With \<^verbatim>\<open>ok\<close> no
  system call of the scope set-up fails.
\<close>

inductive tree :: "bool \<Rightarrow> int \<Rightarrow> process \<Rightarrow> bool" for ok root where
  launch: "valid_pid root \<Longrightarrow> getenv (Some es) kTargetPidEnv = None \<Longrightarrow>
    tree ok root \<lparr> pr_pid = root, pr_env = Some es, pr_copies = [] \<rparr>"
| load: "tree ok root p \<Longrightarrow> tree ok root (p\<lparr> pr_copies := pr_copies p @ [probe_copy_init] \<rparr>)"
| act: "tree ok root p \<Longrightarrow> i < length (pr_copies p) \<Longrightarrow> (ok \<Longrightarrow> act_ok a) \<Longrightarrow>
    copy_step a (pr_env p) (pr_pid p) (pr_copies p ! i) = Some (env, c) \<Longrightarrow>
    tree ok root (p\<lparr> pr_env := env, pr_copies := (pr_copies p)[i := c] \<rparr>)"
| other_env: "tree ok root p \<Longrightarrow> getenv (Some es) kTargetPidEnv = getenv (pr_env p) kTargetPidEnv \<Longrightarrow>
    getenv (Some es) kPrimaryPidEnv = getenv (pr_env p) kPrimaryPidEnv \<Longrightarrow>
    tree ok root (p\<lparr> pr_env := Some es \<rparr>)"
| fork_early: "tree ok root p \<Longrightarrow> pr_copies p = c # cs \<Longrightarrow> (ok \<Longrightarrow> s \<and> a) \<Longrightarrow>
    fork_scope s a (pr_env p) (pr_pid p) c = Some (env, c') \<Longrightarrow> valid_pid child \<Longrightarrow> child \<noteq> root \<Longrightarrow>
    tree ok root \<lparr> pr_pid = child, pr_env = env,
      pr_copies = map (\<lambda>c. if oo_target_guarded c then PrepareTargetFork c else c) (c' # cs) \<rparr>"
| fork: "tree ok root p \<Longrightarrow> pr_copies p = c # cs \<Longrightarrow> (ok \<Longrightarrow> s \<and> a) \<Longrightarrow>
    fork_scope s a (pr_env p) (pr_pid p) c = Some (env, c') \<Longrightarrow> valid_pid child \<Longrightarrow> child \<noteq> root \<Longrightarrow>
    tree ok root \<lparr> pr_pid = child, pr_env = env,
      pr_copies = map (\<lambda>c. if oo_target_guarded c then SuppressAfterFork (PrepareTargetFork c) else c) (c' # cs) \<rparr>"
| exec: "tree ok root p \<Longrightarrow> tree ok root (p\<lparr> pr_copies := [] \<rparr>)"

section \<open>One target, one report\<close>

definition env_scope :: "int \<Rightarrow> int \<Rightarrow> environ \<Rightarrow> bool" where
  "env_scope root pid env \<longleftrightarrow> env \<noteq> None \<and> valid_pid root \<and> valid_pid pid
     \<and> (getenv env kTargetPidEnv = Some (show_nat (nat root)) \<or> getenv env kTargetPidEnv = None \<and> pid = root)"

definition published :: "int \<Rightarrow> environ \<Rightarrow> bool" where
  "published root env \<longleftrightarrow> getenv env kTargetPidEnv = Some (show_nat (nat root))"

definition copy_scope :: "bool \<Rightarrow> int \<Rightarrow> int \<Rightarrow> environ \<Rightarrow> probe_copy \<Rightarrow> bool" where
  "copy_scope ok root pid env c \<longleftrightarrow> oo_target_pid c \<in> {0, root, - 1}
     \<and> (oo_mode c = kBypass \<or> oo_mode c = kTrack \<longrightarrow> oo_target_pid c \<noteq> 0)
     \<and> (ok \<longrightarrow> oo_target_pid c \<noteq> - 1 \<and> (pid = root \<longrightarrow> oo_mode c \<noteq> kSuppressed))
     \<and> (oo_target_ready c \<or> oo_target_pid c = - 1 \<longrightarrow> published root env)"

lemma TargetIdentity_scope:
  assumes "env_scope root pid env" "copy_scope ok root pid env c" "TargetIdentity env pid c = (t, c')"
  shows "t = root \<or> t = - 1 \<and> \<not> ok" "oo_target_pid c' = t" "copy_scope ok root pid env c'"
    "oo_primary c' = oo_primary c" "oo_mode c' = oo_mode c" "oo_fork_depth c' = oo_fork_depth c"
proof -
  have r: "0 < root" "root \<le> 2147483647" using assms(1) by (auto simp: env_scope_def valid_pid_def)
  show "t = root \<or> t = - 1 \<and> \<not> ok" "oo_target_pid c' = t" "copy_scope ok root pid env c'"
    "oo_primary c' = oo_primary c" "oo_mode c' = oo_mode c" "oo_fork_depth c' = oo_fork_depth c"
    using assms ParsePid_show [OF r] r
    by (auto simp: TargetIdentity_def env_scope_def copy_scope_def Let_def split: if_splits)
qed

lemma CurrentMode_scope:
  assumes "env_scope root pid env" "copy_scope ok root pid env c" "CurrentMode env pid c = (m, c')"
  shows "copy_scope ok root pid env c'" "oo_primary c' = oo_primary c" "m \<noteq> kUndecided"
    "pid \<noteq> root \<Longrightarrow> m \<noteq> kSuppressed \<Longrightarrow> oo_target_pid c' \<noteq> 0 \<and> oo_target_pid c' \<noteq> pid"
    "ok \<Longrightarrow> pid = root \<Longrightarrow> m \<noteq> kSuppressed"
proof -
  obtain t c1 where t: "TargetIdentity env pid c = (t, c1)" by fastforce
  note id = TargetIdentity_scope [OF assms(1,2) t]
  have v: "0 < root" "0 < pid" "env \<noteq> None" using assms(1) by (auto simp: env_scope_def valid_pid_def)
  have "copy_scope ok root pid env c' \<and> oo_primary c' = oo_primary c \<and> m \<noteq> kUndecided
    \<and> (pid \<noteq> root \<longrightarrow> m \<noteq> kSuppressed \<longrightarrow> oo_target_pid c' \<noteq> 0 \<and> oo_target_pid c' \<noteq> pid)
    \<and> (ok \<longrightarrow> pid = root \<longrightarrow> m \<noteq> kSuppressed)"
  proof (cases "oo_mode c = kUndecided \<and> \<not> (oo_fork_depth c \<noteq> 0 \<and> InForkChild pid c)")
    case True
    with assms(3) t v(3) have "m = (if t \<noteq> pid then kSuppressed else if fst (ObserveOnlyRequested env) then kBypass else kTrack)"
      "c' = c1\<lparr> oo_mode := m \<rparr>"
      by (auto simp: CurrentMode_def ResolveMode_def Let_def)
    with id v show ?thesis by (auto simp: copy_scope_def)
  next
    case False
    with assms(2,3) v show ?thesis
      by (cases "oo_mode c") (auto simp: CurrentMode_def copy_scope_def InForkChild_def split: if_splits)
  qed
  then show "copy_scope ok root pid env c'" "oo_primary c' = oo_primary c" "m \<noteq> kUndecided"
    "pid \<noteq> root \<Longrightarrow> m \<noteq> kSuppressed \<Longrightarrow> oo_target_pid c' \<noteq> 0 \<and> oo_target_pid c' \<noteq> pid"
    "ok \<Longrightarrow> pid = root \<Longrightarrow> m \<noteq> kSuppressed" by blast+
qed

lemma IsTargetProcess_scope:
  assumes "env_scope root pid env" "copy_scope ok root pid env c" "IsTargetProcess env pid c = (r, c')"
  shows "copy_scope ok root pid env c'" "oo_primary c' = oo_primary c" "r \<Longrightarrow> pid = root" "ok \<Longrightarrow> pid = root \<Longrightarrow> r"
proof -
  obtain m c1 where m: "CurrentMode env pid c = (m, c1)" by fastforce
  note cm = CurrentMode_scope [OF assms(1,2) m]
  have e: "c' = c1" "r = (m \<noteq> kSuppressed \<and> (oo_target_pid c1 = 0 \<or> oo_target_pid c1 = pid))"
    using assms(3) m by (auto simp: IsTargetProcess_def Suppressed_def split: if_splits)
  show "copy_scope ok root pid env c'" "oo_primary c' = oo_primary c" using cm e by simp_all
  show "pid = root" if r using cm(4) e that by blast
  show r if "ok" "pid = root" using cm(1,5) e that by (auto simp: copy_scope_def)
qed

text \<open>How one step of a copy may move the election.\<close>

definition elects :: "int \<Rightarrow> environ \<Rightarrow> probe_copy \<Rightarrow> environ \<Rightarrow> probe_copy \<Rightarrow> bool" where
  "elects pid env c env' c' \<longleftrightarrow>
     oo_primary c' = oo_primary c \<and> ReadStampedPrimaryPid env' = ReadStampedPrimaryPid env
     \<or> oo_primary c = None \<and> oo_primary c' = Some False \<and> ReadStampedPrimaryPid env' = ReadStampedPrimaryPid env
     \<or> oo_primary c = None \<and> oo_primary c' = Some True \<and> ReadStampedPrimaryPid env \<noteq> pid
         \<and> ReadStampedPrimaryPid env' = pid"

definition elected :: "int \<Rightarrow> int \<Rightarrow> environ \<Rightarrow> probe_copy list \<Rightarrow> bool" where
  "elected root pid env cs \<longleftrightarrow> (pid = root \<longrightarrow>
     (\<forall>i < length cs. oo_primary (cs ! i) = Some True \<longrightarrow>
        ReadStampedPrimaryPid env = root \<and> (\<forall>j < length cs. oo_primary (cs ! j) = Some True \<longrightarrow> j = i)))"

lemma elected_step:
  assumes "elected root pid env cs" "i < length cs" "elects pid env (cs ! i) env' c'"
  shows "elected root pid env' (cs[i := c'])"
  using assms unfolding elected_def elects_def
  by (intro impI allI) (simp add: nth_list_update split: if_splits; metis option.inject)

definition keeps_scope :: "bool \<Rightarrow> int \<Rightarrow> int \<Rightarrow> environ \<Rightarrow> probe_copy \<Rightarrow> environ \<Rightarrow> probe_copy \<Rightarrow> bool" where
  "keeps_scope ok root pid env c env' c' \<longleftrightarrow>
     env_scope root pid env' \<and> copy_scope ok root pid env' c' \<and> elects pid env c env' c'
     \<and> (published root env \<longrightarrow> published root env')"

lemma IsPrimary_scope:
  assumes "env_scope root pid env" "copy_scope ok root pid env c" "IsPrimary env pid c = (r, env', c')"
  shows "keeps_scope ok root pid env c env' c'" "r \<longleftrightarrow> oo_primary c' = Some True"
proof -
  have p: "0 < pid" "env \<noteq> None" using assms(1) by (auto simp: env_scope_def valid_pid_def)
  have c: "copy_scope ok root pid env (c\<lparr> oo_primary := b \<rparr>)"
    "copy_scope ok root pid (setenv env kPrimaryPidEnv v) (c\<lparr> oo_primary := b \<rparr>)" for b v
    using assms(2) by (simp_all add: copy_scope_def published_def)
  have e: "env_scope root pid (setenv env kPrimaryPidEnv v)" for v
    using assms(1) by (simp add: env_scope_def)
  have "keeps_scope ok root pid env c env' c' \<and> (r \<longleftrightarrow> oo_primary c' = Some True)"
  proof (cases "oo_primary c")
    case (Some k)
    with assms(3) p(2) have "r = k" "env' = env" "c' = c" by (simp_all add: IsPrimary_def)
    then show ?thesis using assms(1,2) Some by (simp add: keeps_scope_def elects_def)
  next
    case None
    show ?thesis
    proof (cases "ReadStampedPrimaryPid env = pid")
      case True
      with None assms(3) p(2) have "r = False" "env' = env" "c' = c\<lparr> oo_primary := Some False \<rparr>"
        by (simp_all add: IsPrimary_def)
      then show ?thesis using assms(1) c None by (simp add: keeps_scope_def elects_def)
    next
      case False
      with None assms(3) p(2) have "r = True" "env' = setenv env kPrimaryPidEnv (show_nat (nat pid))"
        "c' = c\<lparr> oo_primary := Some True \<rparr>" by (simp_all add: IsPrimary_def)
      then show ?thesis using c e None False ReadStamped_set [OF p(1), of env]
        by (simp add: keeps_scope_def elects_def published_def)
    qed
  qed
  then show "keeps_scope ok root pid env c env' c'" "r \<longleftrightarrow> oo_primary c' = Some True" by blast+
qed

lemma keeps_scope_refl:
  "env_scope root pid env \<Longrightarrow> copy_scope ok root pid env c' \<Longrightarrow> oo_primary c' = oo_primary c \<Longrightarrow>
   keeps_scope ok root pid env c env c'"
  by (simp add: keeps_scope_def elects_def)

lemma keeps_scope_from:
  "keeps_scope ok root pid env c1 env' c' \<Longrightarrow> oo_primary c1 = oo_primary c \<Longrightarrow> keeps_scope ok root pid env c env' c'"
  by (auto simp: keeps_scope_def elects_def)

lemma Owns_scope:
  assumes "env_scope root pid env" "copy_scope ok root pid env c" "OwnsAutomaticReports env pid c = (r, env', c')"
  shows "keeps_scope ok root pid env c env' c'" "r \<Longrightarrow> oo_primary c' = Some True \<and> pid = root"
proof -
  obtain t c1 where t: "IsTargetProcess env pid c = (t, c1)" by fastforce
  note it = IsTargetProcess_scope [OF assms(1,2) t]
  show "keeps_scope ok root pid env c env' c'" "r \<Longrightarrow> oo_primary c' = Some True \<and> pid = root"
    using assms(1,3) t it IsPrimary_scope [OF assms(1) it(1), of r env' c'] keeps_scope_refl [OF assms(1) it(1), of c]
    by (auto simp: OwnsAutomaticReports_def keeps_scope_from split: if_splits)
qed

lemma StartProbe_scope:
  assumes "env_scope root pid env" "copy_scope ok root pid env c" "StartProbe th env pid c = (r, env', c')"
  shows "keeps_scope ok root pid env c env' c'"
proof -
  obtain m c1 where m: "CurrentMode env pid c = (m, c1)" by fastforce
  note cm = CurrentMode_scope [OF assms(1,2) m]
  obtain r2 env2 c2 where o2: "OwnsAutomaticReports env pid c1 = (r2, env2, c2)" by (metis prod_cases3)
  have k2: "keeps_scope ok root pid env c env2 c2"
    using Owns_scope(1) [OF assms(1) cm(1) o2] cm(2) by (rule keeps_scope_from)
  have "keeps_scope ok root pid env c env2 (c2\<lparr> oo_sampler := sp, oo_probe_pid := q \<rparr>)" for sp q
    using k2 by (simp add: keeps_scope_def copy_scope_def elects_def)
  with k2 keeps_scope_refl [OF assms(1) cm(1,2)] show ?thesis
    using assms(3) m o2 by (auto simp: StartProbe_def Let_def split: prod.splits if_splits)
qed

lemma ReportAtExit_scope:
  assumes "env_scope root pid env" "copy_scope ok root pid env c"
  shows "keeps_scope ok root pid env c env (snd (ReportAtExit env pid c))"
proof -
  obtain t c1 where t: "IsTargetProcess env pid c = (t, c1)" by fastforce
  note it = IsTargetProcess_scope [OF assms t]
  have "copy_scope ok root pid env (c1\<lparr> oo_reported := True, oo_sampler := sp \<rparr>)" for sp
    using it(1) by (simp add: copy_scope_def)
  then show ?thesis
    using it assms(1) by (auto simp: ReportAtExit_def t Let_def intro: keeps_scope_refl)
qed

lemma ReadStamped_target [simp]:
  "ReadStampedPrimaryPid (setenv env kTargetPidEnv v) = ReadStampedPrimaryPid env"
  by (simp add: ReadStampedPrimaryPid_def)

lemma InitializeTargetProcess_eq:
  assumes "\<not> oo_target_ready c" "TargetIdentity env pid c = (t, c1)" "env \<noteq> None"
    and "\<not> (t > 0 \<and> getenv env kTargetPidEnv \<noteq> None \<and> ParsePid (getenv env kTargetPidEnv) \<noteq> Some t)"
  shows "InitializeTargetProcess s a env pid c =
    (let publish = (t > 0 \<and> getenv env kTargetPidEnv = None);
         guard = (t = pid \<and> \<not> oo_target_guarded c1);
         t2 = (if guard \<and> \<not> a then - 1 else t);
         c2 = (if guard \<and> a then c1\<lparr> oo_target_guarded := True \<rparr> else c1)\<lparr> oo_target_pid := t2 \<rparr>
     in if publish \<and> \<not> s then None
        else Some (t2 = pid, if publish then setenv env kTargetPidEnv (show_nat (nat t)) else env,
                   (if t2 \<noteq> pid then SuppressAfterFork c2 else c2)\<lparr> oo_target_ready := True \<rparr>))"
  unfolding InitializeTargetProcess_def Let_def assms(2) prod.case if_not_P [OF assms(1)] if_not_P [OF assms(4)]
  using assms(3) by (simp del: not_None_eq)

lemma InitializeTargetProcess_scope:
  assumes "env_scope root pid env" "copy_scope ok root pid env c" "ok \<Longrightarrow> s \<and> a"
    and "InitializeTargetProcess s a env pid c = Some (r, env', c')"
  shows "keeps_scope ok root pid env c env' c'" "oo_primary c' = oo_primary c" "published root env'"
proof -
  have "keeps_scope ok root pid env c env' c' \<and> oo_primary c' = oo_primary c \<and> published root env'"
  proof (cases "oo_target_ready c")
    case True
    obtain t c1 where t: "IsTargetProcess env pid c = (t, c1)" by fastforce
    note it = IsTargetProcess_scope [OF assms(1,2) t]
    from True t assms(4) have "env' = env" "c' = c1" by (simp_all add: InitializeTargetProcess_def)
    with it keeps_scope_refl [OF assms(1)] assms(2) True show ?thesis by (simp add: copy_scope_def)
  next
    case False
    obtain t c1 where t: "TargetIdentity env pid c = (t, c1)" by fastforce
    note id = TargetIdentity_scope [OF assms(1,2) t]
    have v: "0 < root" "root \<le> 2147483647" "env \<noteq> None" using assms(1) by (auto simp: env_scope_def valid_pid_def)
    define stamped where "stamped = getenv env kTargetPidEnv"
    have st: "stamped = Some (show_nat (nat root)) \<or> stamped = None \<and> pid = root"
      using assms(1) by (auto simp: env_scope_def stamped_def)
    have same: "\<not> (t > 0 \<and> stamped \<noteq> None \<and> ParsePid stamped \<noteq> Some t)"
      using st id(1) ParsePid_show [OF v(1,2)] v(1) by auto
    define env1 where "env1 = (if t > 0 \<and> stamped = None then setenv env kTargetPidEnv (show_nat (nat t)) else env)"
    have e1: "env_scope root pid env1" "ReadStampedPrimaryPid env1 = ReadStampedPrimaryPid env"
      using assms(1) id(1) v(1) by (auto simp: env1_def env_scope_def simp del: not_None_eq)
    define guard where "guard \<longleftrightarrow> t = pid \<and> \<not> oo_target_guarded c1"
    define t2 where "t2 = (if guard \<and> \<not> a then - 1 else t)"
    have t2: "t2 = root \<or> t2 = - 1 \<and> \<not> ok" using id(1) assms(3) by (auto simp: t2_def)
    define c2 where "c2 = (if guard \<and> a then c1\<lparr> oo_target_guarded := True \<rparr> else c1)\<lparr> oo_target_pid := t2 \<rparr>"
    have "env' = env1 \<and> c' = (if t2 \<noteq> pid then SuppressAfterFork c2 else c2)\<lparr> oo_target_ready := True \<rparr>"
      using assms(4) InitializeTargetProcess_eq [OF False t v(3) same [unfolded stamped_def], of s a]
      unfolding Let_def stamped_def [symmetric] guard_def [symmetric] t2_def [symmetric] c2_def [symmetric] env1_def [symmetric]
      by (simp split: if_split_asm)
    then have "env' = env1" "oo_target_pid c' = t2" "oo_primary c' = oo_primary c1"
      "oo_mode c' = (if t2 \<noteq> pid then kSuppressed else oo_mode c1)"
      by (simp_all add: c2_def SuppressAfterFork_def)
    moreover have pub: "published root env1"
      using st id(1-3) v(1) by (cases "t = root") (auto simp: published_def env1_def stamped_def copy_scope_def)
    moreover have "copy_scope ok root pid env' c'"
      unfolding copy_scope_def calculation(1-4) using pub id(3) t2 v(1) by (cases "t2 = pid") (auto simp: copy_scope_def)
    ultimately show ?thesis using e1 id(4) by (simp add: keeps_scope_def elects_def)
  qed
  then show "keeps_scope ok root pid env c env' c'" "oo_primary c' = oo_primary c" "published root env'" by blast+
qed

lemma InitializeTargetScope_scope:
  assumes "env_scope root pid env" "copy_scope ok root pid env c" "ok \<Longrightarrow> s \<and> a"
    and "InitializeTargetScope s a env pid c = Some (env', c')"
  shows "keeps_scope ok root pid env c env' c'"
proof -
  obtain r env1 c1 where 1: "InitializeTargetProcess s a env pid c = Some (r, env1, c1)"
    using assms(4) by (auto simp: InitializeTargetScope_def split: option.splits)
  note it = InitializeTargetProcess_scope [OF assms(1-3) 1]
  from it(1) have s: "env_scope root pid env1" "copy_scope ok root pid env1 c1"
    "ReadStampedPrimaryPid env1 = ReadStampedPrimaryPid env" "published root env \<Longrightarrow> published root env1"
    using it(2) by (auto simp: keeps_scope_def elects_def)
  obtain p env2 c2 where p: "IsPrimary env1 pid c1 = (p, env2, c2)" by (metis prod_cases3)
  have "keeps_scope ok root pid env c env2 c2"
    using IsPrimary_scope(1) [OF s(1,2) p] it(2) s(3,4) by (simp add: keeps_scope_def elects_def)
  with it(1) assms(4) 1 p show ?thesis
    by (simp add: InitializeTargetScope_def split: if_splits)
qed

lemma copy_step_scope:
  assumes "env_scope root pid env" "copy_scope ok root pid env c" "ok \<Longrightarrow> act_ok act"
    and "copy_step act env pid c = Some (env', c')"
  shows "keeps_scope ok root pid env c env' c'"
proof (cases act)
  case AskMode
  then show ?thesis using assms CurrentMode_scope [OF assms(1,2)]
    by (cases "CurrentMode env pid c") (auto intro: keeps_scope_refl)
next
  case AskTarget
  then show ?thesis using assms IsTargetProcess_scope [OF assms(1,2)]
    by (cases "IsTargetProcess env pid c") (auto intro: keeps_scope_refl)
next
  case AskOwner
  then show ?thesis using assms Owns_scope(1) [OF assms(1,2)]
    by (cases "OwnsAutomaticReports env pid c") auto
next
  case (InitScope s a)
  then show ?thesis using assms InitializeTargetScope_scope [OF assms(1,2)] by auto
next
  case (Probe th)
  then show ?thesis using assms StartProbe_scope [OF assms(1,2)]
    by (cases "StartProbe th env pid c") auto
next
  case Exit
  then show ?thesis using assms ReportAtExit_scope [OF assms(1,2)] by auto
qed

lemma fork_scope_scope:
  assumes "env_scope root pid env" "copy_scope ok root pid env c" "ok \<Longrightarrow> s \<and> a"
    and "fork_scope s a env pid c = Some (env', c')"
  shows "keeps_scope ok root pid env c env' c'"
  using assms InitializeTargetScope_scope [OF assms(1-3)]
  by (auto simp: fork_scope_def intro: keeps_scope_refl split: if_splits)

lemma copy_scope_fork:
  assumes "copy_scope ok root pid env c" "child \<noteq> root" "published root env'"
  shows "copy_scope ok root child env' c" "copy_scope ok root child env' (PrepareTargetFork c)"
    "copy_scope ok root child env' (SuppressAfterFork (PrepareTargetFork c))"
  using assms by (auto simp: copy_scope_def PrepareTargetFork_def SuppressAfterFork_def)

lemma copy_scope_env:
  "copy_scope ok root pid env c \<Longrightarrow> (published root env \<longrightarrow> published root env') \<Longrightarrow> copy_scope ok root pid env' c"
  by (auto simp: copy_scope_def)

definition tree_inv :: "bool \<Rightarrow> int \<Rightarrow> process \<Rightarrow> bool" where
  "tree_inv ok root p \<longleftrightarrow> env_scope root (pr_pid p) (pr_env p)
     \<and> (\<forall>c \<in> set (pr_copies p). copy_scope ok root (pr_pid p) (pr_env p) c)
     \<and> elected root (pr_pid p) (pr_env p) (pr_copies p)"

lemma fork_scope_published:
  assumes "env_scope root pid env" "copy_scope ok root pid env c" "ok \<Longrightarrow> s \<and> a"
    and "fork_scope s a env pid c = Some (env', c')"
  shows "published root env'"
proof (cases "oo_target_ready c")
  case True
  then show ?thesis using assms(2,4) by (simp add: fork_scope_def copy_scope_def)
next
  case False
  have f: "InitializeTargetScope s a env pid c = Some (env', c')" using assms(4) False by (simp add: fork_scope_def)
  then obtain r env1 c1 where 1: "InitializeTargetProcess s a env pid c = Some (r, env1, c1)"
    by (auto simp: InitializeTargetScope_def split: option.splits)
  have "published root env1" by (rule InitializeTargetProcess_scope(3) [OF assms(1-3) 1])
  moreover have "getenv env' kTargetPidEnv = getenv env1 kTargetPidEnv"
    using f 1 by (auto simp: InitializeTargetScope_def IsPrimary_def split: if_splits option.splits)
  ultimately show ?thesis by (simp add: published_def)
qed

lemma fork_inv:
  assumes "tree_inv ok root p" "pr_copies p = c # cs" "ok \<Longrightarrow> s \<and> a"
    and "fork_scope s a (pr_env p) (pr_pid p) c = Some (env, c')" "valid_pid child" "child \<noteq> root"
    and "\<And>c. f c = c \<or> f c = PrepareTargetFork c \<or> f c = SuppressAfterFork (PrepareTargetFork c)"
  shows "tree_inv ok root \<lparr> pr_pid = child, pr_env = env, pr_copies = map f (c' # cs) \<rparr>"
proof -
  have sc: "env_scope root (pr_pid p) (pr_env p)" "copy_scope ok root (pr_pid p) (pr_env p) c"
    "\<forall>c \<in> set cs. copy_scope ok root (pr_pid p) (pr_env p) c"
    using assms(1,2) by (simp_all add: tree_inv_def)
  from fork_scope_scope [OF sc(1,2) assms(3,4)]
  have k: "env_scope root (pr_pid p) env" "copy_scope ok root (pr_pid p) env c'" by (simp_all add: keeps_scope_def)
  have st: "published root env" by (rule fork_scope_published [OF sc(1,2) assms(3,4)])
  have "copy_scope ok root child env (f d)" if "d \<in> set (c' # cs)" for d
    using copy_scope_fork [OF _ assms(6) st] assms(7) [of d] that sc(3) k(2) by auto
  moreover have "env_scope root child env"
    using k(1) st assms(5) by (simp add: env_scope_def published_def)
  ultimately show ?thesis using assms(6) by (simp add: tree_inv_def elected_def)
qed

lemma tree_tree_inv: "tree ok root p \<Longrightarrow> tree_inv ok root p"
proof (induction rule: tree.induct)
  case (launch es)
  then show ?case by (simp add: tree_inv_def env_scope_def elected_def)
next
  case (load p)
  have "copy_scope ok root (pr_pid p) (pr_env p) probe_copy_init"
    using load.IH by (auto simp: tree_inv_def env_scope_def valid_pid_def copy_scope_def probe_copy_init_def)
  moreover have "oo_primary probe_copy_init = None" by (simp add: probe_copy_init_def)
  ultimately show ?case using load.IH by (auto simp: tree_inv_def elected_def nth_append)
next
  case (act p i a env c)
  have sc: "env_scope root (pr_pid p) (pr_env p)" "copy_scope ok root (pr_pid p) (pr_env p) (pr_copies p ! i)"
    using act.IH act.hyps(2) by (simp_all add: tree_inv_def)
  have k: "keeps_scope ok root (pr_pid p) (pr_env p) (pr_copies p ! i) env c"
    by (rule copy_step_scope [OF sc act.hyps(3,4)])
  then have "copy_scope ok root (pr_pid p) env d" if "d \<in> set ((pr_copies p)[i := c])" for d
    using act.IH set_update_subset_insert [of "pr_copies p" i c] that
    by (auto simp: keeps_scope_def tree_inv_def intro: copy_scope_env)
  moreover have "elected root (pr_pid p) env ((pr_copies p)[i := c])"
    using k act.IH act.hyps(2) by (auto simp: keeps_scope_def tree_inv_def intro: elected_step)
  ultimately show ?case using k by (simp add: tree_inv_def keeps_scope_def)
next
  case (other_env p es)
  then have "ReadStampedPrimaryPid (Some es) = ReadStampedPrimaryPid (pr_env p)"
    by (simp add: ReadStampedPrimaryPid_def)
  with other_env show ?case
    by (auto simp: tree_inv_def env_scope_def elected_def published_def intro: copy_scope_env)
next
  case (fork_early p c cs s a env c' child)
  show ?case by (rule fork_inv [OF fork_early.IH fork_early.hyps(2-6)]) auto
next
  case (fork p c cs s a env c' child)
  show ?case by (rule fork_inv [OF fork.IH fork.hyps(2-6)]) auto
next
  case (exec p)
  then show ?case by (simp add: tree_inv_def elected_def)
qed


text \<open>
  C12: one report. Once a copy has been told that it owns the automatic reports,
  no other copy in any state of that process is told so, and the process is the
  launched one.
\<close>

theorem one_report_owner:
  assumes "tree ok root p" "i < length (pr_copies p)" "j < length (pr_copies p)" "i \<noteq> j"
    and "OwnsAutomaticReports (pr_env p) (pr_pid p) (pr_copies p ! i) = (True, env, c)"
  shows "pr_pid p = root \<and> \<not> fst (OwnsAutomaticReports env (pr_pid p) (pr_copies p ! j))"
proof -
  let ?cs = "(pr_copies p)[i := c]"
  note inv = tree_tree_inv [OF assms(1)]
  have sc: "env_scope root (pr_pid p) (pr_env p)" "copy_scope ok root (pr_pid p) (pr_env p) (pr_copies p ! i)"
    using inv assms(2) by (simp_all add: tree_inv_def)
  have own: "oo_primary c = Some True" "pr_pid p = root" using Owns_scope(2) [OF sc assms(5)] by simp_all
  have "tree ok root (p\<lparr> pr_env := env, pr_copies := ?cs \<rparr>)"
    by (rule tree.act [OF assms(1,2), where a = AskOwner]) (simp_all add: assms(5))
  note inv2 = tree_tree_inv [OF this, unfolded tree_inv_def, simplified]
  have j: "?cs ! j = pr_copies p ! j" "j < length ?cs" using assms(3,4) by simp_all
  then have inv': "env_scope root (pr_pid p) env"
    "copy_scope ok root (pr_pid p) env (pr_copies p ! j)" "elected root (pr_pid p) env ?cs"
    using inv2 nth_mem [OF j(2)] by simp_all
  obtain r env2 c2 where o2: "OwnsAutomaticReports env (pr_pid p) (pr_copies p ! j) = (r, env2, c2)" by (metis prod_cases3)
  have "\<not> r"
  proof
    assume r
    then have "oo_primary c2 = Some True" using Owns_scope(2) [OF inv'(1,2) o2] by simp
    moreover have "elects (pr_pid p) env (?cs ! j) env2 c2"
      using Owns_scope(1) [OF inv'(1,2) o2] assms(4) by (simp add: keeps_scope_def)
    ultimately have "elected root (pr_pid p) env2 (?cs[j := c2])" "oo_primary (?cs[j := c2] ! j) = Some True"
      "oo_primary (?cs[j := c2] ! i) = Some True"
      using elected_step [OF inv'(3), of j env2 c2] assms(2-4) own(1) by simp_all
    then show False unfolding elected_def using assms(2-4) own(2) by (metis length_list_update)
  qed
  with own(2) o2 show ?thesis by simp
qed

text \<open>
  Executing another image in the launched process ends its reports. The
  stamp of the election is the process identifier and survives \<^verbatim>\<open>exec\<close>, which
  keeps the identifier: the fresh copy in the new image is still a copy of the
  target, but it finds its own identifier stamped and stays secondary, so after
  the replacement no copy owns the automatic reports.
\<close>

theorem exec_ends_reports:
  assumes "tree True root p" "i < length (pr_copies p)"
    and "OwnsAutomaticReports (pr_env p) (pr_pid p) (pr_copies p ! i) = (True, env, c)"
  shows "tree True root \<lparr> pr_pid = root, pr_env = env, pr_copies = [probe_copy_init] \<rparr>
    \<and> fst (IsTargetProcess env root probe_copy_init)
    \<and> \<not> fst (OwnsAutomaticReports env root probe_copy_init)"
proof -
  note inv = tree_tree_inv [OF assms(1)]
  have sc: "env_scope root (pr_pid p) (pr_env p)" "copy_scope True root (pr_pid p) (pr_env p) (pr_copies p ! i)"
    using inv assms(2) by (simp_all add: tree_inv_def)
  have own: "oo_primary c = Some True" "pr_pid p = root" using Owns_scope(2) [OF sc assms(3)] by simp_all
  have "tree True root (p\<lparr> pr_env := env, pr_copies := (pr_copies p)[i := c] \<rparr>)"
    by (rule tree.act [OF assms(1,2), where a = AskOwner]) (simp_all add: assms(3))
  note t1 = this
  have "ReadStampedPrimaryPid env = root"
    using tree_tree_inv [OF t1] own assms(2) by (auto simp: tree_inv_def elected_def)
  have "tree True root (p\<lparr> pr_env := env, pr_copies := [probe_copy_init] \<rparr>)"
    using tree.load [OF tree.exec [OF t1]] by simp
  then have t2: "tree True root \<lparr> pr_pid = root, pr_env = env, pr_copies = [probe_copy_init] \<rparr>"
    using own(2) by (cases p) simp
  note inv2 = tree_tree_inv [OF t2, unfolded tree_inv_def, simplified]
  obtain r c1 where r: "IsTargetProcess env root probe_copy_init = (r, c1)" by fastforce
  from inv2 have e2: "env_scope root root env" "copy_scope True root root env probe_copy_init" by simp_all
  from IsTargetProcess_scope [OF e2 r] have "r" "oo_primary c1 = None" by (simp_all add: probe_copy_init_def)
  with r \<open>ReadStampedPrimaryPid env = root\<close> have "\<not> fst (OwnsAutomaticReports env root probe_copy_init)"
    by (simp add: OwnsAutomaticReports_def IsPrimary_def)
  with t2 r \<open>r\<close> show ?thesis by simp
qed

definition demo_process :: process where
  "demo_process = \<lparr> pr_pid = 100, pr_env = Some [], pr_copies = [probe_copy_init, probe_copy_init] \<rparr>"

lemma demo_tree: "tree ok 100 demo_process"
proof -
  have "tree ok 100 \<lparr> pr_pid = 100, pr_env = Some [], pr_copies = [] \<rparr>"
    by (rule tree.launch) (simp_all add: valid_pid_def getenv_def)
  from tree.load [OF tree.load [OF this]] show ?thesis by (simp add: demo_process_def)
qed

lemma demo_owns:
  "OwnsAutomaticReports (Some []) 100 probe_copy_init =
    (True, setenv (Some []) kPrimaryPidEnv (show_nat 100),
     probe_copy_init\<lparr> oo_target_pid := 100, oo_mode := kTrack, oo_primary := Some True \<rparr>)"
  by (simp add: OwnsAutomaticReports_def IsTargetProcess_def Suppressed_def CurrentMode_def ResolveMode_def
      TargetIdentity_def getenv_def ObserveOnlyRequested_def ParseValueQuiet_def FindExternalSampleIntervalMs_def
      probe_copy_init_def IsPrimary_def ReadStampedPrimaryPid_def Let_def)


theorem one_report_owner_witness:
  "\<not> fst (OwnsAutomaticReports (setenv (Some []) kPrimaryPidEnv (show_nat 100)) 100 probe_copy_init)"
  using one_report_owner [OF demo_tree [of True], of 0 1] demo_owns by (simp add: demo_process_def)

theorem exec_ends_reports_witness:
  "fst (IsTargetProcess (setenv (Some []) kPrimaryPidEnv (show_nat 100)) 100 probe_copy_init)
   \<and> \<not> fst (OwnsAutomaticReports (setenv (Some []) kPrimaryPidEnv (show_nat 100)) 100 probe_copy_init)"
  using exec_ends_reports [OF demo_tree, of 0] demo_owns by (simp add: demo_process_def)

end
