(* ===== verification/Bootstrap.thy ===== *)
theory Bootstrap
  imports Prelude HookOps
begin

text \<open>
  The allocator that serves calls before the C library can be reached
  (\<^verbatim>\<open>src/alloc_hook.cpp\<close>, \<^verbatim>\<open>BootstrapHeader\<close> to \<^verbatim>\<open>BootstrapRealloc\<close>). Each block has a
  mapping of its own; a header in front of the payload links it into
  \<^verbatim>\<open>g_bootstrap_list\<close>. Headers are cells of an explicit store, payloads are bytes,
  and the two system calls that map and unmap pages are a parameter. An operation
  that would touch an unmapped header, or never return, has no result.
\<close>

section \<open>The allocator\<close>

record BootstrapHeader =
  bh_map_base :: ptr
  bh_map_size :: u64
  bh_requested_size :: u64
  bh_magic :: u64
  bh_next :: ptr

definition sizeof_BootstrapHeader :: u64 where "sizeof_BootstrapHeader = 48"
definition alignof_BootstrapHeader :: u64 where "alignof_BootstrapHeader = 16"
definition kBootstrapMagic :: u64 where "kBootstrapMagic = 0x6d616c6c6f635f68"

record 'k pages =
  pg_page_size :: int
  pg_mmap :: "u64 \<Rightarrow> 'k \<Rightarrow> ptr \<times> 'k"
  pg_munmap :: "ptr \<Rightarrow> u64 \<Rightarrow> 'k \<Rightarrow> 'k"

record 'k boot =
  g_bootstrap_list :: ptr
  bt_headers :: "ptr \<rightharpoonup> BootstrapHeader"
  bt_bytes :: "ptr \<Rightarrow> u8"
  bt_errno :: int
  bt_kernel :: 'k

definition IsPowerOfTwo :: "u64 \<Rightarrow> bool" where
  "IsPowerOfTwo v \<longleftrightarrow> v \<noteq> 0 \<and> v AND (v - 1) = 0"

definition CheckedAdd :: "u64 \<Rightarrow> u64 \<Rightarrow> u64 option" where
  "CheckedAdd lhs rhs = (if rhs > SIZE_MAX - lhs then None else Some (lhs + rhs))"

definition PageAlign :: "int \<Rightarrow> u64 \<Rightarrow> u64" where
  "PageAlign page_size n =
     (let alignment = (if page_size > 0 then of_int page_size else 4096)
      in if \<not> IsPowerOfTwo alignment \<or> n > SIZE_MAX - (alignment - 1) then 0
         else (n + alignment - 1) AND NOT (alignment - 1))"

partial_function (option) boot_walk :: "(ptr \<rightharpoonup> BootstrapHeader) \<Rightarrow> ptr \<Rightarrow> ptr \<Rightarrow> bool option" where
  "boot_walk hs p header =
     (if header = nullptr then Some False
      else case hs header of
        None \<Rightarrow> None
      | Some h \<Rightarrow>
          if bh_magic h = kBootstrapMagic \<and> header + sizeof_BootstrapHeader = p then Some True
          else boot_walk hs p (bh_next h))"

definition IsBootstrapPointer :: "ptr \<Rightarrow> 'k boot \<Rightarrow> bool option" where
  "IsBootstrapPointer p st =
     (if p = nullptr then Some False else boot_walk (bt_headers st) p (g_bootstrap_list st))"

definition in_range :: "ptr \<Rightarrow> u64 \<Rightarrow> ptr \<Rightarrow> bool" where
  "in_range base n a \<longleftrightarrow> a - base < n"

definition BootstrapAlignedMalloc :: "'k pages \<Rightarrow> u64 \<Rightarrow> u64 \<Rightarrow> 'k boot \<Rightarrow> ptr \<times> 'k boot" where
  "BootstrapAlignedMalloc pg alignment n st =
     (if \<not> IsPowerOfTwo alignment \<or> alignment < 8 then (nullptr, st\<lparr> bt_errno := EINVAL \<rparr>)
      else
        let effective_alignment = max alignment alignof_BootstrapHeader
        in case Option.bind (CheckedAdd sizeof_BootstrapHeader n) (\<lambda>payload. CheckedAdd payload (effective_alignment - 1)) of
             None \<Rightarrow> (nullptr, st\<lparr> bt_errno := ENOMEM \<rparr>)
           | Some bytes \<Rightarrow>
               let map_size = PageAlign (pg_page_size pg) bytes
               in if map_size = 0 then (nullptr, st\<lparr> bt_errno := ENOMEM \<rparr>)
                  else
                    let (base, k) = pg_mmap pg map_size (bt_kernel st);
                        st = st\<lparr> bt_kernel := k \<rparr>
                    in if base = MAP_FAILED then (nullptr, st)
                       else
                         let first_payload = base + sizeof_BootstrapHeader;
                             aligned_payload = (first_payload + effective_alignment - 1) AND NOT (effective_alignment - 1);
                             header = aligned_payload - sizeof_BootstrapHeader
                         in (header + sizeof_BootstrapHeader,
                             st\<lparr> bt_headers := (bt_headers st)(header \<mapsto>
                                   \<lparr> bh_map_base = base, bh_map_size = map_size, bh_requested_size = n,
                                     bh_magic = kBootstrapMagic, bh_next = g_bootstrap_list st \<rparr>),
                                 bt_bytes := (\<lambda>a. if in_range base map_size a then 0 else bt_bytes st a),
                                 g_bootstrap_list := header \<rparr>))"

definition BootstrapMalloc :: "'k pages \<Rightarrow> u64 \<Rightarrow> 'k boot \<Rightarrow> ptr \<times> 'k boot" where
  "BootstrapMalloc pg n st = BootstrapAlignedMalloc pg 16 n st"

text \<open>The slot that leads to a header: the list head or the \<^verbatim>\<open>next\<close> field of a header.\<close>

partial_function (option) boot_slot ::
    "(ptr \<rightharpoonup> BootstrapHeader) \<Rightarrow> ptr \<Rightarrow> ptr option \<Rightarrow> ptr \<Rightarrow> (ptr option \<times> ptr) option" where
  "boot_slot hs header slot current =
     (if current = nullptr \<or> current = header then Some (slot, current)
      else case hs current of
        None \<Rightarrow> None
      | Some h \<Rightarrow> boot_slot hs header (Some current) (bh_next h))"

definition set_slot :: "ptr option \<Rightarrow> ptr \<Rightarrow> 'k boot \<Rightarrow> 'k boot" where
  "set_slot slot v st =
     (case slot of
        None \<Rightarrow> st\<lparr> g_bootstrap_list := v \<rparr>
      | Some a \<Rightarrow> st\<lparr> bt_headers := (bt_headers st)(a := map_option (\<lambda>h. h\<lparr> bh_next := v \<rparr>) (bt_headers st a)) \<rparr>)"

definition BootstrapFree :: "'k pages \<Rightarrow> ptr \<Rightarrow> 'k boot \<Rightarrow> 'k boot option" where
  "BootstrapFree pg p st =
     (case IsBootstrapPointer p st of
        None \<Rightarrow> None
      | Some False \<Rightarrow> Some st
      | Some True \<Rightarrow>
          let header = p - sizeof_BootstrapHeader
          in Option.bind (bt_headers st header) (\<lambda>h.
             Option.bind (boot_slot (bt_headers st) header None (g_bootstrap_list st)) (\<lambda>(slot, current).
               let st = (if current = header then set_slot slot (bh_next h) st else st)
               in Some (st\<lparr> bt_headers := (\<lambda>a. if in_range (bh_map_base h) (bh_map_size h) a then None else bt_headers st a),
                             bt_kernel := pg_munmap pg (bh_map_base h) (bh_map_size h) (bt_kernel st) \<rparr>))))"

definition BootstrapCalloc :: "'k pages \<Rightarrow> u64 \<Rightarrow> u64 \<Rightarrow> 'k boot \<Rightarrow> ptr \<times> 'k boot" where
  "BootstrapCalloc pg nmemb n st =
     (if unat nmemb * unat n \<ge> 2 ^ 64 then (nullptr, st\<lparr> bt_errno := ENOMEM \<rparr>)
      else
        let (p, st) = BootstrapMalloc pg (nmemb * n) st
        in (p, if p \<noteq> nullptr
               then st\<lparr> bt_bytes := (\<lambda>a. if in_range p (nmemb * n) a then 0 else bt_bytes st a) \<rparr>
               else st))"

definition memcpy :: "ptr \<Rightarrow> ptr \<Rightarrow> u64 \<Rightarrow> (ptr \<Rightarrow> u8) \<Rightarrow> ptr \<Rightarrow> u8" where
  "memcpy dst src n m = (\<lambda>a. if in_range dst n a then m (src + (a - dst)) else m a)"

definition BootstrapRealloc :: "'k pages \<Rightarrow> ptr \<Rightarrow> u64 \<Rightarrow> 'k boot \<Rightarrow> (ptr \<times> 'k boot) option" where
  "BootstrapRealloc pg p n st =
     (if p = nullptr then Some (BootstrapMalloc pg n st)
      else if n = 0 then map_option (Pair nullptr) (BootstrapFree pg p st)
      else case IsBootstrapPointer p st of
        None \<Rightarrow> None
      | Some is_boot \<Rightarrow>
          Option.bind
            (if is_boot then map_option bh_requested_size (bt_headers st (p - sizeof_BootstrapHeader)) else Some 0)
            (\<lambda>old_size.
               let (new_ptr, st) = BootstrapMalloc pg n st
               in if new_ptr \<noteq> nullptr \<and> old_size \<noteq> 0
                  then map_option (Pair new_ptr)
                         (BootstrapFree pg p (st\<lparr> bt_bytes := memcpy new_ptr p (min old_size n) (bt_bytes st) \<rparr>))
                  else Some (new_ptr, st)))"

section \<open>Alignment\<close>

lemma bit_top: "bit w k" if "2 ^ k \<le> unat w" "unat w < 2 ^ (k + 1)" for w :: u64
proof -
  have "unat w div 2 ^ k = 1" using that by (intro div_nat_eqI) simp_all
  then have "bit (unat w) k" by (simp add: bit_iff_odd)
  then show ?thesis by (simp add: bit_unsigned_iff)
qed

lemma IsPowerOfTwo_exp:
  assumes "IsPowerOfTwo v"
  obtains k where "k < 64" "v = 2 ^ k" "unat v = 2 ^ k"
proof -
  have v: "v \<noteq> 0" "v AND (v - 1) = 0" using assms by (simp_all add: IsPowerOfTwo_def)
  then have "1 \<le> unat v" by (simp add: unat_gt_0 Suc_le_eq)
  then obtain k where k: "2 ^ k \<le> unat v" "unat v < 2 ^ (k + 1)" using ex_power_ivl1 [of 2 "unat v"] by auto
  have exp: "unat v = 2 ^ k"
  proof (rule ccontr)
    assume "unat v \<noteq> 2 ^ k"
    moreover have "unat (v - 1) = unat v - 1" using v(1) by (simp add: unat_minus_one)
    ultimately have "2 ^ k \<le> unat (v - 1)" "unat (v - 1) < 2 ^ (k + 1)" using k by simp_all
    then have "bit (v AND (v - 1)) k" using bit_top [OF k] bit_top [of k "v - 1"] by (simp add: bit_and_iff)
    then show False using v(2) by simp
  qed
  have "(2 :: nat) ^ k < 2 ^ 64" using k(1) unsigned_less [where 'a = nat, of v] by simp
  then have "k < 64" by (simp only: power_strict_increasing_iff one_less_numeral_iff semiring_norm)
  moreover have "v = 2 ^ k" using arg_cong [OF exp, of "of_nat :: nat \<Rightarrow> u64"] by simp
  ultimately show ?thesis using that exp by blast
qed

lemma align_down: "unat (x AND NOT (2 ^ k - 1)) = unat x div 2 ^ k * 2 ^ k" for x :: u64
proof -
  have "x AND NOT (mask k) = push_bit k (drop_bit k x)"
    by (rule bit_eqI) (auto simp: bit_simps)
  then have "unat (x AND NOT (2 ^ k - 1)) = take_bit 64 (push_bit k (drop_bit k (unat x)))"
    by (simp add: mask_eq_exp_minus_1 unsigned_push_bit_eq unat_drop_bit_eq)
  also have "\<dots> = (unat x div 2 ^ k * 2 ^ k) mod 2 ^ 64"
    by (simp add: take_bit_eq_mod push_bit_eq_mult drop_bit_eq_div)
  also have "\<dots> = unat x div 2 ^ k * 2 ^ k"
    by (rule mod_less) (use unsigned_less [where 'a = nat, of x] in \<open>simp add: le_less_trans [OF div_times_less_eq_dividend]\<close>)
  finally show ?thesis .
qed

lemma align_up:
  assumes "IsPowerOfTwo a" "unat x + unat a - 1 < 2 ^ 64"
  shows "unat x \<le> unat ((x + a - 1) AND NOT (a - 1))" "unat ((x + a - 1) AND NOT (a - 1)) \<le> unat x + unat a - 1"
    "unat a dvd unat ((x + a - 1) AND NOT (a - 1))"
proof -
  from assms(1) obtain k where k: "a = 2 ^ k" "unat a = 2 ^ k" by (rule IsPowerOfTwo_exp)
  have a1: "unat (a - 1) = unat a - 1" using assms(1) by (simp add: IsPowerOfTwo_def unat_minus_one)
  have "1 \<le> unat a" unfolding k(2) by simp
  then have "unat x + unat (a - 1) < 2 ^ LENGTH(64)" using assms(2) a1 by simp
  then have "unat (x + (a - 1)) = unat x + unat (a - 1)" by (simp only: unat_add_lem)
  then have u: "unat (x + a - 1) = unat x + unat a - 1"
    using a1 \<open>1 \<le> unat a\<close> by (simp add: add_diff_eq)
  have d: "unat ((x + a - 1) AND NOT (a - 1)) = (unat x + unat a - 1) div unat a * unat a"
    using align_down [of "x + a - 1" k] u k by simp
  show "unat ((x + a - 1) AND NOT (a - 1)) \<le> unat x + unat a - 1" "unat a dvd unat ((x + a - 1) AND NOT (a - 1))"
    by (simp_all add: d div_times_less_eq_dividend)
  have "(unat x + unat a - 1) mod unat a < unat a" unfolding k(2) by simp
  moreover have "(unat x + unat a - 1) div unat a * unat a + (unat x + unat a - 1) mod unat a = unat x + unat a - 1"
    by (rule div_mult_mod_eq)
  ultimately show "unat x \<le> unat ((x + a - 1) AND NOT (a - 1))" unfolding d by linarith
qed

section \<open>The list of blocks\<close>

fun chain :: "(ptr \<rightharpoonup> BootstrapHeader) \<Rightarrow> ptr \<Rightarrow> ptr list \<Rightarrow> bool" where
  "chain hs p [] \<longleftrightarrow> p = nullptr"
| "chain hs p (x # xs) \<longleftrightarrow> p = x \<and> x \<noteq> nullptr
     \<and> (case hs x of None \<Rightarrow> False | Some h \<Rightarrow> bh_magic h = kBootstrapMagic \<and> chain hs (bh_next h) xs)"

lemma chain_cong: "(\<And>x. x \<in> set xs \<Longrightarrow> hs' x = hs x) \<Longrightarrow> chain hs' p xs = chain hs p xs"
  by (induction xs arbitrary: p) (auto split: option.splits)

lemma chain_mem: "chain hs p xs \<Longrightarrow> x \<in> set xs \<Longrightarrow> x \<noteq> nullptr \<and> (\<exists>h. hs x = Some h)"
  by (induction xs arbitrary: p) (auto split: option.splits)

text \<open>The walk over a well-formed list returns, and finds exactly the payloads of the list.\<close>

lemma boot_walk_chain:
  "chain hs p xs \<Longrightarrow> boot_walk hs q p = Some (q \<in> (\<lambda>x. x + sizeof_BootstrapHeader) ` set xs)"
proof (induction xs arbitrary: p)
  case Nil
  then show ?case by (subst boot_walk.simps) simp
next
  case (Cons x xs)
  then obtain h where "p = x" "x \<noteq> nullptr" "hs x = Some h" "bh_magic h = kBootstrapMagic" "chain hs (bh_next h) xs"
    by (auto split: option.splits)
  with Cons.IH show ?case by (subst boot_walk.simps) auto
qed

lemma boot_slot_chain:
  "chain hs p (pre @ x # post) \<Longrightarrow> x \<notin> set pre \<Longrightarrow>
   boot_slot hs x slot p = Some (if pre = [] then slot else Some (last pre), x)"
proof (induction pre arbitrary: p slot)
  case Nil
  then show ?case by (subst boot_slot.simps) simp
next
  case (Cons y pre)
  then obtain h where "p = y" "y \<noteq> nullptr" "hs y = Some h" "chain hs (bh_next h) (pre @ x # post)"
    by (auto split: option.splits)
  with Cons show ?case by (subst boot_slot.simps) auto
qed

lemma chain_unlink:
  assumes "chain hs p (pre @ x # post)" "distinct (pre @ x # post)" "hs x = Some h"
  shows "if pre = [] then chain hs (bh_next h) post
    else chain (hs(last pre := map_option (\<lambda>g. g\<lparr> bh_next := bh_next h \<rparr>) (hs (last pre)))) p (pre @ post)"
  using assms
proof (induction pre arbitrary: p)
  case (Cons y pre)
  then obtain g where g: "p = y" "y \<noteq> nullptr" "hs y = Some g" "bh_magic g = kBootstrapMagic"
      "chain hs (bh_next g) (pre @ x # post)"
    by (auto split: option.splits)
  show ?case
  proof (cases "pre = []")
    case True
    with g Cons.prems have "chain hs (bh_next h) post" by (auto split: option.splits)
    moreover have "y \<notin> set post" using Cons.prems(2) by simp
    ultimately have "chain (hs(y := Some (g\<lparr> bh_next := bh_next h \<rparr>))) (bh_next h) post"
      using chain_cong [of post "hs(y := Some (g\<lparr> bh_next := bh_next h \<rparr>))" hs] by (metis fun_upd_other)
    with g True show ?thesis by simp
  next
    case False
    then have "last pre \<noteq> y" using Cons.prems(2) last_in_set [OF False] by auto
    with g False Cons.IH [OF g(5)] Cons.prems(2,3) show ?thesis by simp
  qed
qed (auto split: option.splits)

section \<open>Mappings of the kernel\<close>

text \<open>
  What \<^verbatim>\<open>mmap\<close> and \<^verbatim>\<open>munmap\<close> document, for a function that reads the mappings of the
  process off the state of the kernel: a new mapping is apart from every other
  one and does not wrap around the address space; an unmapped one is gone.
\<close>

definition apart :: "ptr \<times> u64 \<Rightarrow> ptr \<times> u64 \<Rightarrow> bool" where
  "apart r s \<longleftrightarrow> unat (fst r) + unat (snd r) \<le> unat (fst s) \<or> unat (fst s) + unat (snd s) \<le> unat (fst r)"

definition kernel_ok :: "'k pages \<Rightarrow> ('k \<Rightarrow> (ptr \<times> u64) set) \<Rightarrow> bool" where
  "kernel_ok pg maps \<longleftrightarrow>
     (\<forall>n k p k'. n \<noteq> 0 \<longrightarrow> pg_mmap pg n k = (p, k') \<longrightarrow>
        (if p = MAP_FAILED then maps k' = maps k
         else p \<noteq> nullptr \<and> unat p + unat n < 2 ^ 64 \<and> (\<forall>r \<in> maps k. apart (p, n) r)
           \<and> maps k' = insert (p, n) (maps k)))
     \<and> (\<forall>p n k. (p, n) \<in> maps k \<longrightarrow> maps (pg_munmap pg p n k) = maps k - {(p, n)})"

definition mapping_of :: "BootstrapHeader \<Rightarrow> ptr \<times> u64" where
  "mapping_of h = (bh_map_base h, bh_map_size h)"

text \<open>A header with its payload inside its own mapping.\<close>

definition block_ok :: "(ptr \<times> u64) set \<Rightarrow> ptr \<Rightarrow> BootstrapHeader \<Rightarrow> bool" where
  "block_ok M x h \<longleftrightarrow> mapping_of h \<in> M
     \<and> unat (bh_map_base h) \<le> unat x
     \<and> unat x + unat sizeof_BootstrapHeader + unat (bh_requested_size h) \<le> unat (bh_map_base h) + unat (bh_map_size h)
     \<and> unat (bh_map_base h) + unat (bh_map_size h) < 2 ^ 64"

definition boot_inv :: "('k \<Rightarrow> (ptr \<times> u64) set) \<Rightarrow> 'k boot \<Rightarrow> ptr list \<Rightarrow> bool" where
  "boot_inv maps st xs \<longleftrightarrow> chain (bt_headers st) (g_bootstrap_list st) xs
     \<and> (\<forall>x \<in> set xs. \<forall>h. bt_headers st x = Some h \<longrightarrow> block_ok (maps (bt_kernel st)) x h)
     \<and> (\<forall>r \<in> maps (bt_kernel st). \<forall>s \<in> maps (bt_kernel st). r \<noteq> s \<longrightarrow> apart r s)
     \<and> distinct xs
     \<and> (\<forall>x \<in> set xs. \<forall>y \<in> set xs. \<forall>h g. bt_headers st x = Some h \<longrightarrow> bt_headers st y = Some g \<longrightarrow>
          mapping_of h = mapping_of g \<longrightarrow> x = y)"

lemma CheckedAdd_unat: "CheckedAdd a b = Some c \<longleftrightarrow> unat a + unat b < 2 ^ 64 \<and> c = a + b"
proof -
  have "unat a < 2 ^ 64" using unsigned_less [where 'a = nat, of a] by simp
  with unat_max_minus [of a] show ?thesis by (auto simp: CheckedAdd_def word_less_nat_alt)
qed

lemma PageAlign_ge: "PageAlign ps n \<noteq> 0 \<Longrightarrow> unat n \<le> unat (PageAlign ps n)"
proof -
  define a :: u64 where "a = (if ps > 0 then of_int ps else 4096)"
  assume "PageAlign ps n \<noteq> 0"
  then have a: "IsPowerOfTwo a" "\<not> n > SIZE_MAX - (a - 1)" "PageAlign ps n = (n + a - 1) AND NOT (a - 1)"
    by (auto simp: PageAlign_def Let_def a_def split: if_splits)
  have "unat (a - 1) = unat a - 1" "a \<noteq> 0" using a(1) by (simp_all add: IsPowerOfTwo_def unat_minus_one)
  moreover have "0 < unat a" "unat a < 2 ^ 64" using \<open>a \<noteq> 0\<close> unsigned_less [where 'a = nat, of a] by (simp_all add: unat_gt_0)
  moreover have "unat n \<le> unat (SIZE_MAX - (a - 1))" using a(2) by (simp only: word_less_nat_alt not_less)
  ultimately have "unat n + unat a - 1 < 2 ^ 64" using unat_max_minus [of "a - 1"] by linarith
  from align_up(1) [OF a(1) this] show ?thesis by (simp add: a(3))
qed

section \<open>Allocation\<close>

lemma boot_layout:
  assumes "IsPowerOfTwo e" "CheckedAdd sizeof_BootstrapHeader n = Some payload" "CheckedAdd payload (e - 1) = Some bytes"
    and "unat bytes \<le> unat msize" "unat base + unat msize < 2 ^ 64"
  defines "ap \<equiv> (base + sizeof_BootstrapHeader + e - 1) AND NOT (e - 1)"
  shows "unat base \<le> unat (ap - sizeof_BootstrapHeader)" "unat e dvd unat ap"
    "unat (ap - sizeof_BootstrapHeader) + unat sizeof_BootstrapHeader + unat n \<le> unat base + unat msize"
proof -
  have e: "unat (e - 1) = unat e - 1" "0 < unat e" using assms(1) by (simp_all add: IsPowerOfTwo_def unat_minus_one unat_gt_0)
  have p: "unat payload = 48 + unat n" using assms(2) unat_add_lem [of "48 :: u64" n]
    by (auto simp: CheckedAdd_unat sizeof_BootstrapHeader_def)
  have b: "unat bytes = 48 + unat n + (unat e - 1)"
    using assms(3) unat_add_lem [of payload "e - 1"] e p by (auto simp: CheckedAdd_unat)
  have f: "unat (base + 48) = unat base + 48"
    using unat_add_lem [of base "48 :: u64"] assms(4,5) b by simp
  have up: "unat (base + 48) + unat e - 1 < 2 ^ 64" using assms(4,5) b f e(2) by simp
  note ap = align_up [OF assms(1) up, folded sizeof_BootstrapHeader_def, folded ap_def]
  show "unat e dvd unat ap" by (rule ap(3))
  have "unat base + 48 \<le> unat ap" using ap(1) f by (simp add: sizeof_BootstrapHeader_def)
  then have h: "unat (ap - sizeof_BootstrapHeader) = unat ap - 48"
    by (simp add: unat_sub word_le_nat_alt sizeof_BootstrapHeader_def)
  with \<open>unat base + 48 \<le> unat ap\<close> show "unat base \<le> unat (ap - sizeof_BootstrapHeader)" by simp
  have "unat ap \<le> unat base + 48 + unat e - 1" using ap(2) f by (simp add: sizeof_BootstrapHeader_def)
  then show "unat (ap - sizeof_BootstrapHeader) + unat sizeof_BootstrapHeader + unat n \<le> unat base + unat msize"
    using h b assms(4) e(2) \<open>unat base + 48 \<le> unat ap\<close> by (simp add: sizeof_BootstrapHeader_def)
qed

lemma IsPowerOfTwo_max: "IsPowerOfTwo a \<Longrightarrow> IsPowerOfTwo (max a alignof_BootstrapHeader)"
  by (auto simp: max_def alignof_BootstrapHeader_def IsPowerOfTwo_def)

lemma max_align_dvd: "IsPowerOfTwo a \<Longrightarrow> unat a dvd unat (max a alignof_BootstrapHeader)"
proof (cases "a \<le> alignof_BootstrapHeader")
  case True
  assume "IsPowerOfTwo a"
  then obtain k where k: "unat a = 2 ^ k" by (rule IsPowerOfTwo_exp)
  with True have "(2 :: nat) ^ k \<le> 2 ^ 4" by (simp add: word_le_nat_alt alignof_BootstrapHeader_def)
  then have "k \<le> 4" by (simp only: power_increasing_iff one_less_numeral_iff semiring_norm)
  then have "(2 :: nat) ^ k dvd 2 ^ 4" by (rule le_imp_power_dvd)
  with k True show ?thesis by (simp add: max_def alignof_BootstrapHeader_def)
qed (simp add: max_def)

lemma header_bounds:
  assumes "block_ok M x h"
  shows "unat x < unat (bh_map_base h) + unat (bh_map_size h)" "unat (bh_map_base h) \<le> unat x"
  using assms by (simp_all add: block_ok_def sizeof_BootstrapHeader_def)

text \<open>Headers of distinct mappings are distinct, and a header lies in no other mapping.\<close>

lemma in_range_unat: "unat base + unat n < 2 ^ 64 \<Longrightarrow> in_range base n a \<longleftrightarrow> unat base \<le> unat a \<and> unat a < unat base + unat n"
  for base :: ptr
proof -
  assume w: "unat base + unat n < 2 ^ 64"
  show ?thesis
  proof (cases "base \<le> a")
    case True
    then show ?thesis by (auto simp: in_range_def word_less_nat_alt unat_sub word_le_nat_alt)
  next
    case False
    then have "unat a < unat base" by (simp add: word_le_nat_alt)
    moreover have "unat (a - base) = 2 ^ 64 + unat a - unat base"
      using False by (simp add: unat_sub_if_size word_le_nat_alt word_size)
    ultimately show ?thesis using w by (simp add: in_range_def word_less_nat_alt)
  qed
qed

text \<open>The two ways an allocation ends.\<close>

lemma BootstrapAlignedMalloc_cases:
  assumes "BootstrapAlignedMalloc pg al n st = (p, st')"
  obtains (refused) e where "p = nullptr" "st' = st\<lparr> bt_errno := e \<rparr>"
  | (failed) msize k where "p = nullptr" "msize \<noteq> 0" "pg_mmap pg msize (bt_kernel st) = (MAP_FAILED, k)" "st' = st\<lparr> bt_kernel := k \<rparr>"
  | (mapped) payload bytes msize base k h where "IsPowerOfTwo al" "CheckedAdd sizeof_BootstrapHeader n = Some payload"
      "CheckedAdd payload (max al alignof_BootstrapHeader - 1) = Some bytes" "msize = PageAlign (pg_page_size pg) bytes"
      "msize \<noteq> 0" "pg_mmap pg msize (bt_kernel st) = (base, k)" "base \<noteq> MAP_FAILED"
      "p = (base + sizeof_BootstrapHeader + max al alignof_BootstrapHeader - 1) AND NOT (max al alignof_BootstrapHeader - 1)"
      "h = \<lparr> bh_map_base = base, bh_map_size = msize, bh_requested_size = n, bh_magic = kBootstrapMagic,
             bh_next = g_bootstrap_list st \<rparr>"
      "st' = st\<lparr> bt_kernel := k, bt_headers := (bt_headers st)(p - sizeof_BootstrapHeader \<mapsto> h),
               bt_bytes := (\<lambda>a. if in_range base msize a then 0 else bt_bytes st a),
               g_bootstrap_list := p - sizeof_BootstrapHeader \<rparr>"
proof (cases "IsPowerOfTwo al \<and> \<not> al < 8")
  case False
  then have "p = nullptr" "st' = st\<lparr> bt_errno := EINVAL \<rparr>" using assms by (auto simp: BootstrapAlignedMalloc_def)
  then show ?thesis by (rule refused)
next
  case True
  note def = assms [unfolded BootstrapAlignedMalloc_def Let_def, simplified True simp_thms if_False]
  show ?thesis
  proof (cases "Option.bind (CheckedAdd sizeof_BootstrapHeader n)
      (\<lambda>payload. CheckedAdd payload (max al alignof_BootstrapHeader - 1))")
    case None
    with def have "p = nullptr" "st' = st\<lparr> bt_errno := ENOMEM \<rparr>" by simp_all
    then show ?thesis by (rule refused)
  next
    case (Some bytes)
    then obtain payload where payload: "CheckedAdd sizeof_BootstrapHeader n = Some payload"
        "CheckedAdd payload (max al alignof_BootstrapHeader - 1) = Some bytes"
      by (auto simp: bind_eq_Some_conv)
    show ?thesis
    proof (cases "PageAlign (pg_page_size pg) bytes = 0")
      case True
      with def Some have "p = nullptr" "st' = st\<lparr> bt_errno := ENOMEM \<rparr>" by simp_all
      then show ?thesis by (rule refused)
    next
      case False
      obtain base k where mm: "pg_mmap pg (PageAlign (pg_page_size pg) bytes) (bt_kernel st) = (base, k)" by fastforce
      show ?thesis
      proof (cases "base = MAP_FAILED")
        case True
        with def Some False mm have "p = nullptr" "st' = st\<lparr> bt_kernel := k \<rparr>" by simp_all
        with False mm True show ?thesis by (auto intro: failed)
      next
        case ok: False
        from def Some False mm ok show ?thesis
          by (intro mapped [OF conjunct1 [OF \<open>IsPowerOfTwo al \<and> \<not> al < 8\<close>] payload refl False mm ok _ refl]) (auto cong: if_cong)
      qed
    qed
  qed
qed

lemma BootstrapAlignedMalloc_inv:
  assumes "boot_inv maps st xs" "kernel_ok pg maps" "BootstrapAlignedMalloc pg al n st = (p, st')"
  shows "if p = nullptr then boot_inv maps st' xs \<and> bt_headers st' = bt_headers st \<and> bt_bytes st' = bt_bytes st
           \<and> maps (bt_kernel st') = maps (bt_kernel st)
    else boot_inv maps st' ((p - sizeof_BootstrapHeader) # xs) \<and> unat al dvd unat p
      \<and> (\<exists>h. bt_headers st' = (bt_headers st)(p - sizeof_BootstrapHeader \<mapsto> h) \<and> bh_requested_size h = n
            \<and> (\<forall>r \<in> maps (bt_kernel st). apart (mapping_of h) r)
            \<and> bt_bytes st' = (\<lambda>a. if in_range (bh_map_base h) (bh_map_size h) a then 0 else bt_bytes st a))"
  using assms(3)
proof (cases rule: BootstrapAlignedMalloc_cases)
  case (refused e)
  then show ?thesis using assms(1) by (simp add: boot_inv_def)
next
  case (failed msize k)
  then have "maps k = maps (bt_kernel st)" using assms(2) by (simp add: kernel_ok_def)
  with failed show ?thesis using assms(1) by (simp add: boot_inv_def)
next
  case (mapped payload bytes msize base k h)
  let ?x = "p - sizeof_BootstrapHeader"
  have kn: "base \<noteq> nullptr" "unat base + unat msize < 2 ^ 64" "\<forall>r \<in> maps (bt_kernel st). apart (base, msize) r"
    "maps k = insert (base, msize) (maps (bt_kernel st))"
    using assms(2) [unfolded kernel_ok_def, THEN conjunct1, rule_format, OF mapped(5,6)] mapped(7) by simp_all
  note lay = boot_layout [OF IsPowerOfTwo_max [OF mapped(1)] mapped(2,3) _ kn(2), folded mapped(8)]
  have bs: "unat bytes \<le> unat msize" using PageAlign_ge mapped(4,5) by simp
  have x: "unat base \<le> unat ?x" "unat ?x + unat sizeof_BootstrapHeader + unat n \<le> unat base + unat msize"
    "unat (max al alignof_BootstrapHeader) dvd unat p"
    using lay [OF bs] by simp_all
  have "0 < unat base" using kn(1) by (simp add: unat_gt_0)
  with x(1) have x0: "?x \<noteq> nullptr" by auto
  with mapped(7) have "p \<noteq> nullptr"
    using x(1,2) kn(2) \<open>0 < unat base\<close> by (auto simp: sizeof_BootstrapHeader_def)
  have hb: "block_ok (maps k) ?x h"
    using x kn by (simp add: block_ok_def mapping_of_def mapped(9))
  note inv = assms(1) [unfolded boot_inv_def]
  have ne: "y \<noteq> ?x \<and> mapping_of g \<noteq> mapping_of h" if "y \<in> set xs" "bt_headers st y = Some g" for y g
  proof -
    have "block_ok (maps (bt_kernel st)) y g" using inv that by blast
    then have "apart (base, msize) (mapping_of g)" "unat (bh_map_base g) \<le> unat y" "unat y < unat (bh_map_base g) + unat (bh_map_size g)"
      using kn(3) header_bounds by (auto simp: block_ok_def)
    then show ?thesis using header_bounds [OF hb] by (auto simp: apart_def mapping_of_def mapped(9))
  qed
  have cells: "\<exists>g. bt_headers st y = Some g" if "y \<in> set xs" for y
    using chain_mem [OF conjunct1 [OF inv] that] by blast
  have nx: "?x \<notin> set xs" using ne [of ?x] cells [of ?x] by blast
  have ch: "chain (bt_headers st') (g_bootstrap_list st') (?x # xs)"
  proof -
    have "bt_headers st' y = bt_headers st y" if "y \<in> set xs" for y using nx that by (auto simp: mapped(10))
    then have "chain (bt_headers st') (g_bootstrap_list st) xs" using inv chain_cong [of xs "bt_headers st'" "bt_headers st"] by blast
    then show ?thesis using x0 by (simp add: mapped(9,10))
  qed
  have bl: "block_ok (maps k) y g" if "y \<in> set xs" "bt_headers st y = Some g" for y g
    using inv that kn(4) by (auto simp: block_ok_def)
  have "boot_inv maps st' (?x # xs)"
    unfolding boot_inv_def
  proof (intro conjI)
    show "\<forall>y \<in> set (?x # xs). \<forall>g. bt_headers st' y = Some g \<longrightarrow> block_ok (maps (bt_kernel st')) y g"
      using hb bl by (simp add: mapped(10))
    show "\<forall>r \<in> maps (bt_kernel st'). \<forall>s \<in> maps (bt_kernel st'). r \<noteq> s \<longrightarrow> apart r s"
      using inv kn(3,4) by (auto simp: mapped(10) apart_def)
    show "\<forall>y \<in> set (?x # xs). \<forall>z \<in> set (?x # xs). \<forall>f g. bt_headers st' y = Some f \<longrightarrow> bt_headers st' z = Some g \<longrightarrow>
        mapping_of f = mapping_of g \<longrightarrow> y = z"
      using inv ne nx by (simp add: mapped(10)) (metis (no_types))
  qed (use ch nx inv in simp_all)
  moreover have "unat al dvd unat p" using max_align_dvd [OF mapped(1)] x(3) dvd_trans by blast
  moreover have "bt_headers st' = (bt_headers st)(?x \<mapsto> h) \<and> bh_requested_size h = n
      \<and> (\<forall>r \<in> maps (bt_kernel st). apart (mapping_of h) r)
      \<and> bt_bytes st' = (\<lambda>a. if in_range (bh_map_base h) (bh_map_size h) a then 0 else bt_bytes st a)"
    using kn(3) by (simp add: mapped(9,10) mapping_of_def)
  ultimately show ?thesis using \<open>p \<noteq> nullptr\<close> by auto
qed

section \<open>Release\<close>

lemma IsBootstrapPointer_inv:
  assumes "boot_inv maps st xs"
  shows "IsBootstrapPointer p st = Some (p \<noteq> nullptr \<and> p - sizeof_BootstrapHeader \<in> set xs)"
proof -
  have "(p \<in> (\<lambda>x. x + sizeof_BootstrapHeader) ` set xs) = (p - sizeof_BootstrapHeader \<in> set xs)"
    by (force simp: image_iff)
  then show ?thesis
    using boot_walk_chain [of "bt_headers st" "g_bootstrap_list st" xs p] assms
    by (simp add: IsBootstrapPointer_def boot_inv_def)
qed

lemma BootstrapFree_inv:
  assumes "boot_inv maps st xs" "kernel_ok pg maps" "p \<noteq> nullptr" "p - sizeof_BootstrapHeader \<in> set xs"
  obtains h st' where "BootstrapFree pg p st = Some st'" "bt_headers st (p - sizeof_BootstrapHeader) = Some h"
    "boot_inv maps st' (remove1 (p - sizeof_BootstrapHeader) xs)" "bt_bytes st' = bt_bytes st"
    "maps (bt_kernel st') = maps (bt_kernel st) - {mapping_of h}"
    "\<And>y g. y \<in> set (remove1 (p - sizeof_BootstrapHeader) xs) \<Longrightarrow> bt_headers st y = Some g \<Longrightarrow>
       \<exists>v. bt_headers st' y = Some (g\<lparr> bh_next := v \<rparr>)"
proof -
  let ?x = "p - sizeof_BootstrapHeader"
  note inv = assms(1) [unfolded boot_inv_def]
  obtain pre post where xs: "xs = pre @ ?x # post" "?x \<notin> set pre" using split_list_first [OF assms(4)] by blast
  have ch: "chain (bt_headers st) (g_bootstrap_list st) (pre @ ?x # post)" and d: "distinct (pre @ ?x # post)"
    using inv xs(1) by simp_all
  obtain h where h: "bt_headers st ?x = Some h" using chain_mem [OF ch, of ?x] by auto
  have hb: "block_ok (maps (bt_kernel st)) ?x h" using inv assms(4) h by blast
  have rem: "remove1 ?x xs = pre @ post" using xs by (simp add: remove1_append)
  define S1 where "S1 = (if pre = [] then bt_headers st
    else (bt_headers st)(last pre := map_option (\<lambda>g. g\<lparr> bh_next := bh_next h \<rparr>) (bt_headers st (last pre))))"
  define l1 where "l1 = (if pre = [] then bh_next h else g_bootstrap_list st)"
  define S2 where "S2 = (\<lambda>a. if in_range (bh_map_base h) (bh_map_size h) a then None else S1 a)"
  define st' where "st' = st\<lparr> g_bootstrap_list := l1, bt_headers := S2,
    bt_kernel := pg_munmap pg (bh_map_base h) (bh_map_size h) (bt_kernel st) \<rparr>"
  have run: "BootstrapFree pg p st = Some st'"
    using IsBootstrapPointer_inv [OF assms(1), of p] assms(3,4) h boot_slot_chain [OF ch xs(2), of None]
    by (simp add: BootstrapFree_def Let_def set_slot_def st'_def S2_def S1_def l1_def cong: if_cong)
  have c1: "chain S1 l1 (pre @ post)"
    using chain_unlink [OF ch d h] by (simp add: S1_def l1_def split: if_splits)
  have sep: "mapping_of g \<noteq> mapping_of h" if "y \<in> set (pre @ post)" "bt_headers st y = Some g" for y g
    using inv that assms(4) h d by (auto simp: xs(1))
  have out: "\<not> in_range (bh_map_base h) (bh_map_size h) y" if "y \<in> set (pre @ post)" for y
  proof -
    have y: "y \<in> set xs" "y \<noteq> ?x" using that d by (auto simp: xs(1))
    obtain g where g: "bt_headers st y = Some g" using chain_mem [OF ch, of y] y(1) xs(1) by auto
    have gb: "block_ok (maps (bt_kernel st)) y g" using inv y(1) g by blast
    have "apart (mapping_of g) (mapping_of h)" using inv gb hb sep [OF that g] by (simp add: block_ok_def)
    then show ?thesis
      using header_bounds [OF gb] hb by (auto simp: apart_def mapping_of_def block_ok_def in_range_unat)
  qed
  have same: "\<exists>v. S2 y = Some (g\<lparr> bh_next := v \<rparr>)" if "y \<in> set (pre @ post)" "bt_headers st y = Some g" for y g
  proof -
    have "S2 y = S1 y" using out [OF that(1)] by (simp add: S2_def)
    moreover have "S1 y = Some g \<or> S1 y = Some (g\<lparr> bh_next := bh_next h \<rparr>)" using that(2) by (auto simp: S1_def)
    moreover have "g = g\<lparr> bh_next := bh_next g \<rparr>" by simp
    ultimately show ?thesis by metis
  qed
  have mk: "maps (bt_kernel st') = maps (bt_kernel st) - {mapping_of h}"
    using assms(2) hb by (simp add: kernel_ok_def st'_def mapping_of_def block_ok_def)
  have c2: "chain S2 l1 (pre @ post)" using c1 out chain_cong [of "pre @ post" S2 S1] by (simp add: S2_def)
  have cell: "\<exists>g v. bt_headers st y = Some g \<and> g' = g\<lparr> bh_next := v \<rparr>" if "y \<in> set (pre @ post)" "S2 y = Some g'" for y g'
    using same [OF that(1)] chain_mem [OF ch, of y] that by force
  have hs': "bt_headers st' = S2" by (simp add: st'_def)
  have upd: "mapping_of (g\<lparr> bh_next := v \<rparr>) = mapping_of g" "block_ok M y (g\<lparr> bh_next := v \<rparr>) = block_ok M y g" for M y g v
    by (simp_all add: mapping_of_def block_ok_def)
  have "boot_inv maps st' (pre @ post)"
    unfolding boot_inv_def
  proof (intro conjI)
    show "\<forall>y \<in> set (pre @ post). \<forall>g. bt_headers st' y = Some g \<longrightarrow> block_ok (maps (bt_kernel st')) y g"
    proof (intro ballI allI impI)
      fix y g' assume y: "y \<in> set (pre @ post)" "bt_headers st' y = Some g'"
      then obtain g v where g: "bt_headers st y = Some g" "g' = g\<lparr> bh_next := v \<rparr>" using cell [OF y [unfolded hs']] by blast
      have "block_ok (maps (bt_kernel st)) y g" using inv y(1) g(1) by (auto simp: xs(1))
      with sep [OF y(1) g(1)] show "block_ok (maps (bt_kernel st')) y g'" by (simp add: g(2) upd mk) (simp add: block_ok_def)
    qed
    show "\<forall>y \<in> set (pre @ post). \<forall>z \<in> set (pre @ post). \<forall>f g. bt_headers st' y = Some f \<longrightarrow> bt_headers st' z = Some g \<longrightarrow>
        mapping_of f = mapping_of g \<longrightarrow> y = z"
    proof (intro ballI allI impI)
      fix y z f' g' assume yz: "y \<in> set (pre @ post)" "z \<in> set (pre @ post)" "bt_headers st' y = Some f'" "bt_headers st' z = Some g'"
        "mapping_of f' = mapping_of g'"
      obtain f v where f: "bt_headers st y = Some f" "f' = f\<lparr> bh_next := v \<rparr>" using cell [OF yz(1) yz(3) [unfolded hs']] by blast
      obtain g w where g: "bt_headers st z = Some g" "g' = g\<lparr> bh_next := w \<rparr>" using cell [OF yz(2) yz(4) [unfolded hs']] by blast
      have "mapping_of f = mapping_of g" using yz(5) by (simp add: f(2) g(2) upd)
      then show "y = z" using inv yz(1,2) f(1) g(1) unfolding xs(1) by simp
    qed
  qed (use c2 d inv mk in \<open>simp_all add: st'_def\<close>)
  then show ?thesis using that [OF run h] rem mk same by (simp add: st'_def)
qed

lemma BootstrapFree_live:
  assumes "boot_inv maps st xs" "kernel_ok pg maps" "p \<noteq> nullptr" "p - sizeof_BootstrapHeader \<in> set xs"
  shows "\<exists>st'. BootstrapFree pg p st = Some st' \<and> boot_inv maps st' (remove1 (p - sizeof_BootstrapHeader) xs)
    \<and> bt_bytes st' = bt_bytes st"
  using assms by (rule BootstrapFree_inv) (intro exI conjI; assumption)

section \<open>Sequences of calls\<close>

definition boot_init :: "(ptr \<Rightarrow> u8) \<Rightarrow> int \<Rightarrow> 'k \<Rightarrow> 'k boot" where
  "boot_init m e k = \<lparr> g_bootstrap_list = nullptr, bt_headers = Map.empty, bt_bytes = m, bt_errno = e, bt_kernel = k \<rparr>"

datatype boot_call = BAlloc u64 u64 | BCalloc u64 u64 | BRealloc ptr u64 | BFree ptr

fun boot_step :: "'k pages \<Rightarrow> boot_call \<Rightarrow> 'k boot \<Rightarrow> 'k boot option" where
  "boot_step pg (BAlloc al n) st = Some (snd (BootstrapAlignedMalloc pg al n st))"
| "boot_step pg (BCalloc m n) st = Some (snd (BootstrapCalloc pg m n st))"
| "boot_step pg (BRealloc p n) st = map_option snd (BootstrapRealloc pg p n st)"
| "boot_step pg (BFree p) st = BootstrapFree pg p st"

inductive boot_reach :: "'k pages \<Rightarrow> ('k \<Rightarrow> (ptr \<times> u64) set) \<Rightarrow> 'k boot \<Rightarrow> bool" for pg maps where
  start: "\<forall>r \<in> maps k. \<forall>s \<in> maps k. r \<noteq> s \<longrightarrow> apart r s \<Longrightarrow> boot_reach pg maps (boot_init m e k)"
| step: "boot_reach pg maps st \<Longrightarrow> boot_step pg c st = Some st' \<Longrightarrow> boot_reach pg maps st'"

lemma boot_inv_bytes [simp]:
  "boot_inv maps (st\<lparr> bt_bytes := m \<rparr>) xs = boot_inv maps st xs" "boot_inv maps (st\<lparr> bt_errno := e \<rparr>) xs = boot_inv maps st xs"
  by (simp_all add: boot_inv_def)

lemma Malloc_inv:
  assumes "boot_inv maps st xs" "kernel_ok pg maps"
  shows "\<exists>ys. boot_inv maps (snd (BootstrapAlignedMalloc pg al n st)) ys"
proof -
  obtain p st' where m: "BootstrapAlignedMalloc pg al n st = (p, st')" by fastforce
  show ?thesis using BootstrapAlignedMalloc_inv [OF assms m] m by (cases "p = nullptr") auto
qed

lemma Free_inv:
  assumes "boot_inv maps st xs" "kernel_ok pg maps"
  shows "\<exists>st' ys. BootstrapFree pg p st = Some st' \<and> boot_inv maps st' ys"
proof (cases "p \<noteq> nullptr \<and> p - sizeof_BootstrapHeader \<in> set xs")
  case True
  then show ?thesis using BootstrapFree_inv [OF assms, of p] by metis
next
  case False
  then have "IsBootstrapPointer p st = Some False" using IsBootstrapPointer_inv [OF assms(1), of p] by simp
  then show ?thesis using assms(1) by (auto simp: BootstrapFree_def)
qed

lemma Realloc_inv:
  assumes "boot_inv maps st xs" "kernel_ok pg maps"
  shows "\<exists>q st' ys. BootstrapRealloc pg p n st = Some (q, st') \<and> boot_inv maps st' ys"
proof -
  obtain q st1 where m: "BootstrapMalloc pg n st = (q, st1)" by fastforce
  then obtain ys where ys: "boot_inv maps st1 ys" using Malloc_inv [OF assms, of 16 n] by (auto simp: BootstrapMalloc_def)
  show ?thesis
  proof (cases "p = nullptr \<or> n = 0")
    case True
    then show ?thesis using m ys Free_inv [OF assms, of p] by (auto simp: BootstrapRealloc_def)
  next
    case False
    define b where "b = (p - sizeof_BootstrapHeader \<in> set xs)"
    have is_b: "IsBootstrapPointer p st = Some b" using IsBootstrapPointer_inv [OF assms(1), of p] False by (simp add: b_def)
    have "b \<Longrightarrow> \<exists>h. bt_headers st (p - sizeof_BootstrapHeader) = Some h"
      using assms(1) chain_mem [of "bt_headers st" _ xs] by (auto simp: boot_inv_def b_def)
    then obtain old where old: "(if b then map_option bh_requested_size (bt_headers st (p - sizeof_BootstrapHeader)) else Some 0) = Some old"
      by (cases b) auto
    obtain st2 zs where "BootstrapFree pg p (st1\<lparr> bt_bytes := memcpy q p (min old n) (bt_bytes st1) \<rparr>) = Some st2" "boot_inv maps st2 zs"
      using Free_inv [of maps "st1\<lparr> bt_bytes := memcpy q p (min old n) (bt_bytes st1) \<rparr>" ys pg p] ys assms(2) by auto
    with False is_b old m ys show ?thesis by (auto simp: BootstrapRealloc_def)
  qed
qed

lemma boot_step_inv:
  assumes "boot_inv maps st xs" "kernel_ok pg maps"
  shows "\<exists>st' ys. boot_step pg c st = Some st' \<and> boot_inv maps st' ys"
proof (cases c)
  case (BAlloc al n)
  then show ?thesis using Malloc_inv [OF assms] by simp
next
  case (BCalloc m n)
  show ?thesis using assms(1) Malloc_inv [OF assms, of 16 "m * n"] BCalloc
    by (cases "BootstrapMalloc pg (m * n) st") (auto simp: BootstrapCalloc_def BootstrapMalloc_def)
next
  case (BRealloc p n)
  then show ?thesis using Realloc_inv [OF assms, of p n] by auto
next
  case (BFree p)
  then show ?thesis using Free_inv [OF assms] by simp
qed

lemma boot_reach_inv:
  assumes "boot_reach pg maps st" "kernel_ok pg maps"
  shows "\<exists>xs. boot_inv maps st xs"
  using assms(1)
proof induction
  case (start k m e)
  then have "boot_inv maps (boot_init m e k) []" by (simp add: boot_inv_def boot_init_def)
  then show ?case by blast
next
  case (step st c st')
  then show ?case using boot_step_inv [OF _ assms(2), of st _ c] by auto
qed

text \<open>
  C9: the bootstrap allocator never hangs. After any sequence of allocations,
  resizes and releases, of pointers it does not own included, the list walk that
  every \<^verbatim>\<open>free\<close> and \<^verbatim>\<open>realloc\<close> of the process makes returns, and so does every
  further call; none of them reads a header that has been unmapped.
\<close>

theorem bootstrap_returns:
  assumes "boot_reach pg maps st" "kernel_ok pg maps"
  shows "(\<exists>b. IsBootstrapPointer p st = Some b) \<and> (\<exists>st'. boot_step pg c st = Some st')"
proof -
  obtain xs where inv: "boot_inv maps st xs" using boot_reach_inv [OF assms] by blast
  show ?thesis using IsBootstrapPointer_inv [OF inv, of p] boot_step_inv [OF inv assms(2), of c] by blast
qed

text \<open>
  C10: bootstrap blocks do not overlap. In every reachable state two recognised
  blocks have their headers and payloads inside their own mappings of the process
  and apart from each other.
\<close>

theorem bootstrap_blocks_apart:
  assumes "boot_reach pg maps st" "kernel_ok pg maps" "p \<noteq> q"
    and "IsBootstrapPointer p st = Some True" "IsBootstrapPointer q st = Some True"
  shows "\<exists>h g. bt_headers st (p - sizeof_BootstrapHeader) = Some h \<and> bt_headers st (q - sizeof_BootstrapHeader) = Some g
    \<and> mapping_of h \<in> maps (bt_kernel st) \<and> mapping_of g \<in> maps (bt_kernel st) \<and> apart (mapping_of h) (mapping_of g)
    \<and> block_ok (maps (bt_kernel st)) (p - sizeof_BootstrapHeader) h
    \<and> block_ok (maps (bt_kernel st)) (q - sizeof_BootstrapHeader) g"
proof -
  let ?x = "p - sizeof_BootstrapHeader" and ?y = "q - sizeof_BootstrapHeader"
  obtain xs where inv: "boot_inv maps st xs" using boot_reach_inv [OF assms(1,2)] by blast
  have mem: "?x \<in> set xs" "?y \<in> set xs" "?x \<noteq> ?y"
    using assms(3-5) IsBootstrapPointer_inv [OF inv] by simp_all
  note i = inv [unfolded boot_inv_def]
  obtain h g where hg: "bt_headers st ?x = Some h" "bt_headers st ?y = Some g"
    using chain_mem [OF conjunct1 [OF i]] mem by blast
  then have b: "block_ok (maps (bt_kernel st)) ?x h" "block_ok (maps (bt_kernel st)) ?y g"
    "mapping_of h \<noteq> mapping_of g" using i mem by blast+
  then have "mapping_of h \<in> maps (bt_kernel st)" "mapping_of g \<in> maps (bt_kernel st)" by (simp_all add: block_ok_def)
  with hg b i show ?thesis by blast
qed

text \<open>The address of a byte of a live payload, and that a fresh mapping does not cover it.\<close>

lemma payload_addr:
  assumes "block_ok M (p - sizeof_BootstrapHeader) h" "i < bh_requested_size h" "apart r (mapping_of h)"
    "unat (fst r) + unat (snd r) < 2 ^ 64"
  shows "\<not> in_range (fst r) (snd r) (p + i)"
proof -
  let ?x = "p - sizeof_BootstrapHeader"
  have i: "unat i < unat (bh_requested_size h)" using assms(2) by (simp add: word_less_nat_alt)
  have b: "unat (bh_map_base h) \<le> unat ?x" "unat ?x + 48 + unat (bh_requested_size h) \<le> unat (bh_map_base h) + unat (bh_map_size h)"
    "unat (bh_map_base h) + unat (bh_map_size h) < 2 ^ 64"
    using assms(1) by (simp_all add: block_ok_def sizeof_BootstrapHeader_def)
  have "p + i = ?x + (48 + i)" by (simp add: sizeof_BootstrapHeader_def)
  moreover have "unat (48 + i) = 48 + unat i" using unat_add_lem [of "48 :: u64" i] i b by simp
  moreover have "unat (?x + (48 + i)) = unat ?x + unat (48 + i)"
    using unat_add_lem [of ?x "48 + i"] calculation(2) i b by simp
  ultimately have "unat (p + i) = unat ?x + 48 + unat i" by simp
  then show ?thesis using in_range_unat [OF assms(4)] assms(3) b i by (auto simp: apart_def mapping_of_def)
qed

text \<open>
  A bootstrap block keeps its contents when it is resized. If the call
  returns a block, its first bytes are those of the old block, up to the smaller of
  the two sizes, the new block is recognised and the old one released.
\<close>

theorem bootstrap_realloc_contents:
  assumes "boot_reach pg maps st" "kernel_ok pg maps" "IsBootstrapPointer p st = Some True"
    and "bt_headers st (p - sizeof_BootstrapHeader) = Some h" "bh_requested_size h \<noteq> 0" "n \<noteq> 0"
    and "BootstrapRealloc pg p n st = Some (q, st')" "q \<noteq> nullptr" "i < min (bh_requested_size h) n"
  shows "bt_bytes st' (q + i) = bt_bytes st (p + i)
    \<and> IsBootstrapPointer q st' = Some True \<and> IsBootstrapPointer p st' = Some False"
proof -
  let ?x = "p - sizeof_BootstrapHeader" and ?y = "q - sizeof_BootstrapHeader"
  obtain xs where inv: "boot_inv maps st xs" using boot_reach_inv [OF assms(1,2)] by blast
  have p: "p \<noteq> nullptr" "?x \<in> set xs" using IsBootstrapPointer_inv [OF inv, of p] assms(3) by simp_all
  obtain q1 st1 where m: "BootstrapAlignedMalloc pg 16 n st = (q1, st1)" by fastforce
  let ?st2 = "st1\<lparr> bt_bytes := memcpy q1 p (min (bh_requested_size h) n) (bt_bytes st1) \<rparr>"
  have run: "q1 = q" "BootstrapFree pg p ?st2 = Some st'"
  proof -
    have e: "BootstrapRealloc pg p n st = (if q1 \<noteq> nullptr then map_option (Pair q1) (BootstrapFree pg p ?st2) else Some (q1, st1))"
      using assms(3-6) p(1) m by (simp add: BootstrapRealloc_def BootstrapMalloc_def)
    with assms(7,8) show "q1 = q" "BootstrapFree pg p ?st2 = Some st'" by (simp_all split: if_splits) blast+
  qed
  from BootstrapAlignedMalloc_inv [OF inv assms(2) m] run(1) assms(8)
  obtain g where g: "boot_inv maps st1 (?y # xs)" "bt_headers st1 = (bt_headers st)(?y \<mapsto> g)"
      "\<forall>r \<in> maps (bt_kernel st). apart (mapping_of g) r"
      "bt_bytes st1 = (\<lambda>a. if in_range (bh_map_base g) (bh_map_size g) a then 0 else bt_bytes st a)"
    by auto
  have b: "block_ok (maps (bt_kernel st)) ?x h" "block_ok (maps (bt_kernel st1)) ?y g"
  proof -
    show "block_ok (maps (bt_kernel st)) ?x h" using inv p(2) assms(4) unfolding boot_inv_def by blast
    have "bt_headers st1 ?y = Some g" "?y \<in> set (?y # xs)" using g(2) by simp_all
    then show "block_ok (maps (bt_kernel st1)) ?y g" using g(1) unfolding boot_inv_def by blast
  qed
  have "mapping_of h \<in> maps (bt_kernel st)" using b(1) by (simp add: block_ok_def)
  then have "apart (mapping_of g) (mapping_of h)" using g(3) by blast
  moreover have "unat (fst (mapping_of g)) + unat (snd (mapping_of g)) < 2 ^ 64" using b(2) by (simp add: block_ok_def mapping_of_def)
  ultimately have "\<not> in_range (fst (mapping_of g)) (snd (mapping_of g)) (p + i)"
    using payload_addr [OF b(1)] assms(9) by simp
  then have "\<not> in_range (bh_map_base g) (bh_map_size g) (p + i)" by (simp add: mapping_of_def)
  then have "bt_bytes ?st2 (q + i) = bt_bytes st (p + i)"
    using assms(9) run(1) g(4) by (simp add: memcpy_def in_range_def)
  moreover have inv2: "boot_inv maps ?st2 (?y # xs)" using g(1) by simp
  have d: "?y \<notin> set xs" "distinct xs" using g(1) by (simp_all add: boot_inv_def)
  obtain st3 where st3: "BootstrapFree pg p ?st2 = Some st3" "boot_inv maps st3 (remove1 ?x (?y # xs))" "bt_bytes st3 = bt_bytes ?st2"
  proof -
    have "?x \<in> set (?y # xs)" using p(2) by simp
    from BootstrapFree_live [OF inv2 assms(2) p(1) this] show ?thesis using that by blast
  qed
  have "st3 = st'" using st3(1) run(2) by simp
  have "?y \<noteq> ?x" using d p(2) by auto
  then have "?y \<in> set (remove1 ?x (?y # xs))" "?x \<notin> set (remove1 ?x (?y # xs))"
    using d(2) by simp_all
  then have "IsBootstrapPointer q st' = Some True" "IsBootstrapPointer p st' = Some False"
    using IsBootstrapPointer_inv [OF st3(2)] \<open>st3 = st'\<close> assms(8) by simp_all
  ultimately show ?thesis using st3(3) \<open>st3 = st'\<close> by simp
qed

text \<open>
  A block of size zero is not released when it is resized: the old size decides
  whether the old block is copied and freed, so a resized empty block stays in the
  list and its mapping is never returned.
\<close>

lemma bootstrap_realloc_leaks_empty:
  assumes "boot_reach pg maps st" "kernel_ok pg maps" "IsBootstrapPointer p st = Some True"
    and "bt_headers st (p - sizeof_BootstrapHeader) = Some h" "bh_requested_size h = 0" "n \<noteq> 0"
    and "BootstrapRealloc pg p n st = Some (q, st')"
  shows "IsBootstrapPointer p st' = Some True"
proof -
  obtain xs where inv: "boot_inv maps st xs" using boot_reach_inv [OF assms(1,2)] by blast
  have p: "p \<noteq> nullptr" "p - sizeof_BootstrapHeader \<in> set xs" using IsBootstrapPointer_inv [OF inv, of p] assms(3) by simp_all
  have m: "BootstrapAlignedMalloc pg 16 n st = (q, st')"
    using assms(3-7) p(1) by (auto simp: BootstrapRealloc_def BootstrapMalloc_def split: prod.splits)
  show ?thesis
  proof (cases "q = nullptr")
    case True
    then have "boot_inv maps st' xs" using BootstrapAlignedMalloc_inv [OF inv assms(2) m] by simp
    from IsBootstrapPointer_inv [OF this, of p] show ?thesis using p by simp
  next
    case False
    then have "boot_inv maps st' ((q - sizeof_BootstrapHeader) # xs)" using BootstrapAlignedMalloc_inv [OF inv assms(2) m] by simp
    from IsBootstrapPointer_inv [OF this, of p] show ?thesis using p by simp
  qed
qed

text \<open>A kernel that maps upwards.\<close>

record demo_kernel =
  dk_next :: ptr
  dk_maps :: "(ptr \<times> u64) list"

definition demo_map :: "u64 \<Rightarrow> demo_kernel \<Rightarrow> ptr \<times> demo_kernel" where
  "demo_map n k =
     (if dk_next k = nullptr \<or> dk_next k = MAP_FAILED \<or> unat (dk_next k) + unat n \<ge> 2 ^ 64
         \<or> \<not> list_all (apart (dk_next k, n)) (dk_maps k) then (MAP_FAILED, k)
      else (dk_next k, k\<lparr> dk_next := dk_next k + n, dk_maps := (dk_next k, n) # dk_maps k \<rparr>))"

definition demo_pages :: "demo_kernel pages" where
  "demo_pages = \<lparr> pg_page_size = 4096, pg_mmap = demo_map,
     pg_munmap = (\<lambda>p n k. k\<lparr> dk_maps := removeAll (p, n) (dk_maps k) \<rparr>) \<rparr>"

definition demo_maps_of :: "demo_kernel \<Rightarrow> (ptr \<times> u64) set" where
  "demo_maps_of k = set (dk_maps k)"

lemma demo_kernel_ok: "kernel_ok demo_pages demo_maps_of"
  by (auto simp: kernel_ok_def demo_pages_def demo_maps_of_def demo_map_def list_all_iff split: if_splits)

definition demo_boot :: "demo_kernel boot" where
  "demo_boot = boot_init (\<lambda>a. 0) 0 \<lparr> dk_next = 0x10000, dk_maps = [] \<rparr>"

definition demo_boot1 :: "demo_kernel boot" where
  "demo_boot1 = snd (BootstrapAlignedMalloc demo_pages 16 100 demo_boot)"

definition demo_boot2 :: "demo_kernel boot" where
  "demo_boot2 = snd (BootstrapAlignedMalloc demo_pages 64 200 demo_boot1)"

lemma demo_boot_reach: "boot_reach demo_pages demo_maps_of demo_boot"
  "boot_reach demo_pages demo_maps_of demo_boot1" "boot_reach demo_pages demo_maps_of demo_boot2"
proof -
  show a: "boot_reach demo_pages demo_maps_of demo_boot"
    unfolding demo_boot_def by (rule boot_reach.start) (simp add: demo_maps_of_def)
  have "boot_step demo_pages (BAlloc 16 100) demo_boot = Some demo_boot1" by (simp add: demo_boot1_def)
  with a show b: "boot_reach demo_pages demo_maps_of demo_boot1" by (rule boot_reach.step)
  have "boot_step demo_pages (BAlloc 64 200) demo_boot1 = Some demo_boot2" by (simp add: demo_boot2_def)
  with b show "boot_reach demo_pages demo_maps_of demo_boot2" by (rule boot_reach.step)
qed

lemmas demo_boot_eval = BootstrapAlignedMalloc_def BootstrapMalloc_def CheckedAdd_def PageAlign_def IsPowerOfTwo_def
  sizeof_BootstrapHeader_def alignof_BootstrapHeader_def demo_pages_def demo_map_def demo_boot_def boot_init_def Let_def

lemma demo_boot1_eq:
  "g_bootstrap_list demo_boot1 = 0x10000"
  "bt_headers demo_boot1 = [0x10000 \<mapsto> \<lparr> bh_map_base = 0x10000, bh_map_size = 4096, bh_requested_size = 100,
     bh_magic = kBootstrapMagic, bh_next = nullptr \<rparr>]"
  "bt_kernel demo_boot1 = \<lparr> dk_next = 0x11000, dk_maps = [(0x10000, 4096)] \<rparr>"
  by (simp_all add: demo_boot1_def demo_boot_eval max_def)

lemma demo_boot2_eq:
  "g_bootstrap_list demo_boot2 = 0x11010"
  "bt_headers demo_boot2 = [0x10000 \<mapsto> \<lparr> bh_map_base = 0x10000, bh_map_size = 4096, bh_requested_size = 100,
     bh_magic = kBootstrapMagic, bh_next = nullptr \<rparr>,
     0x11010 \<mapsto> \<lparr> bh_map_base = 0x11000, bh_map_size = 4096, bh_requested_size = 200,
     bh_magic = kBootstrapMagic, bh_next = 0x10000 \<rparr>]"
  using demo_boot1_eq by (simp_all add: demo_boot2_def demo_boot_eval max_def apart_def)

lemma demo_is_boot:
  "IsBootstrapPointer 0x10030 demo_boot2 = Some True" "IsBootstrapPointer 0x11040 demo_boot2 = Some True"
  "IsBootstrapPointer 0x10030 demo_boot1 = Some True"
  by (simp_all add: IsBootstrapPointer_def boot_walk.simps demo_boot2_eq demo_boot1_eq sizeof_BootstrapHeader_def)

theorem bootstrap_returns_witness:
  "\<exists>st'. boot_step demo_pages (BFree 0x10030) demo_boot2 = Some st'"
  using bootstrap_returns [OF demo_boot_reach(3) demo_kernel_ok] by blast

theorem bootstrap_blocks_apart_witness:
  "\<exists>h g. bt_headers demo_boot2 0x10000 = Some h \<and> bt_headers demo_boot2 0x11010 = Some g
     \<and> apart (mapping_of h) (mapping_of g)"
  using bootstrap_blocks_apart [OF demo_boot_reach(3) demo_kernel_ok _ demo_is_boot(1,2)]
  by (auto simp: sizeof_BootstrapHeader_def)

theorem bootstrap_realloc_contents_witness:
  "\<exists>st'. BootstrapRealloc demo_pages 0x10030 500 demo_boot1 = Some (0x11030, st')
     \<and> bt_bytes st' (0x11030 + 7) = bt_bytes demo_boot1 (0x10030 + 7)"
proof -
  have h: "bt_headers demo_boot1 (0x10030 - sizeof_BootstrapHeader) =
      Some \<lparr> bh_map_base = 0x10000, bh_map_size = 4096, bh_requested_size = 100, bh_magic = kBootstrapMagic, bh_next = nullptr \<rparr>"
    by (simp add: demo_boot1_eq sizeof_BootstrapHeader_def)
  have m: "fst (BootstrapMalloc demo_pages 500 demo_boot1) = 0x11030"
    using demo_boot1_eq by (simp add: demo_boot_eval max_def apart_def)
  obtain st1 where st1: "BootstrapMalloc demo_pages 500 demo_boot1 = (0x11030, st1)"
    using m by (cases "BootstrapMalloc demo_pages 500 demo_boot1") simp
  obtain xs where "boot_inv demo_maps_of demo_boot1 xs" using boot_reach_inv [OF demo_boot_reach(2) demo_kernel_ok] by blast
  from Realloc_inv [OF this demo_kernel_ok, of "0x10030" 500]
  obtain st' where st': "BootstrapRealloc demo_pages 0x10030 500 demo_boot1 = Some (0x11030, st')"
    using h demo_is_boot(3) st1 by (auto simp: BootstrapRealloc_def)
  from bootstrap_realloc_contents [OF demo_boot_reach(2) demo_kernel_ok demo_is_boot(3) h _ _ st', of 7] st'
  show ?thesis by simp
qed

end
