(* ===== verification/EntryPoints.thy ===== *)
theory EntryPoints
  imports Bootstrap HeapTracking ObserveOnly
begin

text \<open>
  The exported functions (\<^verbatim>\<open>src/alloc_hook.cpp\<close>): for each call they decide whether
  the bootstrap allocator, the C library or the tracking wrapper serves it. The
  decision depends on the set-up flag, on which symbols have been resolved, on the
  mode of this copy of the library, and for mappings on the caller's address.
\<close>

section \<open>The C library in memory\<close>

text \<open>The address range of the C library, from the loaded modules.\<close>

record AddressRange =
  ar_begin :: u64
  ar_end :: u64

definition Contains :: "AddressRange \<Rightarrow> u64 \<Rightarrow> bool" where
  "Contains r v \<longleftrightarrow> ar_begin r \<le> v \<and> v < ar_end r"

definition Valid :: "AddressRange \<Rightarrow> bool" where
  "Valid r \<longleftrightarrow> ar_begin r < ar_end r"

record phdr =
  ph_load :: bool
  ph_vaddr :: u64
  ph_memsz :: u64

record dl_info =
  di_name :: "string option"
  di_addr :: u64
  di_phdrs :: "phdr list"

definition base_name :: "string \<Rightarrow> string" where
  "base_name path = rev (takeWhile (\<lambda>c. c \<noteq> CHR ''/'') (rev path))"

definition segment_span :: "u64 \<Rightarrow> phdr \<Rightarrow> u64 \<times> u64 \<Rightarrow> u64 \<times> u64" where
  "segment_span addr ph = (\<lambda>(lo, hi).
     if \<not> ph_load ph \<or> ph_memsz ph = 0 then (lo, hi)
     else
       let seg_begin = addr + ph_vaddr ph;
           seg_end = seg_begin + ph_memsz ph
       in (if seg_begin < lo then seg_begin else lo, if seg_end > hi then seg_end else hi))"

definition CollectLibcRange :: "dl_info \<Rightarrow> AddressRange \<Rightarrow> bool \<times> AddressRange" where
  "CollectLibcRange info r =
     (case di_name info of
        None \<Rightarrow> (False, r)
      | Some name \<Rightarrow>
          if base_name name \<noteq> ''libc.so'' then (False, r)
          else
            let (lo, hi) = fold (segment_span (di_addr info)) (di_phdrs info) (- 1, 0)
            in if lo < hi then (True, \<lparr> ar_begin = lo, ar_end = hi \<rparr>) else (False, r))"

primrec dl_iterate_phdr :: "dl_info list \<Rightarrow> AddressRange \<Rightarrow> AddressRange" where
  "dl_iterate_phdr [] r = r"
| "dl_iterate_phdr (info # infos) r =
     (let (stop, r) = CollectLibcRange info r in if stop then r else dl_iterate_phdr infos r)"

definition CacheLibcRange :: "dl_info list \<Rightarrow> AddressRange \<Rightarrow> AddressRange" where
  "CacheLibcRange infos r = (if \<not> Valid r then dl_iterate_phdr infos r else r)"

definition ShouldBypassLibcInternalMmap :: "dl_info list \<Rightarrow> u64 \<Rightarrow> AddressRange \<Rightarrow> bool \<times> AddressRange" where
  "ShouldBypassLibcInternalMmap infos caller r =
     (let r = CacheLibcRange infos r in (Valid r \<and> Contains r caller, r))"

section \<open>Deciding who serves a call\<close>

record ('h, 'k) front =
  allocHook_setup :: bool
  g_resolving_symbols :: bool
  in_preinit_phase :: bool
  fr_resolved :: "string list"
  g_libc_range :: AddressRange
  fr_copy :: probe_copy
  fr_boot :: "'k boot"
  fr_hook :: "'h hook_state"

text \<open>What a call finds: the surroundings of the wrappers, the environment, the loader.\<close>

record entry_env =
  en_ce :: call_env
  en_environ :: environ
  en_pid :: int
  en_symbol :: "string \<Rightarrow> bool"
  en_modules :: "dl_info list"
  en_caller :: u64

definition ResolveLibcSymbol :: "entry_env \<Rightarrow> string \<Rightarrow> ('h, 'k) front \<Rightarrow> bool" where
  "ResolveLibcSymbol en name fr = (if g_resolving_symbols fr then False else en_symbol en name)"

definition RESOLVE :: "entry_env \<Rightarrow> string \<Rightarrow> ('h, 'k) front \<Rightarrow> ('h, 'k) front" where
  "RESOLVE en name fr =
     (if name \<notin> set (fr_resolved fr) \<and> ResolveLibcSymbol en name fr
      then fr\<lparr> fr_resolved := name # fr_resolved fr \<rparr> else fr)"

definition ResolveAllLibcAllocationSymbols :: "entry_env \<Rightarrow> ('h, 'k) front \<Rightarrow> ('h, 'k) front" where
  "ResolveAllLibcAllocationSymbols en =
     fold (RESOLVE en) [''malloc'', ''free'', ''calloc'', ''realloc'', ''memalign'', ''aligned_alloc'',
       ''posix_memalign'', ''mmap'', ''munmap'', ''mremap'', ''mmap64'']"

definition entry_bypassed :: "entry_env \<Rightarrow> ('h, 'k) front \<Rightarrow> bool \<times> ('h, 'k) front" where
  "entry_bypassed en fr =
     (let (b, c) = Bypassed (en_environ en) (en_pid en) (fr_copy fr) in (b, fr\<lparr> fr_copy := c \<rparr>))"

text \<open>Whether a heap call goes around the tracker; the mode is asked last.\<close>

definition heap_gate :: "entry_env \<Rightarrow> string \<Rightarrow> ('h, 'k) front \<Rightarrow> bool \<times> ('h, 'k) front" where
  "heap_gate en name fr =
     (if allocHook_setup fr \<or> g_resolving_symbols fr \<or> name \<notin> set (fr_resolved fr) then (True, fr)
      else entry_bypassed en fr)"

definition on_boot :: "('k boot \<Rightarrow> 'r \<times> 'k boot) \<Rightarrow> ('h, 'k) front \<Rightarrow> 'r \<times> ('h, 'k) front" where
  "on_boot f fr = (let (r, b) = f (fr_boot fr) in (r, fr\<lparr> fr_boot := b \<rparr>))"

definition on_hook :: "('h hook_state \<Rightarrow> 'r \<times> 'h hook_state) \<Rightarrow> ('h, 'k) front \<Rightarrow> 'r \<times> ('h, 'k) front" where
  "on_hook f fr = (let (r, h) = f (fr_hook fr) in (r, fr\<lparr> fr_hook := h \<rparr>))"

section \<open>Heap calls\<close>

definition entry_malloc ::
    "entry_env \<Rightarrow> 'k pages \<Rightarrow> 'h libc \<Rightarrow> u64 \<Rightarrow> ('h, 'k) front \<Rightarrow> ptr \<times> ('h, 'k) front" where
  "entry_malloc en pg lc n fr =
     (let fr = RESOLVE en ''malloc'' fr;
          (direct, fr) = heap_gate en ''malloc'' fr
      in if direct then
           (if ''malloc'' \<notin> set (fr_resolved fr) then on_boot (BootstrapMalloc pg n) fr
            else on_hook (sys_call (lc_malloc lc n)) fr)
         else on_hook (debug_malloc (en_ce en) lc n) fr)"

definition entry_free ::
    "entry_env \<Rightarrow> 'k pages \<Rightarrow> 'h libc \<Rightarrow> ptr \<Rightarrow> ('h, 'k) front \<Rightarrow> ('h, 'k) front option" where
  "entry_free en pg lc p fr =
     (case IsBootstrapPointer p (fr_boot fr) of
        None \<Rightarrow> None
      | Some True \<Rightarrow> map_option (\<lambda>b. fr\<lparr> fr_boot := b \<rparr>) (BootstrapFree pg p (fr_boot fr))
      | Some False \<Rightarrow>
          let fr = RESOLVE en ''free'' fr;
              (direct, fr) = heap_gate en ''free'' fr
          in Some (if direct then
                     (if ''free'' \<notin> set (fr_resolved fr) then fr
                      else fr\<lparr> fr_hook := (fr_hook fr)\<lparr> hk_sys := lc_free lc p (hk_sys (fr_hook fr)) \<rparr> \<rparr>)
                   else fr\<lparr> fr_hook := debug_free (en_ce en) lc p (fr_hook fr) \<rparr>))"

definition entry_calloc ::
    "entry_env \<Rightarrow> 'k pages \<Rightarrow> 'h libc \<Rightarrow> u64 \<Rightarrow> u64 \<Rightarrow> ('h, 'k) front \<Rightarrow> ptr \<times> ('h, 'k) front" where
  "entry_calloc en pg lc a b fr =
     (let fr = RESOLVE en ''calloc'' fr;
          (direct, fr) = heap_gate en ''calloc'' fr
      in if direct then
           (if ''calloc'' \<notin> set (fr_resolved fr) then on_boot (BootstrapCalloc pg a b) fr
            else on_hook (sys_call (lc_calloc lc a b)) fr)
         else on_hook (debug_calloc (en_ce en) lc a b) fr)"

definition entry_realloc ::
    "entry_env \<Rightarrow> 'k pages \<Rightarrow> 'h libc \<Rightarrow> ptr \<Rightarrow> u64 \<Rightarrow> ('h, 'k) front \<Rightarrow> (ptr \<times> ('h, 'k) front) option" where
  "entry_realloc en pg lc p n fr =
     Option.bind (IsBootstrapPointer p (fr_boot fr)) (\<lambda>bootstrap_ptr.
       let fr = RESOLVE en ''realloc'' fr;
           (direct, fr) =
             (if allocHook_setup fr \<or> g_resolving_symbols fr \<or> ''realloc'' \<notin> set (fr_resolved fr) \<or> bootstrap_ptr
              then (True, fr) else entry_bypassed en fr)
       in if direct then
            (if ''realloc'' \<notin> set (fr_resolved fr) \<or> bootstrap_ptr
             then map_option (\<lambda>(q, b). (q, fr\<lparr> fr_boot := b \<rparr>)) (BootstrapRealloc pg p n (fr_boot fr))
             else Some (on_hook (sys_call (lc_realloc lc p n)) fr))
          else Some (on_hook (debug_realloc (en_ce en) lc p n) fr))"

definition set_boot_errno :: "int \<Rightarrow> ('h, 'k) front \<Rightarrow> ('h, 'k) front" where
  "set_boot_errno e fr = fr\<lparr> fr_boot := (fr_boot fr)\<lparr> bt_errno := e \<rparr> \<rparr>"

definition entry_aligned_alloc ::
    "entry_env \<Rightarrow> 'k pages \<Rightarrow> 'h libc \<Rightarrow> u64 \<Rightarrow> u64 \<Rightarrow> ('h, 'k) front \<Rightarrow> ptr \<times> ('h, 'k) front" where
  "entry_aligned_alloc en pg lc alignment n fr =
     (let fr = RESOLVE en ''aligned_alloc'' fr;
          (direct, fr) = heap_gate en ''aligned_alloc'' fr
      in if direct then
           (if ''aligned_alloc'' \<notin> set (fr_resolved fr) then
              (if \<not> IsPowerOfTwo alignment \<or> alignment < 8 \<or> n mod alignment \<noteq> 0
               then (nullptr, set_boot_errno EINVAL fr)
               else on_boot (BootstrapAlignedMalloc pg alignment n) fr)
            else on_hook (sys_call (lc_aligned_alloc lc alignment n)) fr)
         else on_hook (debug_aligned_alloc (en_ce en) lc alignment n) fr)"

definition entry_memalign ::
    "entry_env \<Rightarrow> 'k pages \<Rightarrow> 'h libc \<Rightarrow> u64 \<Rightarrow> u64 \<Rightarrow> ('h, 'k) front \<Rightarrow> ptr \<times> ('h, 'k) front" where
  "entry_memalign en pg lc alignment n fr =
     (let fr = RESOLVE en ''memalign'' fr;
          (direct, fr) = heap_gate en ''memalign'' fr
      in if direct then
           (if ''memalign'' \<notin> set (fr_resolved fr) then on_boot (BootstrapAlignedMalloc pg alignment n) fr
            else on_hook (sys_call (lc_memalign lc alignment n)) fr)
         else on_hook (debug_memalign (en_ce en) lc alignment n) fr)"

text \<open>The result code and the pointer stored; the caller's pointer to store to is not null.\<close>

definition entry_posix_memalign ::
    "entry_env \<Rightarrow> 'k pages \<Rightarrow> 'h libc \<Rightarrow> u64 \<Rightarrow> u64 \<Rightarrow> ('h, 'k) front \<Rightarrow> (int \<times> ptr option) \<times> ('h, 'k) front" where
  "entry_posix_memalign en pg lc alignment n fr =
     (let fr = RESOLVE en ''posix_memalign'' (RESOLVE en ''memalign'' fr);
          (direct, fr) = heap_gate en ''posix_memalign'' fr
      in if direct then
           (if ''posix_memalign'' \<notin> set (fr_resolved fr) then
              (if \<not> IsPowerOfTwo alignment \<or> alignment < 8 \<or> alignment mod 8 \<noteq> 0 then ((EINVAL, None), fr)
               else
                 let (p, fr) = on_boot (BootstrapAlignedMalloc pg alignment n) fr
                 in ((if p \<noteq> nullptr then 0 else ENOMEM, Some p), fr))
            else on_hook (sys_call (\<lambda>h. let (r, p, h) = lc_posix_memalign lc alignment n h
                                       in ((r, if r = 0 then Some p else None), h))) fr)
         else on_hook (debug_posix_memalign (en_ce en) lc alignment n) fr)"

text \<open>\<^verbatim>\<open>operator new\<close>: absent where it throws; the non-throwing forms answer a null pointer instead.\<close>

definition HookOperatorNew ::
    "entry_env \<Rightarrow> 'k pages \<Rightarrow> 'h libc \<Rightarrow> u64 \<Rightarrow> ('h, 'k) front \<Rightarrow> ptr option \<times> ('h, 'k) front" where
  "HookOperatorNew en pg lc n fr =
     (let (p, fr) = entry_malloc en pg lc (if n = 0 then 1 else n) fr
      in (if p = nullptr then None else Some p, fr))"

definition HookOperatorNewNoThrow ::
    "entry_env \<Rightarrow> 'k pages \<Rightarrow> 'h libc \<Rightarrow> u64 \<Rightarrow> ('h, 'k) front \<Rightarrow> ptr \<times> ('h, 'k) front" where
  "HookOperatorNewNoThrow en pg lc n fr =
     (let (r, fr) = HookOperatorNew en pg lc n fr in (case r of None \<Rightarrow> nullptr | Some p \<Rightarrow> p, fr))"

definition HookOperatorNewAligned ::
    "entry_env \<Rightarrow> 'k pages \<Rightarrow> 'h libc \<Rightarrow> u64 \<Rightarrow> u64 \<Rightarrow> ('h, 'k) front \<Rightarrow> ptr option \<times> ('h, 'k) front" where
  "HookOperatorNewAligned en pg lc n alignment fr =
     (let ((ret, stored), fr) = entry_posix_memalign en pg lc alignment (if n = 0 then 1 else n) fr
      in (case stored of
            None \<Rightarrow> None
          | Some p \<Rightarrow> if ret \<noteq> 0 \<or> p = nullptr then None else Some p, fr))"

definition HookOperatorNewAlignedNoThrow ::
    "entry_env \<Rightarrow> 'k pages \<Rightarrow> 'h libc \<Rightarrow> u64 \<Rightarrow> u64 \<Rightarrow> ('h, 'k) front \<Rightarrow> ptr \<times> ('h, 'k) front" where
  "HookOperatorNewAlignedNoThrow en pg lc n alignment fr =
     (let (r, fr) = HookOperatorNewAligned en pg lc n alignment fr in (case r of None \<Rightarrow> nullptr | Some p \<Rightarrow> p, fr))"

section \<open>Mappings\<close>

text \<open>Whether a mapping or descriptor call goes around the tracker.\<close>

definition early_gate :: "entry_env \<Rightarrow> ('h, 'k) front \<Rightarrow> bool \<times> ('h, 'k) front" where
  "early_gate en fr = (if in_preinit_phase fr \<or> allocHook_setup fr then (True, fr) else entry_bypassed en fr)"

definition CallRealMmap ::
    "entry_env \<Rightarrow> 'h libc \<Rightarrow> ptr \<Rightarrow> u64 \<Rightarrow> u32 \<Rightarrow> u32 \<Rightarrow> int \<Rightarrow> int \<Rightarrow> ('h, 'k) front \<Rightarrow> ptr \<times> ('h, 'k) front" where
  "CallRealMmap en lc addr n prot flags fd offset fr =
     on_hook (sys_call (lc_mmap lc addr n prot flags fd offset)) (RESOLVE en ''mmap'' fr)"

definition CallRealMmap64 ::
    "entry_env \<Rightarrow> 'h libc \<Rightarrow> ptr \<Rightarrow> u64 \<Rightarrow> u32 \<Rightarrow> u32 \<Rightarrow> int \<Rightarrow> int \<Rightarrow> ('h, 'k) front \<Rightarrow> ptr \<times> ('h, 'k) front" where
  "CallRealMmap64 en lc addr n prot flags fd offset fr =
     (let fr = RESOLVE en ''mmap64'' fr
      in if ''mmap64'' \<in> set (fr_resolved fr) then on_hook (sys_call (CallMmap64 lc addr n prot flags fd offset)) fr
         else CallRealMmap en lc addr n prot flags fd offset fr)"

text \<open>\<^verbatim>\<open>mmap\<close> and \<^verbatim>\<open>mmap64\<close> take the calls of the C library itself out of the account.\<close>

definition entry_map ::
    "entry_env \<Rightarrow> (('h, 'k) front \<Rightarrow> ptr \<times> ('h, 'k) front) \<Rightarrow> ('h hook_state \<Rightarrow> ptr \<times> 'h hook_state) \<Rightarrow> int
       \<Rightarrow> ('h, 'k) front \<Rightarrow> ptr \<times> ('h, 'k) front" where
  "entry_map en call_real hooked fd fr =
     (let (direct, fr) = early_gate en fr
      in if direct then call_real fr
         else
           let (inner, fr) =
                 (if fd < 0 then
                    let (b, r) = ShouldBypassLibcInternalMmap (en_modules en) (en_caller en) (g_libc_range fr)
                    in (b, fr\<lparr> g_libc_range := r \<rparr>)
                  else (False, fr))
           in if inner then call_real fr else on_hook hooked fr)"

definition entry_mmap ::
    "entry_env \<Rightarrow> 'h libc \<Rightarrow> ptr \<Rightarrow> u64 \<Rightarrow> u32 \<Rightarrow> u32 \<Rightarrow> int \<Rightarrow> int \<Rightarrow> ('h, 'k) front \<Rightarrow> ptr \<times> ('h, 'k) front" where
  "entry_mmap en lc addr n prot flags fd offset =
     entry_map en (CallRealMmap en lc addr n prot flags fd offset)
       (debug_mmap (en_ce en) lc addr n prot flags fd offset) fd"

definition entry_mmap64 ::
    "entry_env \<Rightarrow> 'h libc \<Rightarrow> ptr \<Rightarrow> u64 \<Rightarrow> u32 \<Rightarrow> u32 \<Rightarrow> int \<Rightarrow> int \<Rightarrow> ('h, 'k) front \<Rightarrow> ptr \<times> ('h, 'k) front" where
  "entry_mmap64 en lc addr n prot flags fd offset =
     entry_map en (CallRealMmap64 en lc addr n prot flags fd offset)
       (debug_mmap64 (en_ce en) lc addr n prot flags fd offset) fd"

definition entry_munmap ::
    "entry_env \<Rightarrow> 'h libc \<Rightarrow> ptr \<Rightarrow> u64 \<Rightarrow> ('h, 'k) front \<Rightarrow> int \<times> ('h, 'k) front" where
  "entry_munmap en lc addr n fr =
     (let (direct, fr) = early_gate en fr
      in if direct then on_hook (sys_call (lc_munmap lc addr n)) (RESOLVE en ''munmap'' fr)
         else on_hook (debug_munmap (en_ce en) lc addr n) fr)"

definition MREMAP_FIXED :: u32 where "MREMAP_FIXED = 2"

text \<open>The fifth argument of \<^verbatim>\<open>mremap\<close> is read only when the flags announce it.\<close>

definition entry_mremap ::
    "entry_env \<Rightarrow> 'h libc \<Rightarrow> ptr \<Rightarrow> u64 \<Rightarrow> u64 \<Rightarrow> u32 \<Rightarrow> ptr \<Rightarrow> ('h, 'k) front \<Rightarrow> ptr \<times> ('h, 'k) front" where
  "entry_mremap en lc old_addr old_size new_size flags vararg fr =
     (let new_addr = (if flags AND MREMAP_FIXED \<noteq> 0 then vararg else nullptr);
          (direct, fr) = early_gate en fr
      in if direct then on_hook (sys_call (lc_mremap lc old_addr old_size new_size flags new_addr)) (RESOLVE en ''mremap'' fr)
         else on_hook (debug_mremap (en_ce en) lc old_addr old_size new_size flags new_addr) fr)"

section \<open>Descriptors\<close>

text \<open>The request is normalised to its 32 bits before it is widened.\<close>

definition entry_ioctl ::
    "entry_env \<Rightarrow> 'h libc \<Rightarrow> int \<Rightarrow> u64 \<Rightarrow> ('h, 'k) front \<Rightarrow> int \<times> ('h, 'k) front" where
  "entry_ioctl en lc fd request fr =
     (let request_value = ucast (ucast request :: u32) :: u64;
          (direct, fr) = early_gate en fr
      in if direct
         then on_hook (sys_call (\<lambda>h. let (r, arg, h) = lc_ioctl lc fd request_value h in (r, h))) fr
         else on_hook (debug_ioctl (en_ce en) lc fd request_value) fr)"

definition entry_close ::
    "entry_env \<Rightarrow> 'h libc \<Rightarrow> (int \<Rightarrow> 'h \<Rightarrow> int \<times> 'h) \<Rightarrow> int \<Rightarrow> ('h, 'k) front \<Rightarrow> int \<times> ('h, 'k) front" where
  "entry_close en lc raw_close fd fr =
     (let (direct, fr) = early_gate en fr
      in if direct then on_hook (sys_call (raw_close fd)) fr
         else on_hook (debug_close_with (en_ce en) lc raw_close fd) fr)"

definition ENOSYS :: int where "ENOSYS = 38"

text \<open>
  The checked close of Android: \<^verbatim>\<open>tagged\<close> is the function of the C library, absent
  while it cannot be resolved; before API level 29 it does not exist.
\<close>

definition android_fdsan_close_with_tag ::
    "entry_env \<Rightarrow> 'h libc \<Rightarrow> (int \<Rightarrow> 'h \<Rightarrow> int \<times> 'h) \<Rightarrow> (int \<Rightarrow> u64 \<Rightarrow> 'h \<Rightarrow> int \<times> 'h) option \<Rightarrow> int
       \<Rightarrow> int \<Rightarrow> u64 \<Rightarrow> ('h, 'k) front \<Rightarrow> int \<times> ('h, 'k) front" where
  "android_fdsan_close_with_tag en lc raw_close tagged api fd tag fr =
     (case tagged of
        None \<Rightarrow>
          if api < 0 \<or> api \<ge> 29 then (- 1, fr\<lparr> fr_hook := set_errno lc ENOSYS (fr_hook fr) \<rparr>)
          else entry_close en lc raw_close fd fr
      | Some fn \<Rightarrow> entry_close en lc (\<lambda>fd. fn fd tag) fd fr)"

section \<open>Checkpoints\<close>

datatype checkpoint_answer = NoAnswer | ProbeAnswer "(report_sink \<times> ObservedSamplerStats) option" | HeapReport

definition debug_dump_heap :: "entry_env \<Rightarrow> ('h, 'k) front \<Rightarrow> bool \<times> ('h, 'k) front" where
  "debug_dump_heap en fr =
     (let (t, c) = IsTargetProcess (en_environ en) (en_pid en) (fr_copy fr) in (t, fr\<lparr> fr_copy := c \<rparr>))"

definition checkpoint ::
    "entry_env \<Rightarrow> bool \<Rightarrow> string option \<Rightarrow> ('h, 'k) front \<Rightarrow> checkpoint_answer \<times> ('h, 'k) front" where
  "checkpoint en opened file_name fr =
     (let (s, c) = Suppressed (en_environ en) (en_pid en) (fr_copy fr);
          fr = fr\<lparr> fr_copy := c \<rparr>
      in if s then (NoAnswer, fr)
         else
           let (b, fr) = entry_bypassed en fr
           in if b then
                (let (r, out, c) = WriteReport opened file_name (en_environ en) (en_pid en) (fr_copy fr)
                 in (ProbeAnswer out, fr\<lparr> fr_copy := c \<rparr>))
              else
                let (dumped, fr) = debug_dump_heap en fr
                in (if dumped then HeapReport else NoAnswer, fr))"

section \<open>Who gets a pointer\<close>

lemma RESOLVE_sel [simp]:
  "fr_boot (RESOLVE en name fr) = fr_boot fr" "fr_hook (RESOLVE en name fr) = fr_hook fr"
  by (simp_all add: RESOLVE_def)

lemma entry_bypassed_sel [simp]:
  "fr_boot (snd (entry_bypassed en fr)) = fr_boot fr" "fr_hook (snd (entry_bypassed en fr)) = fr_hook fr"
  "fr_resolved (snd (entry_bypassed en fr)) = fr_resolved fr"
  by (simp_all add: entry_bypassed_def split_beta)

lemma gate_sel [simp]:
  "fr_boot (snd (heap_gate en name fr)) = fr_boot fr" "fr_hook (snd (heap_gate en name fr)) = fr_hook fr"
  "fr_resolved (snd (heap_gate en name fr)) = fr_resolved fr"
  "fr_boot (snd (early_gate en fr)) = fr_boot fr" "fr_hook (snd (early_gate en fr)) = fr_hook fr"
  by (simp_all add: heap_gate_def early_gate_def)

lemma on_sel [simp]:
  "fr_boot (snd (on_hook f fr)) = fr_boot fr" "fr_hook (snd (on_hook f fr)) = snd (f (fr_hook fr))"
  "fr_hook (snd (on_boot g fr)) = fr_hook fr" "fr_boot (snd (on_boot g fr)) = snd (g (fr_boot fr))"
  "fst (on_hook f fr) = fst (f (fr_hook fr))" "fst (on_boot g fr) = fst (g (fr_boot fr))"
  by (simp_all add: on_hook_def on_boot_def split_beta)

lemma heap_gate_unresolved: "\<not> fst (heap_gate en name fr) \<Longrightarrow> name \<in> set (fr_resolved fr)"
  by (simp add: heap_gate_def split: if_splits)

lemma debug_free_sys [simp]: "hk_sys (debug_free ce lc p st) = lc_free lc p (hk_sys st)"
  by (simp add: debug_free_def InternalFree_def Let_def)


text \<open>
  A block of the C library that is resized while the \<^verbatim>\<open>realloc\<close> of the C library is
  not yet resolved is answered with a fresh bootstrap block: nothing is copied and
  the old block stays allocated.
\<close>

lemma unresolved_realloc_drops_block:
  assumes "boot_reach pg maps (fr_boot fr)" "kernel_ok pg maps" "g_resolving_symbols fr"
    and "''realloc'' \<notin> set (fr_resolved fr)" "IsBootstrapPointer p (fr_boot fr) = Some False" "p \<noteq> nullptr" "n \<noteq> 0"
  shows "\<exists>q fr'. entry_realloc en pg lc p n fr = Some (q, fr') \<and> fr_hook fr' = fr_hook fr
    \<and> fr_boot fr' = snd (BootstrapMalloc pg n (fr_boot fr))"
  using assms(3-7)
  by (simp add: entry_realloc_def RESOLVE_def ResolveLibcSymbol_def BootstrapRealloc_def split_beta Let_def)

section \<open>Whole runs\<close>

datatype entry_call =
    EMalloc u64 | EFree ptr | ECalloc u64 u64 | ERealloc ptr u64 | EAlignedAlloc u64 u64 | EMemalign u64 u64
  | EPosixMemalign u64 u64 | ENew u64 | ENewAligned u64 u64
  | EMmap ptr u64 u32 u32 int int | EMmap64 ptr u64 u32 u32 int int | EMunmap ptr u64
  | EMremap ptr u64 u64 u32 ptr | EIoctl int u64 | EClose int

fun entry_step ::
    "entry_env \<Rightarrow> 'k pages \<Rightarrow> 'h libc \<Rightarrow> (int \<Rightarrow> 'h \<Rightarrow> int \<times> 'h) \<Rightarrow> entry_call \<Rightarrow> ('h, 'k) front
       \<Rightarrow> ('h, 'k) front option" where
  "entry_step en pg lc op (EMalloc n) fr = Some (snd (entry_malloc en pg lc n fr))"
| "entry_step en pg lc op (EFree p) fr = entry_free en pg lc p fr"
| "entry_step en pg lc op (ECalloc m n) fr = Some (snd (entry_calloc en pg lc m n fr))"
| "entry_step en pg lc op (ERealloc p n) fr = map_option snd (entry_realloc en pg lc p n fr)"
| "entry_step en pg lc op (EAlignedAlloc a n) fr = Some (snd (entry_aligned_alloc en pg lc a n fr))"
| "entry_step en pg lc op (EMemalign a n) fr = Some (snd (entry_memalign en pg lc a n fr))"
| "entry_step en pg lc op (EPosixMemalign a n) fr = Some (snd (entry_posix_memalign en pg lc a n fr))"
| "entry_step en pg lc op (ENew n) fr = Some (snd (HookOperatorNew en pg lc n fr))"
| "entry_step en pg lc op (ENewAligned n a) fr = Some (snd (HookOperatorNewAligned en pg lc n a fr))"
| "entry_step en pg lc op (EMmap p n prot flags fd off) fr = Some (snd (entry_mmap en lc p n prot flags fd off fr))"
| "entry_step en pg lc op (EMmap64 p n prot flags fd off) fr = Some (snd (entry_mmap64 en lc p n prot flags fd off fr))"
| "entry_step en pg lc op (EMunmap p n) fr = Some (snd (entry_munmap en lc p n fr))"
| "entry_step en pg lc op (EMremap p m n flags q) fr = Some (snd (entry_mremap en lc p m n flags q fr))"
| "entry_step en pg lc op (EIoctl fd request) fr = Some (snd (entry_ioctl en lc fd request fr))"
| "entry_step en pg lc op (EClose fd) fr = Some (snd (entry_close en lc op fd fr))"

text \<open>
  Runs of a process: between calls the phase flags, the resolved symbols and the
  mode may change in any way.
\<close>

inductive entry_run :: "call_env \<Rightarrow> 'k pages \<Rightarrow> ('k \<Rightarrow> (ptr \<times> u64) set) \<Rightarrow> 'h libc \<Rightarrow> ('h, 'k) front \<Rightarrow> bool"
  for ce0 pg maps lc where
  start: "\<forall>r \<in> maps k. \<forall>s \<in> maps k. r \<noteq> s \<longrightarrow> apart r s \<Longrightarrow> fr_boot fr = boot_init m e k \<Longrightarrow>
    fr_hook fr = hook_start ce0 h \<Longrightarrow> entry_run ce0 pg maps lc fr"
| phase: "entry_run ce0 pg maps lc fr \<Longrightarrow> fr_boot fr' = fr_boot fr \<Longrightarrow> fr_hook fr' = fr_hook fr \<Longrightarrow>
    entry_run ce0 pg maps lc fr'"
| call: "entry_run ce0 pg maps lc fr \<Longrightarrow> ce_dc (en_ce en) = ce_dc ce0 \<Longrightarrow> capture_ok (ce_capture (en_ce en)) \<Longrightarrow>
    entry_step en pg lc op c fr = Some fr' \<Longrightarrow> entry_run ce0 pg maps lc fr'"

text \<open>A call either changes the bootstrap allocator by one of its calls, or the tracker's side by one of the wrappers or by a plain call of the C library.\<close>

definition front_step :: "entry_env \<Rightarrow> 'k pages \<Rightarrow> 'h libc \<Rightarrow> (int \<Rightarrow> 'h \<Rightarrow> int \<times> 'h) \<Rightarrow> ('h, 'k) front \<Rightarrow> ('h, 'k) front \<Rightarrow> bool" where
  "front_step en pg lc op fr fr' \<longleftrightarrow>
     fr_boot fr' = fr_boot fr \<and> (\<exists>h. fr_hook fr' = (fr_hook fr)\<lparr> hk_sys := h \<rparr>)
     \<or> fr_boot fr' = fr_boot fr \<and> (\<exists>c. fr_hook fr' = hook_step (en_ce en) lc op c (fr_hook fr))
     \<or> fr_hook fr' = fr_hook fr \<and> (\<exists>c. boot_step pg c (fr_boot fr) = Some (fr_boot fr'))"

lemma front_stepI:
  "fr_boot fr' = fr_boot fr \<Longrightarrow> fr_hook fr' = snd (sys_call f (fr_hook fr)) \<Longrightarrow> front_step en pg lc op fr fr'"
  "fr_boot fr' = fr_boot fr \<Longrightarrow> fr_hook fr' = hook_step (en_ce en) lc op c (fr_hook fr) \<Longrightarrow> front_step en pg lc op fr fr'"
  "fr_hook fr' = fr_hook fr \<Longrightarrow> boot_step pg b (fr_boot fr) = Some (fr_boot fr') \<Longrightarrow> front_step en pg lc op fr fr'"
proof -
  show "front_step en pg lc op fr fr'" if "fr_boot fr' = fr_boot fr" "fr_hook fr' = snd (sys_call f (fr_hook fr))"
    using that by (auto simp: front_step_def sys_call_def split_beta)
  show "front_step en pg lc op fr fr'" if "fr_boot fr' = fr_boot fr" "fr_hook fr' = hook_step (en_ce en) lc op c (fr_hook fr)"
    using that by (auto simp: front_step_def)
  show "front_step en pg lc op fr fr'" if "fr_hook fr' = fr_hook fr" "boot_step pg b (fr_boot fr) = Some (fr_boot fr')"
    using that by (auto simp: front_step_def)
qed

lemma front_step_malloc: "front_step en pg lc op fr (snd (entry_malloc en pg lc n fr))"
  by (cases "fst (heap_gate en ''malloc'' (RESOLVE en ''malloc'' fr))")
    (auto simp: entry_malloc_def split_beta Let_def BootstrapMalloc_def
      intro: front_stepI(1) front_stepI(2) [where c = "Malloc n"] front_stepI(3) [where b = "BAlloc 16 n"])

lemma boot_einval: "boot_step pg (BAlloc 0 n) b = Some (b\<lparr> bt_errno := EINVAL \<rparr>)"
  by (simp add: BootstrapAlignedMalloc_def IsPowerOfTwo_def)

lemma front_step_einval:
  "fr_hook fr' = fr_hook fr \<Longrightarrow> fr_boot fr' = (fr_boot fr)\<lparr> bt_errno := EINVAL \<rparr> \<Longrightarrow> front_step en pg lc op fr fr'"
  using boot_einval [of pg 0 "fr_boot fr"] by (intro front_stepI(3) [where b = "BAlloc 0 0"]) simp_all

lemma front_step_same: "fr_boot fr' = fr_boot fr \<Longrightarrow> fr_hook fr' = fr_hook fr \<Longrightarrow> front_step en pg lc op fr fr'"
  by (auto simp: front_step_def intro: exI [of _ "hk_sys (fr_hook fr)"])

lemma front_step_posix: "front_step en pg lc op fr (snd (entry_posix_memalign en pg lc a n fr))"
  by (cases "fst (heap_gate en ''posix_memalign'' (RESOLVE en ''posix_memalign'' (RESOLVE en ''memalign'' fr)))")
    (auto simp: entry_posix_memalign_def split_beta Let_def
      intro: front_step_same front_stepI(1) front_stepI(2) [where c = "PosixMemalign a n"]
        front_stepI(3) [where b = "BAlloc a n"])

lemma front_step_map:
  assumes "\<And>fr. fr_boot (snd (real fr)) = fr_boot fr" "\<And>fr. fr_hook (snd (real fr)) = snd (sys_call (f fr) (fr_hook fr))"
    and "\<And>h. snd (hooked h) = hook_step (en_ce en) lc op c h"
  shows "front_step en pg lc op fr (snd (entry_map en real hooked fd fr))"
  by (cases "fst (early_gate en fr)")
    (auto simp: entry_map_def split_beta Let_def assms intro: front_stepI(1) front_stepI(2) [where c = c])

lemma CallRealMmap64_sel:
  "fr_boot (snd (CallRealMmap64 en lc p n prot flags fd off fr)) = fr_boot fr"
  "fr_hook (snd (CallRealMmap64 en lc p n prot flags fd off fr)) =
     snd (sys_call (if ''mmap64'' \<in> set (fr_resolved (RESOLVE en ''mmap64'' fr)) then CallMmap64 lc p n prot flags fd off
                    else lc_mmap lc p n prot flags fd off) (fr_hook fr))"
  by (simp_all add: CallRealMmap64_def CallRealMmap_def Let_def)

lemma front_step_free:
  assumes "entry_free en pg lc p fr = Some fr'"
  shows "front_step en pg lc op fr fr'"
proof (cases "IsBootstrapPointer p (fr_boot fr)")
  case (Some b)
  show ?thesis
  proof (cases b)
    case True
    with Some assms obtain b' where "BootstrapFree pg p (fr_boot fr) = Some b'" "fr' = fr\<lparr> fr_boot := b' \<rparr>"
      by (auto simp: entry_free_def)
    then show ?thesis by (intro front_stepI(3) [where b = "BFree p"]) simp_all
  next
    case False
    let ?g = "heap_gate en ''free'' (RESOLVE en ''free'' fr)"
    have fr': "fr' = (if fst ?g then (if ''free'' \<notin> set (fr_resolved (snd ?g)) then snd ?g
        else (snd ?g)\<lparr> fr_hook := (fr_hook (snd ?g))\<lparr> hk_sys := lc_free lc p (hk_sys (fr_hook (snd ?g))) \<rparr> \<rparr>)
        else (snd ?g)\<lparr> fr_hook := debug_free (en_ce en) lc p (fr_hook (snd ?g)) \<rparr>)"
      using Some False assms by (simp add: entry_free_def split_beta Let_def)
    show ?thesis
    proof (cases "fst ?g")
      case True
      show ?thesis
      proof (cases "''free'' \<in> set (fr_resolved (snd ?g))")
        case True
        with \<open>fst ?g\<close> show ?thesis unfolding fr' front_step_def by auto
      next
        case False
        with \<open>fst ?g\<close> show ?thesis unfolding fr' by (auto intro: front_step_same)
      qed
    next
      case False
      then show ?thesis unfolding fr' by (intro front_stepI(2) [where c = "Free p"]) simp_all
    qed
  qed
qed (use assms in \<open>simp add: entry_free_def\<close>)

lemma front_step_realloc:
  assumes "entry_realloc en pg lc p n fr = Some (q, fr')"
  shows "front_step en pg lc op fr fr'"
proof -
  obtain b where b: "IsBootstrapPointer p (fr_boot fr) = Some b"
    using assms by (auto simp: entry_realloc_def bind_eq_Some_conv)
  let ?r = "RESOLVE en ''realloc'' fr"
  define g where "g = (if allocHook_setup ?r \<or> g_resolving_symbols ?r \<or> ''realloc'' \<notin> set (fr_resolved ?r) \<or> b
    then (True, ?r) else entry_bypassed en ?r)"
  have sel: "fr_boot (snd g) = fr_boot fr" "fr_hook (snd g) = fr_hook fr" by (simp_all add: g_def)
  have e: "entry_realloc en pg lc p n fr = (if fst g then
       (if ''realloc'' \<notin> set (fr_resolved (snd g)) \<or> b
        then map_option (\<lambda>(q, b). (q, (snd g)\<lparr> fr_boot := b \<rparr>)) (BootstrapRealloc pg p n (fr_boot fr))
        else Some (on_hook (sys_call (lc_realloc lc p n)) (snd g)))
     else Some (on_hook (debug_realloc (en_ce en) lc p n) (snd g)))"
    by (simp only: entry_realloc_def b bind.bind_lunit Let_def g_def [symmetric] split_beta sel)
  consider "fst g" "''realloc'' \<notin> set (fr_resolved (snd g)) \<or> b" | "fst g" "\<not> (''realloc'' \<notin> set (fr_resolved (snd g)) \<or> b)" | "\<not> fst g"
    by blast
  then show ?thesis
  proof cases
    case 1
    with assms e obtain b' where "BootstrapRealloc pg p n (fr_boot fr) = Some (q, b')" "fr' = (snd g)\<lparr> fr_boot := b' \<rparr>" by auto
    then show ?thesis using sel by (intro front_stepI(3) [where b = "BRealloc p n"]) simp_all
  next
    case 2
    with assms e have "fr' = snd (on_hook (sys_call (lc_realloc lc p n)) (snd g))" by (metis option.inject snd_conv)
    then show ?thesis using sel by (intro front_stepI(1) [where f = "lc_realloc lc p n"]) simp_all
  next
    case 3
    with assms e have "fr' = snd (on_hook (debug_realloc (en_ce en) lc p n) (snd g))" by (metis option.inject snd_conv)
    then show ?thesis using sel by (intro front_stepI(2) [where c = "Realloc p n"]) simp_all
  qed
qed

lemma entry_step_front:
  assumes "entry_step en pg lc op c fr = Some fr'"
  shows "front_step en pg lc op fr fr'"
proof (cases c)
  case (EMalloc n)
  with assms front_step_malloc show ?thesis by auto
next
  case (EFree p)
  with assms show ?thesis by (simp add: front_step_free)
next
  case (ECalloc m n)
  with assms have "fr' = snd (entry_calloc en pg lc m n fr)" by simp
  then show ?thesis
    by (cases "fst (heap_gate en ''calloc'' (RESOLVE en ''calloc'' fr))")
      (auto simp: entry_calloc_def split_beta Let_def
        intro: front_stepI(1) front_stepI(2) [where c = "Calloc m n"] front_stepI(3) [where b = "BCalloc m n"])
next
  case (ERealloc p n)
  with assms show ?thesis by (auto intro: front_step_realloc)
next
  case (EAlignedAlloc a n)
  with assms have "fr' = snd (entry_aligned_alloc en pg lc a n fr)" by simp
  then show ?thesis
    by (cases "fst (heap_gate en ''aligned_alloc'' (RESOLVE en ''aligned_alloc'' fr))")
      (auto simp: entry_aligned_alloc_def split_beta Let_def set_boot_errno_def
        intro: front_stepI(1) front_stepI(2) [where c = "AlignedAlloc a n"] front_stepI(3) [where b = "BAlloc a n"]
          front_step_einval)
next
  case (EMemalign a n)
  with assms have "fr' = snd (entry_memalign en pg lc a n fr)" by simp
  then show ?thesis
    by (cases "fst (heap_gate en ''memalign'' (RESOLVE en ''memalign'' fr))")
      (auto simp: entry_memalign_def split_beta Let_def
        intro: front_stepI(1) front_stepI(2) [where c = "Memalign a n"] front_stepI(3) [where b = "BAlloc a n"])
next
  case (EPosixMemalign a n)
  with assms front_step_posix show ?thesis by auto
next
  case (ENew n)
  with assms front_step_malloc show ?thesis by (auto simp: HookOperatorNew_def split_beta)
next
  case (ENewAligned n a)
  with assms front_step_posix show ?thesis by (auto simp: HookOperatorNewAligned_def split_beta)
next
  case (EMmap p n prot flags fd off)
  have "front_step en pg lc op fr (snd (entry_mmap en lc p n prot flags fd off fr))"
    unfolding entry_mmap_def
    by (rule front_step_map [where f = "\<lambda>_. lc_mmap lc p n prot flags fd off" and c = "Mmap p n prot flags fd off"])
      (simp_all add: CallRealMmap_def)
  with EMmap assms show ?thesis by simp
next
  case (EMmap64 p n prot flags fd off)
  have "front_step en pg lc op fr (snd (entry_mmap64 en lc p n prot flags fd off fr))"
    unfolding entry_mmap64_def
    by (rule front_step_map [OF CallRealMmap64_sel, where c = "Mmap64 p n prot flags fd off"]) simp
  with EMmap64 assms show ?thesis by simp
next
  case (EMunmap p n)
  with assms have "fr' = snd (entry_munmap en lc p n fr)" by simp
  then show ?thesis
    by (cases "fst (early_gate en fr)")
      (auto simp: entry_munmap_def split_beta intro: front_stepI(1) front_stepI(2) [where c = "Munmap p n"])
next
  case (EMremap p m n flags q)
  with assms have "fr' = snd (entry_mremap en lc p m n flags q fr)" by simp
  then show ?thesis
    by (cases "fst (early_gate en fr)")
      (auto simp: entry_mremap_def split_beta Let_def intro: front_stepI(1)
        front_stepI(2) [where c = "Mremap p m n flags (if flags AND MREMAP_FIXED \<noteq> 0 then q else nullptr)"])
next
  case (EIoctl fd request)
  with assms have "fr' = snd (entry_ioctl en lc fd request fr)" by simp
  then show ?thesis
    by (cases "fst (early_gate en fr)")
      (auto simp: entry_ioctl_def split_beta Let_def
        intro: front_stepI(1) front_stepI(2) [where c = "Ioctl fd (ucast (ucast request :: u32))"])
next
  case (EClose fd)
  with assms have "fr' = snd (entry_close en lc op fd fr)" by simp
  then show ?thesis
    by (cases "fst (early_gate en fr)")
      (auto simp: entry_close_def split_beta intro: front_stepI(1) front_stepI(2) [where c = "Close fd"])
qed

lemma entry_run_inv:
  assumes "entry_run ce0 pg maps lc fr"
  shows "boot_reach pg maps (fr_boot fr) \<and> settled ce0 (fr_hook fr)"
  using assms
proof induction
  case (start k fr m e h)
  then show ?case by (simp add: boot_reach.start settled_start)
next
  case (phase fr fr')
  then show ?case by simp
next
  case (call fr en op c fr')
  have s: "settled (en_ce en) (fr_hook fr)" using call.IH settled_dc [OF call.hyps(2)] by blast
  have "settled ce0 (hook_step (en_ce en) lc op d (fr_hook fr))" for d
    using settled_step [OF s call.hyps(3)] settled_dc [OF call.hyps(2)] by blast
  then show ?case using entry_step_front [OF call.hyps(4)] call.IH
    by (auto simp: front_step_def intro: boot_reach.step)
qed

lemma entry_step_returns:
  assumes "boot_reach pg maps (fr_boot fr)" "kernel_ok pg maps"
  shows "\<exists>fr'. entry_step en pg lc op c fr = Some fr'"
proof -
  obtain xs where inv: "boot_inv maps (fr_boot fr) xs" using boot_reach_inv [OF assms] by blast
  show ?thesis
  proof (cases c)
    case (EFree p)
    then show ?thesis using IsBootstrapPointer_inv [OF inv, of p] Free_inv [OF inv assms(2), of p]
      by (auto simp: entry_free_def split_beta Let_def split: bool.splits)
  next
    case (ERealloc p n)
    obtain q b where "BootstrapRealloc pg p n (fr_boot fr) = Some (q, b)" using Realloc_inv [OF inv assms(2)] by blast
    then have "\<exists>r. entry_realloc en pg lc p n fr = Some r" using IsBootstrapPointer_inv [OF inv, of p]
      by (simp add: entry_realloc_def split_beta Let_def)
    then show ?thesis using ERealloc by auto
  qed simp_all
qed


definition demo_en :: entry_env where
  "demo_en = \<lparr> en_ce = demo_ce, en_environ = Some [], en_pid = 100, en_symbol = (\<lambda>s. True), en_modules = [], en_caller = 0 \<rparr>"

definition demo_front :: "(demo_heap, demo_kernel) front" where
  "demo_front = \<lparr> allocHook_setup = False, g_resolving_symbols = False, in_preinit_phase = False, fr_resolved = [],
     g_libc_range = \<lparr> ar_begin = 0, ar_end = 0 \<rparr>, fr_copy = probe_copy_init, fr_boot = demo_boot2,
     fr_hook = hook_start demo_ce demo_heap_start \<rparr>"



end
