(* ===== verification/ModuleRegistry.thy ===== *)
theory ModuleRegistry
  imports FrameTable
begin

text \<open>
  The snapshots of loaded modules behind the asynchronous symboliser
  (\<^verbatim>\<open>backtrace/src/AsyncStackPipeline.cpp\<close>): collecting a module from its program
  headers, reading its build identifier from the ELF notes, publishing a snapshot
  under a new generation, resolving an address against the snapshot of a
  generation, and symbolising a stack with \<^verbatim>\<open>dladdr\<close> as a parameter.
\<close>

section \<open>Collecting modules\<close>

record ModuleInfo =
  mi_generation :: u64
  mi_start :: u64
  mi_end :: u64
  mi_load_bias :: u64
  mi_name :: string
  mi_build_id :: string

definition ModuleInfo_init :: ModuleInfo where
  "ModuleInfo_init = \<lparr> mi_generation = 0, mi_start = 0, mi_end = 0, mi_load_bias = 0, mi_name = [], mi_build_id = [] \<rparr>"

definition CheckedAddOffset :: "u64 \<Rightarrow> u64 \<Rightarrow> u64 option" where
  "CheckedAddOffset base off = (if off > SIZE_MAX - base then None else Some (base + off))"

text \<open>A program header with the bytes its segment has in memory.\<close>

record elf_phdr =
  ep_type :: u32
  ep_vaddr :: u64
  ep_memsz :: u64
  ep_bytes :: "u8 list"

definition PT_LOAD :: u32 where "PT_LOAD = 1"
definition PT_NOTE :: u32 where "PT_NOTE = 4"

definition load_span :: "u64 \<Rightarrow> elf_phdr \<Rightarrow> u64 \<times> u64 \<Rightarrow> u64 \<times> u64" where
  "load_span addr ph = (\<lambda>(lo, hi).
     if ep_type ph \<noteq> PT_LOAD then (lo, hi)
     else case CheckedAddOffset addr (ep_vaddr ph) of
       None \<Rightarrow> (lo, hi)
     | Some segment_start \<Rightarrow>
         (case CheckedAddOffset segment_start (ep_memsz ph) of
            None \<Rightarrow> (lo, hi)
          | Some segment_end \<Rightarrow> (min lo segment_start, max hi segment_end)))"

definition le32 :: "u8 list \<Rightarrow> nat" where
  "le32 bs = (\<Sum>i < 4. unat (bs ! i) * 256 ^ i)"

definition align4 :: "nat \<Rightarrow> nat" where
  "align4 n = (n + 3) div 4 * 4"

definition hex_digit :: "nat \<Rightarrow> char" where
  "hex_digit d = ''0123456789abcdef'' ! d"

definition hex_bytes :: "u8 list \<Rightarrow> string" where
  "hex_bytes bs = concat (map (\<lambda>b. [hex_digit (unat b div 16), hex_digit (unat b mod 16)]) bs)"

definition GNU_bytes :: "u8 list" where "GNU_bytes = [0x47, 0x4e, 0x55]"

text \<open>The notes of one segment: the first GNU build identifier, if one is found.\<close>

function note_build_id :: "u8 list \<Rightarrow> string option" where
  "note_build_id bs =
     (if length bs < 12 then None
      else
        let namesz = le32 bs; descsz = le32 (drop 4 bs); ntype = le32 (drop 8 bs);
            rest = drop 12 bs;
            name_size = align4 namesz; desc_size = align4 descsz
        in if name_size > length rest \<or> desc_size > length rest - name_size then None
           else if ntype = 3 \<and> namesz \<ge> 3 \<and> take 3 rest = GNU_bytes
                then Some (hex_bytes (take descsz (drop name_size rest)))
                else note_build_id (drop (name_size + desc_size) rest))"
  by auto
termination
  by (relation "measure length") auto

declare note_build_id.simps [simp del]

fun find_build_id :: "elf_phdr list \<Rightarrow> string" where
  "find_build_id [] = []"
| "find_build_id (ph # phs) =
     (if ep_type ph \<noteq> PT_NOTE \<or> ep_memsz ph < 12 then find_build_id phs
      else case note_build_id (ep_bytes ph) of
        Some build_id \<Rightarrow> if build_id = [] then find_build_id phs else build_id
      | None \<Rightarrow> find_build_id phs)"

text \<open>What \<^verbatim>\<open>dl_iterate_phdr\<close> reports of a loaded object.\<close>

record loaded_object =
  lo_name :: "string option"
  lo_addr :: u64
  lo_phdrs :: "elf_phdr list"

definition CollectLoadedModule :: "loaded_object \<Rightarrow> ModuleInfo list \<Rightarrow> ModuleInfo list" where
  "CollectLoadedModule info modules =
     (let (start, finish) = fold (load_span (lo_addr info)) (lo_phdrs info) (- 1, 0)
      in if start < finish then
           modules @ [\<lparr> mi_generation = 0, mi_start = start, mi_end = finish, mi_load_bias = lo_addr info,
                        mi_name = (case lo_name info of None \<Rightarrow> [] | Some n \<Rightarrow> n),
                        mi_build_id = find_build_id (lo_phdrs info) \<rparr>]
         else modules)"

section \<open>The registry\<close>

record ModuleRegistry =
  mr_max_retained :: nat
  mr_generation :: u64
  mr_snapshots :: "(u64, ModuleInfo list) umap"

definition ModuleRegistry_new :: "nat \<Rightarrow> ModuleRegistry" where
  "ModuleRegistry_new max_retained =
     \<lparr> mr_max_retained = max max_retained 1, mr_generation = 1, mr_snapshots = [(1, [])] \<rparr>"

definition Equivalent :: "ModuleInfo list \<Rightarrow> ModuleInfo list \<Rightarrow> bool" where
  "Equivalent lhs rhs \<longleftrightarrow> length lhs = length rhs \<and>
     list_all (\<lambda>(a, b). mi_start a = mi_start b \<and> mi_end a = mi_end b \<and> mi_load_bias a = mi_load_bias b
       \<and> mi_name a = mi_name b \<and> mi_build_id a = mi_build_id b) (zip lhs rhs)"

fun oldest :: "(u64 \<times> 'a) list \<Rightarrow> u64 \<Rightarrow> u64" where
  "oldest [] k = k"
| "oldest (e # es) k = oldest es (if fst e < k then fst e else k)"

lemma oldest_mem: "oldest es k \<in> insert k (fst ` set es)"
proof (induction es arbitrary: k)
  case (Cons e es)
  then show ?case using Cons.IH [of "if fst e < k then fst e else k"] by (auto split: if_splits)
qed simp

lemma oldest_least: "oldest es k \<le> k \<and> (\<forall>e \<in> set es. oldest es k \<le> fst e)"
proof (induction es arbitrary: k)
  case (Cons e es)
  let ?k = "if fst e < k then fst e else k"
  have "?k \<le> k" "?k \<le> fst e" by auto
  then show ?case using Cons.IH [of ?k] by (auto simp del: if_split intro: order_trans)
qed simp

lemma oldest_hd: "es \<noteq> [] \<Longrightarrow> oldest es (fst (hd es)) \<in> fst ` set es"
  using oldest_mem [of es "fst (hd es)"] by (metis hd_in_set image_eqI insertE)

function evict_oldest :: "nat \<Rightarrow> (u64, ModuleInfo list) umap \<Rightarrow> (u64, ModuleInfo list) umap" where
  "evict_oldest limit es =
     (if length es > limit then evict_oldest limit (AList.delete (oldest es (fst (hd es))) es) else es)"
  by auto
termination
proof (relation "measure (\<lambda>(limit, es). length es)")
  fix limit and es :: "(u64, ModuleInfo list) umap"
  assume "length es > limit"
  then have "es \<noteq> []" by auto
  then show "((limit, AList.delete (oldest es (fst (hd es))) es), limit, es) \<in> measure (\<lambda>(limit, es). length es)"
    by (simp add: length_delete_less oldest_hd)
qed simp

declare evict_oldest.simps [simp del]

definition Publish :: "ModuleInfo list \<Rightarrow> ModuleRegistry \<Rightarrow> u64 \<times> ModuleRegistry" where
  "Publish modules r =
     (if (case map_of (mr_snapshots r) (mr_generation r) of Some current \<Rightarrow> Equivalent current modules | None \<Rightarrow> False)
      then (mr_generation r, r)
      else
        let g = mr_generation r + 1
        in (g, r\<lparr> mr_generation := g,
                  mr_snapshots := evict_oldest (mr_max_retained r)
                    (AList.update g (map (\<lambda>m. m\<lparr> mi_generation := g \<rparr>) modules) (mr_snapshots r)) \<rparr>))"

definition SnapshotCount :: "ModuleRegistry \<Rightarrow> nat" where
  "SnapshotCount r = length (mr_snapshots r)"

definition Registry_Resolve :: "u64 \<Rightarrow> u64 \<Rightarrow> ModuleRegistry \<Rightarrow> ModuleInfo option" where
  "Registry_Resolve pc generation r =
     (case map_of (mr_snapshots r) generation of
        None \<Rightarrow> None
      | Some snapshot \<Rightarrow> find (\<lambda>m. mi_start m \<le> pc \<and> pc < mi_end m) snapshot)"

definition Refresh :: "loaded_object list \<Rightarrow> ModuleRegistry \<Rightarrow> u64 \<times> ModuleRegistry" where
  "Refresh objects r = Publish (fold CollectLoadedModule objects []) r"

section \<open>Symbolising\<close>

text \<open>What \<^verbatim>\<open>dladdr\<close> answers: the base of the object, its file name, the symbol and its address.\<close>

record dl_symbol =
  dli_fbase :: u64
  dli_fname :: "string option"
  dli_sname :: "string option"
  dli_saddr :: u64

definition SymbolizedFrame_init :: SymbolizedFrame where
  "SymbolizedFrame_init = \<lparr> sf_pc = 0, sf_rel_pc = 0, sf_sp = 0, sf_module_start = 0, sf_module_generation = 0,
     sf_function_offset = 0, sf_module_name = [], sf_build_id = [], sf_function_name = [] \<rparr>"

definition symbolize_frame :: "build \<Rightarrow> (u64 \<Rightarrow> dl_symbol option) \<Rightarrow> ModuleInfo option \<Rightarrow> u64 \<Rightarrow> SymbolizedFrame" where
  "symbolize_frame b dladdr module pc =
     (let call_site = CallSitePcFromReturnAddress b pc;
          frame = SymbolizedFrame_init\<lparr> sf_pc := pc \<rparr>;
          frame = (case module of
                     None \<Rightarrow> frame\<lparr> sf_rel_pc := call_site \<rparr>
                   | Some m \<Rightarrow>
                       frame\<lparr> sf_module_generation := mi_generation m, sf_module_start := mi_start m,
                              sf_module_name := mi_name m, sf_build_id := mi_build_id m,
                              sf_rel_pc := (if mi_load_bias m = 0 then call_site
                                            else if call_site \<ge> mi_load_bias m then call_site - mi_load_bias m
                                            else call_site) \<rparr>)
      in case (dladdr call_site, module) of
           (Some info, Some m) \<Rightarrow>
             (case dli_sname info of
                Some name \<Rightarrow>
                  if dli_fbase info = mi_load_bias m
                     \<and> (mi_name m = [] \<or> dli_fname info = None \<or> dli_fname info = Some (mi_name m))
                  then frame\<lparr> sf_function_name := name,
                              sf_function_offset := (if call_site \<ge> dli_saddr info then call_site - dli_saddr info else 0) \<rparr>
                  else frame
              | None \<Rightarrow> frame)
         | _ \<Rightarrow> frame)"

definition Symbolize ::
    "build \<Rightarrow> (u64 \<Rightarrow> dl_symbol option) \<Rightarrow> RawStackRecord \<Rightarrow> ModuleInfo list \<Rightarrow> bool \<times> SymbolizedFrame list" where
  "Symbolize b dladdr raw modules =
     (let frames = map (\<lambda>i. symbolize_frame b dladdr (if i < length modules then Some (modules ! i) else None) (raw_pcs raw ! i))
                     [0..<raw_frame_count raw]
      in (frames \<noteq> [], frames))"

section \<open>Generations\<close>

text \<open>
  The registry holds a run of consecutive generations that ends with the current
  one, each snapshot stamped with its own generation.
\<close>

definition stamped :: "(u64, ModuleInfo list) umap \<Rightarrow> bool" where
  "stamped es \<longleftrightarrow> (\<forall>(g, ms) \<in> set es. \<forall>m \<in> set ms. mi_generation m = g)"

definition registry_inv :: "ModuleRegistry \<Rightarrow> bool" where
  "registry_inv r \<longleftrightarrow> umap_ok (mr_snapshots r) \<and> stamped (mr_snapshots r) \<and> 1 \<le> mr_max_retained r \<and> 1 \<le> unat (mr_generation r)
     \<and> length (mr_snapshots r) = min (mr_max_retained r) (unat (mr_generation r))
     \<and> unat ` fst ` set (mr_snapshots r) = {unat (mr_generation r) - length (mr_snapshots r) <.. unat (mr_generation r)}"

lemma registry_inv_new: "registry_inv (ModuleRegistry_new n)"
  by (auto simp: registry_inv_def ModuleRegistry_new_def stamped_def umap_ok_def)

lemma evict_oldest_run:
  assumes "umap_ok es" "1 \<le> limit" "length es \<le> limit + 1" "unat ` fst ` set es = {a <.. b}" "a \<le> b" "length es = b - a"
  shows "evict_oldest limit es = (if length es \<le> limit then es else AList.delete (of_nat (a + 1)) es)"
proof (cases "length es \<le> limit")
  case True
  then show ?thesis by (subst evict_oldest.simps) simp
next
  case False
  then have ne: "es \<noteq> []" and len: "length es = limit + 1" using assms by auto
  let ?k = "oldest es (fst (hd es))"
  have k: "?k \<in> fst ` set es" using oldest_hd [OF ne] .
  have "a + 1 \<in> unat ` fst ` set es" using assms False by auto
  then obtain e where e: "e \<in> set es" "unat (fst e) = a + 1" by auto
  then have "unat ?k \<le> a + 1" using oldest_least [of es "fst (hd es)"] by (metis word_le_nat_alt)
  moreover have "a < unat ?k" using k assms(4) by (metis greaterThanAtMost_iff imageI)
  ultimately have "unat ?k = a + 1" by simp
  then have "of_nat (unat ?k) = (of_nat (a + 1) :: u64)" by (rule arg_cong)
  then have kk: "?k = of_nat (a + 1)" by simp
  have "length (AList.delete ?k es) = limit" using length_delete [OF assms(1) [unfolded umap_ok_def] k] len by simp
  then have "evict_oldest limit (AList.delete ?k es) = AList.delete ?k es" by (subst evict_oldest.simps) simp
  then show ?thesis using False kk by (subst evict_oldest.simps) simp
qed

lemma stamped_update:
  "stamped es \<Longrightarrow> stamped (AList.update g (map (\<lambda>m. m\<lparr> mi_generation := g \<rparr>) modules) es)"
  by (induction es) (auto simp: stamped_def)

lemma stamped_delete: "stamped es \<Longrightarrow> stamped (AList.delete g es)"
  by (auto simp: stamped_def AList.delete_eq)

lemma keys_gone:
  assumes "unat ` fst ` set es = {a <.. b}" "unat k \<le> a"
  shows "map_of es k = None"
proof -
  have "unat k \<notin> unat ` fst ` set es" using assms by simp
  then show ?thesis by (auto simp: map_of_eq_None_iff)
qed

text \<open>Eviction leaves the newest generations: what they map to is unchanged.\<close>

lemma evict_oldest_keeps:
  assumes "umap_ok es" "stamped es" "1 \<le> limit" "length es \<le> limit + 1"
    and keys: "unat ` fst ` set es = {a <.. b}" and len: "a \<le> b" "length es = b - a" and b: "b < 2 ^ 64"
  defines "es' \<equiv> evict_oldest limit es"
  shows "umap_ok es' \<and> stamped es' \<and> length es' = min limit (b - a) \<and> unat ` fst ` set es' = {b - length es' <.. b}
    \<and> (\<forall>k. map_of es' k = (if b - unat k < limit then map_of es k else None))"
proof (cases "length es \<le> limit")
  case True
  have "map_of es k = None" if "\<not> b - unat k < limit" for k
    using that True len assms(3) by (intro keys_gone [OF keys]) linarith
  moreover have "es' = es" using evict_oldest_run [OF assms(1, 3, 4) keys len] True by (simp add: es'_def)
  ultimately show ?thesis using assms True by simp
next
  case False
  define d :: u64 where "d = of_nat (a + 1)"
  have n: "b - a = limit + 1" using False assms(4) len by simp
  have d: "unat d = a + 1" unfolding d_def by (rule unat_of_nat_small) (use b n in simp)
  have "a + 1 \<in> unat ` fst ` set es" using keys n by simp
  then obtain k where k: "a + 1 = unat k" "k \<in> fst ` set es" by (rule imageE)
  have "d = k" unfolding d_def k(1) by simp
  then have dd: "d \<in> fst ` set es" using k(2) by (simp only:)
  have es': "es' = AList.delete d es"
    using evict_oldest_run [OF assms(1, 3, 4) keys len] False unfolding es'_def d_def by (simp only: if_False)
  have "length es' = limit" using length_delete [OF assms(1) [unfolded umap_ok_def] dd] len n by (simp add: es')
  moreover have "unat ` fst ` set es' = {b - limit <.. b}"
  proof -
    have "unat ` fst ` set es' = unat ` (fst ` set es - {d})"
      using arg_cong [where f = set, OF delete_keys [of d es]] by (simp add: es')
    also have "\<dots> = unat ` fst ` set es - {unat d}"
      using inj_unat by (simp only: image_set_diff image_insert image_empty)
    also have "\<dots> = {b - limit <.. b}" unfolding keys d using n by auto
    finally show ?thesis .
  qed
  moreover have "map_of es' k = (if b - unat k < limit then map_of es k else None)" for k
  proof -
    have eq: "k = d \<longleftrightarrow> unat k = a + 1" using d by (metis word_unat_eq_iff)
    have "b - unat k < limit \<Longrightarrow> k \<noteq> d" using eq n by linarith
    moreover have "k = d \<or> map_of es k = None" if "\<not> b - unat k < limit"
    proof (cases "unat k = a + 1")
      case False
      then have "unat k \<le> a" using that n assms(3) by linarith
      then show ?thesis using keys_gone [OF keys] by simp
    qed (simp add: eq)
    ultimately show ?thesis by (auto simp: es' delete_conv')
  qed
  ultimately show ?thesis using assms(1, 2) n by (simp add: es' um.invar_erase stamped_delete)
qed

text \<open>
  A publication keeps the registry a run of generations. Either nothing changes,
  or the current generation moves up by one and every older snapshot that is still
  within the retained distance is the one it was.
\<close>

lemma Publish_run:
  fixes modules :: "ModuleInfo list"
  assumes "registry_inv r" "unat (mr_generation r) + 1 < 2 ^ 64"
  defines "r' \<equiv> snd (Publish modules r)"
  shows "registry_inv r' \<and> mr_max_retained r' = mr_max_retained r
    \<and> (r' = r \<or> unat (mr_generation r') = unat (mr_generation r) + 1
        \<and> (\<forall>g. g \<le> mr_generation r \<longrightarrow> map_of (mr_snapshots r') g =
              (if unat (mr_generation r') - unat g < mr_max_retained r then map_of (mr_snapshots r) g else None)))"
proof (cases "case map_of (mr_snapshots r) (mr_generation r) of Some current \<Rightarrow> Equivalent current modules | None \<Rightarrow> False")
  case True
  then show ?thesis using assms(1) by (simp add: r'_def Publish_def)
next
  case False
  let ?n = "unat (mr_generation r)" and ?len = "length (mr_snapshots r)" and ?g = "mr_generation r + 1"
  let ?es = "AList.update ?g (map (\<lambda>m. m\<lparr> mi_generation := ?g \<rparr>) modules) (mr_snapshots r)"
  note inv = assms(1) [unfolded registry_inv_def]
  have r': "r' = r\<lparr> mr_generation := ?g, mr_snapshots := evict_oldest (mr_max_retained r) ?es \<rparr>"
    using False by (simp add: r'_def Publish_def Let_def)
  have g: "unat ?g = ?n + 1" using assms(2) by (simp add: unat_word_ariths)
  have keys: "unat ` fst ` set (mr_snapshots r) = {?n - ?len <.. ?n}"
    and len: "?len = min (mr_max_retained r) ?n" using inv by auto
  have fresh: "?g \<notin> fst ` set (mr_snapshots r)"
  proof
    assume "?g \<in> fst ` set (mr_snapshots r)"
    then have "unat ?g \<in> {?n - ?len <.. ?n}" using keys by blast
    then show False using g by simp
  qed
  have es: "umap_ok ?es" "stamped ?es" "length ?es = ?len + 1"
    using inv fresh by (simp_all add: um.invar_put stamped_update umap_lengths)
  have "fst ` set ?es = insert ?g (fst ` set (mr_snapshots r))" using dom_update [of ?g _ "mr_snapshots r"] by simp
  then have "unat ` fst ` set ?es = insert (?n + 1) {?n - ?len <.. ?n}" by (simp only: image_insert g keys)
  also have "\<dots> = {?n - ?len <.. ?n + 1}" by auto
  finally have ekeys: "unat ` fst ` set ?es = {?n - ?len <.. ?n + 1}" .
  have old: "map_of ?es k = map_of (mr_snapshots r) k" if "k \<le> mr_generation r" for k
    using that g by (auto simp: word_le_nat_alt update_conv')
  note kept = evict_oldest_keeps [OF es(1, 2) _ _ ekeys, of "mr_max_retained r"]
  show ?thesis using kept es(3) inv len g assms(2) old by (auto simp: r' registry_inv_def)
qed

definition publish_all :: "ModuleInfo list list \<Rightarrow> ModuleRegistry \<Rightarrow> ModuleRegistry" where
  "publish_all mss r = fold (\<lambda>modules r. snd (Publish modules r)) mss r"

lemma publish_all_simps [simp]:
  "publish_all [] r = r"
  "publish_all (ms # mss) r = publish_all mss (snd (Publish ms r))"
  by (simp_all add: publish_all_def)

definition retains :: "ModuleRegistry \<Rightarrow> u64 \<Rightarrow> bool" where
  "retains r g \<longleftrightarrow> unat (mr_generation r) - unat g < mr_max_retained r"

lemma publish_all_run:
  assumes "registry_inv r" "unat (mr_generation r) + length mss < 2 ^ 64"
  shows "registry_inv (publish_all mss r) \<and> mr_max_retained (publish_all mss r) = mr_max_retained r
    \<and> mr_generation r \<le> mr_generation (publish_all mss r)
    \<and> unat (mr_generation (publish_all mss r)) \<le> unat (mr_generation r) + length mss
    \<and> (\<forall>g. 1 \<le> g \<and> g \<le> mr_generation r \<longrightarrow> map_of (mr_snapshots (publish_all mss r)) g =
          (if retains (publish_all mss r) g then map_of (mr_snapshots r) g else None))"
  using assms
proof (induction mss arbitrary: r)
  case Nil
  have "map_of (mr_snapshots r) g = None" if "1 \<le> g" "g \<le> mr_generation r" "\<not> retains r g" for g
  proof -
    have "unat g \<le> unat (mr_generation r) - length (mr_snapshots r)"
      using that Nil(1) unfolding registry_inv_def retains_def by linarith
    then have "unat g \<notin> unat ` fst ` set (mr_snapshots r)"
      using Nil(1) by (simp add: registry_inv_def)
    then show ?thesis by (auto simp: map_of_eq_None_iff)
  qed
  then show ?case using Nil by auto
next
  case (Cons ms mss)
  let ?s = "snd (Publish ms r)" and ?t = "publish_all mss (snd (Publish ms r))"
  have s: "registry_inv ?s" "mr_max_retained ?s = mr_max_retained r"
    and d: "?s = r \<or> unat (mr_generation ?s) = unat (mr_generation r) + 1
        \<and> (\<forall>g. g \<le> mr_generation r \<longrightarrow> map_of (mr_snapshots ?s) g =
              (if retains ?s g then map_of (mr_snapshots r) g else None))"
    using Publish_run [OF Cons.prems(1), of ms] Cons.prems(2) by (simp_all add: retains_def)
  then have le: "unat (mr_generation r) \<le> unat (mr_generation ?s)" "unat (mr_generation ?s) \<le> unat (mr_generation r) + 1" by auto
  then have t: "registry_inv ?t \<and> mr_max_retained ?t = mr_max_retained ?s \<and> mr_generation ?s \<le> mr_generation ?t
    \<and> unat (mr_generation ?t) \<le> unat (mr_generation ?s) + length mss
    \<and> (\<forall>g. 1 \<le> g \<and> g \<le> mr_generation ?s \<longrightarrow> map_of (mr_snapshots ?t) g =
          (if retains ?t g then map_of (mr_snapshots ?s) g else None))"
    using Cons.IH [OF s(1)] Cons.prems(2) by simp
  have mono: "retains ?s g" if "retains ?t g" for g
  proof -
    have "unat (mr_generation ?s) \<le> unat (mr_generation ?t)" "mr_max_retained ?t = mr_max_retained ?s"
      using t by (simp_all only: word_le_nat_alt)
    then show ?thesis using that unfolding retains_def by linarith
  qed
  have "map_of (mr_snapshots ?t) g = (if retains ?t g then map_of (mr_snapshots r) g else None)"
    if "1 \<le> g" "g \<le> mr_generation r" for g
  proof -
    have "g \<le> mr_generation ?s" using that(2) le(1) by (simp add: word_le_nat_alt)
    then have "map_of (mr_snapshots ?t) g = (if retains ?t g then map_of (mr_snapshots ?s) g else None)"
      using t that(1) by blast
    moreover have "map_of (mr_snapshots ?s) g = map_of (mr_snapshots r) g" if "retains ?t g"
      using d
    proof
      assume "?s = r"
      then show ?thesis by (rule arg_cong)
    next
      assume "unat (mr_generation ?s) = unat (mr_generation r) + 1
        \<and> (\<forall>g. g \<le> mr_generation r \<longrightarrow> map_of (mr_snapshots ?s) g =
              (if retains ?s g then map_of (mr_snapshots r) g else None))"
      then show ?thesis using mono [OF that] \<open>g \<le> mr_generation r\<close> by presburger
    qed
    ultimately show ?thesis by simp
  qed
  moreover have "mr_generation r \<le> mr_generation ?t" using t le(1) by (simp add: word_le_nat_alt)
  moreover have "unat (mr_generation ?t) \<le> unat (mr_generation r) + length (ms # mss)" using t le(2) by simp
  ultimately show ?case using t s(2) by simp
qed

text \<open>
  C28: a requested generation is never resolved against another snapshot. However
  many snapshots are published after an address was captured under a generation,
  the address resolves as it did when the generation was current while the
  generation is among the retained ones, and resolves to nothing afterwards; a
  module found carries the generation asked for and contains the address, and the
  registry never holds more snapshots than it retains.
\<close>

theorem generation_resolves_to_itself:
  assumes "length before + length later < 2 ^ 64 - 1"
    and "r = publish_all before (ModuleRegistry_new n)" "1 \<le> g" "g \<le> mr_generation r"
  shows "Registry_Resolve pc g (publish_all later r) = (if retains (publish_all later r) g then Registry_Resolve pc g r else None)
    \<and> SnapshotCount (publish_all later r) \<le> max n 1
    \<and> (case Registry_Resolve pc g r of None \<Rightarrow> True
       | Some m \<Rightarrow> mi_generation m = g \<and> mi_start m \<le> pc \<and> pc < mi_end m)"
proof -
  let ?t = "publish_all later r"
  have new: "unat (mr_generation (ModuleRegistry_new n)) = 1" "mr_max_retained (ModuleRegistry_new n) = max n 1"
    by (simp_all add: ModuleRegistry_new_def)
  have r: "registry_inv r" "mr_max_retained r = max n 1" "unat (mr_generation r) \<le> 1 + length before"
    using publish_all_run [OF registry_inv_new, of n before] assms(1, 2) new by simp_all
  then have t: "registry_inv ?t" "mr_max_retained ?t = max n 1"
      "map_of (mr_snapshots ?t) g = (if retains ?t g then map_of (mr_snapshots r) g else None)"
    using publish_all_run [OF r(1), of later] assms(1, 3, 4) by simp_all
  have "stamped (mr_snapshots r)" using r(1) by (simp add: registry_inv_def)
  then have "case Registry_Resolve pc g r of None \<Rightarrow> True | Some m \<Rightarrow> mi_generation m = g \<and> mi_start m \<le> pc \<and> pc < mi_end m"
    by (auto simp: Registry_Resolve_def stamped_def find_Some_iff dest!: map_of_SomeD split: option.splits)
  moreover have "SnapshotCount ?t \<le> max n 1" using t(1, 2) by (simp add: registry_inv_def SnapshotCount_def)
  ultimately show ?thesis by (simp add: Registry_Resolve_def t(3))
qed

text \<open>Two publications over a registry that retains two generations.\<close>

definition demo_module :: "u64 \<Rightarrow> ModuleInfo" where
  "demo_module start = ModuleInfo_init\<lparr> mi_start := start, mi_end := start + 0x1000, mi_name := ''libdemo.so'' \<rparr>"

theorem generation_resolves_to_itself_witness:
  "Registry_Resolve 0x4010 2 (publish_all [ [demo_module 0x8000] ] (publish_all [ [demo_module 0x4000] ] (ModuleRegistry_new 2)))
     = Some ((demo_module 0x4000)\<lparr> mi_generation := 2 \<rparr>)"
proof -
  let ?r = "publish_all [ [demo_module 0x4000] ] (ModuleRegistry_new 2)"
  have r: "?r = \<lparr> mr_max_retained = 2, mr_generation = 2,
      mr_snapshots = [(1, []), (2, [(demo_module 0x4000)\<lparr> mi_generation := 2 \<rparr>])] \<rparr>"
    by (simp add: ModuleRegistry_new_def Publish_def Equivalent_def evict_oldest.simps)
  have t: "retains (publish_all [ [demo_module 0x8000] ] ?r) 2"
    unfolding r by (simp add: Publish_def Equivalent_def demo_module_def retains_def)
  have "Registry_Resolve 0x4010 2 ?r = Some ((demo_module 0x4000)\<lparr> mi_generation := 2 \<rparr>)"
    unfolding r by (simp add: Registry_Resolve_def demo_module_def)
  then show ?thesis
    using generation_resolves_to_itself [where before = "[ [demo_module 0x4000] ]" and later = "[ [demo_module 0x8000] ]" and r = ?r and n = 2 and g = 2 and pc = "0x4010"]
      t r by simp
qed

end
