(* ===== verification/AsyncPipeline.thy ===== *)
theory AsyncPipeline
  imports ModuleRegistry
begin

text \<open>
  The asynchronous stack pipeline (\<^verbatim>\<open>backtrace/src/AsyncStackPipeline.cpp\<close>): callers
  submit captured stacks into a bounded ring, one worker takes them out, resolves
  and symbolises them, stores the results in bounded caches and calls back. Every
  critical section of the mutex is one function on the state; the position of the
  worker between its sections is part of the state, so that the steps of callers
  and worker interleave freely. Identifiers and counters are natural numbers:
  they count submissions, which do not reach \<open>2^64\<close>.
\<close>

section \<open>State\<close>

datatype StackResolutionState = Pending | Resolved | Dropped | Failed

record StackResult =
  sr_id :: nat
  sr_state :: StackResolutionState
  sr_raw :: RawStackRecord
  sr_frames :: "SymbolizedFrame list"

record AsyncStackStats =
  as_accepted :: nat
  as_duplicates :: nat
  as_dropped :: nat
  as_processed :: nat
  as_failed :: nat
  as_worker_start_failures :: nat
  as_recursive_submissions :: nat
  as_queue_high_water :: nat

definition AsyncStackStats_init :: AsyncStackStats where
  "AsyncStackStats_init = \<lparr> as_accepted = 0, as_duplicates = 0, as_dropped = 0, as_processed = 0, as_failed = 0,
     as_worker_start_failures = 0, as_recursive_submissions = 0, as_queue_high_water = 0 \<rparr>"

definition FormatAsyncStackStats :: "AsyncStackStats \<Rightarrow> string" where
  "FormatAsyncStackStats st =
     ''accepted='' @ show_nat (as_accepted st) @ '' duplicates='' @ show_nat (as_duplicates st)
     @ '' dropped='' @ show_nat (as_dropped st) @ '' processed='' @ show_nat (as_processed st)
     @ '' failed='' @ show_nat (as_failed st) @ '' worker_start_failures='' @ show_nat (as_worker_start_failures st)
     @ '' recursive_submissions='' @ show_nat (as_recursive_submissions st)
     @ '' queue_high_water='' @ show_nat (as_queue_high_water st)"

record SubmitResult =
  sb_id :: nat
  sb_accepted :: bool
  sb_duplicate :: bool
  sb_dropped :: bool
  sb_rejected_recursion :: bool

definition SubmitResult_init :: SubmitResult where
  "SubmitResult_init = \<lparr> sb_id = 0, sb_accepted = False, sb_duplicate = False, sb_dropped = False, sb_rejected_recursion = False \<rparr>"

record RawStackKey =
  rk_frame_count :: nat
  rk_module_generation :: u64
  rk_pcs :: "u64 list"

record QueueItem =
  qi_id :: nat
  qi_raw :: RawStackRecord

definition QueueItem_init :: QueueItem where
  "QueueItem_init = \<lparr> qi_id = 0, qi_raw = RawStackRecord_init \<rparr>"

text \<open>Where the worker is between two sections, with the item or result it holds in its locals.\<close>

datatype worker_at =
    Waiting
  | Taken QueueItem
  | Completed StackResult
  | Calling StackResult
  | Called
  | Exited

record pipeline =
  pl_capacity :: nat
  pl_result_capacity :: nat
  pl_callback :: bool
  pl_shutdown_started :: bool
  pl_queue :: "QueueItem list"
  pl_queue_head :: nat
  pl_queue_size :: nat
  pl_active :: nat
  pl_stopping :: bool
  pl_joined :: bool
  pl_next_id :: nat
  pl_stats :: AsyncStackStats
  pl_unique_stacks :: "(RawStackKey, nat) umap"
  pl_id_to_key :: "(nat, RawStackKey) umap"
  pl_results :: "(nat, StackResult) umap"
  pl_result_order :: "nat list"
  pl_dropped_order :: "nat list"
  pl_registry :: ModuleRegistry
  pl_worker :: worker_at
  pl_marker_set :: bool
  pl_callbacks :: "StackResult list"

definition AsyncStackPipeline_new :: "bool \<Rightarrow> loaded_object list \<Rightarrow> nat \<Rightarrow> bool \<Rightarrow> pipeline" where
  "AsyncStackPipeline_new key_ready objects capacity callback =
     \<lparr> pl_capacity = max capacity 1, pl_result_capacity = max capacity 1, pl_callback = callback, pl_shutdown_started = False,
       pl_queue = replicate (max capacity 1) QueueItem_init, pl_queue_head = 0, pl_queue_size = 0, pl_active = 0,
       pl_stopping = (\<not> key_ready), pl_joined = False, pl_next_id = 1,
       pl_stats = AsyncStackStats_init\<lparr> as_worker_start_failures := (if key_ready then 0 else 1) \<rparr>,
       pl_unique_stacks = [], pl_id_to_key = [], pl_results = [], pl_result_order = [], pl_dropped_order = [],
       pl_registry = snd (Refresh objects (ModuleRegistry_new 64)),
       pl_worker = (if key_ready then Waiting else Exited), pl_marker_set = False, pl_callbacks = [] \<rparr>"

section \<open>Keys\<close>

definition HashPc :: "u64 \<Rightarrow> u64 \<Rightarrow> u64" where
  "HashPc seed pc = seed XOR (pc + 0x9e3779b97f4a7c15 + push_bit 6 seed + drop_bit 2 seed)"

definition RawStackKeyHash :: "RawStackKey \<Rightarrow> u64" where
  "RawStackKeyHash key =
     fold (\<lambda>i value. HashPc value (rk_pcs key ! i)) [0..<min (rk_frame_count key) 8]
       (HashPc (of_nat (rk_frame_count key)) (rk_module_generation key))"

definition MakeKey :: "RawStackRecord \<Rightarrow> RawStackKey" where
  "MakeKey raw =
     (let n = min (raw_frame_count raw) kMaxAsyncRawFrames
      in \<lparr> rk_frame_count = n, rk_module_generation = raw_module_generation raw, rk_pcs = take n (raw_pcs raw) \<rparr>)"

section \<open>The result caches\<close>

definition EraseResultLocked :: "nat \<Rightarrow> pipeline \<Rightarrow> pipeline" where
  "EraseResultLocked i s =
     (let s = (case map_of (pl_id_to_key s) i of
                 None \<Rightarrow> s
               | Some key \<Rightarrow>
                   s\<lparr> pl_unique_stacks := (if map_of (pl_unique_stacks s) key = Some i
                                           then AList.delete key (pl_unique_stacks s) else pl_unique_stacks s),
                      pl_id_to_key := AList.delete i (pl_id_to_key s) \<rparr>)
      in s\<lparr> pl_results := AList.delete i (pl_results s) \<rparr>)"

lemma EraseResultLocked_orders [simp]:
  "pl_result_order (EraseResultLocked i s) = pl_result_order s"
  "pl_dropped_order (EraseResultLocked i s) = pl_dropped_order s"
  by (simp_all add: EraseResultLocked_def Let_def split: option.splits)

function EvictResultCacheLocked :: "pipeline \<Rightarrow> pipeline" where
  "EvictResultCacheLocked s =
     (if length (pl_result_order s) > pl_result_capacity s then
        let evicted = hd (pl_result_order s);
            s = s\<lparr> pl_result_order := tl (pl_result_order s) \<rparr>
        in case map_of (pl_results s) evicted of
             None \<Rightarrow> EvictResultCacheLocked s
           | Some r \<Rightarrow>
               if sr_state r = Pending then EvictResultCacheLocked s
               else EvictResultCacheLocked (EraseResultLocked evicted s)
      else s)"
  by pat_completeness auto
termination
  by (relation "measure (\<lambda>s. length (pl_result_order s))") auto

declare EvictResultCacheLocked.simps [simp del]

function EvictDroppedCacheLocked :: "pipeline \<Rightarrow> pipeline" where
  "EvictDroppedCacheLocked s =
     (if length (pl_dropped_order s) > pl_result_capacity s then
        EvictDroppedCacheLocked (EraseResultLocked (hd (pl_dropped_order s)) (s\<lparr> pl_dropped_order := tl (pl_dropped_order s) \<rparr>))
      else s)"
  by pat_completeness auto
termination
  by (relation "measure (\<lambda>s. length (pl_dropped_order s))") auto

declare EvictDroppedCacheLocked.simps [simp del]

section \<open>Callers\<close>

definition prepare_raw :: "RawStackRecord \<Rightarrow> pipeline \<Rightarrow> RawStackRecord" where
  "prepare_raw input s =
     (let raw = input\<lparr> raw_frame_count := min (raw_frame_count input) kMaxAsyncRawFrames \<rparr>
      in if raw_module_generation raw = 0 then raw\<lparr> raw_module_generation := mr_generation (pl_registry s) \<rparr> else raw)"

definition submit_section :: "RawStackRecord \<Rightarrow> pipeline \<Rightarrow> SubmitResult \<times> pipeline" where
  "submit_section raw s =
     (if pl_stopping s then (SubmitResult_init, s)
      else
        let key = MakeKey raw; st = pl_stats s
        in case map_of (pl_unique_stacks s) key of
             Some existing \<Rightarrow>
               (SubmitResult_init\<lparr> sb_id := existing, sb_duplicate := True \<rparr>,
                s\<lparr> pl_stats := st\<lparr> as_duplicates := as_duplicates st + 1 \<rparr> \<rparr>)
           | None \<Rightarrow>
               let i = pl_next_id s;
                   pending = \<lparr> sr_id = i, sr_state = Pending, sr_raw = raw, sr_frames = [] \<rparr>;
                   s = s\<lparr> pl_next_id := i + 1,
                          pl_unique_stacks := umap_emplace key i (pl_unique_stacks s),
                          pl_id_to_key := umap_emplace i key (pl_id_to_key s),
                          pl_results := umap_emplace i pending (pl_results s) \<rparr>
               in if pl_queue_size s = pl_capacity s then
                    let s = EvictDroppedCacheLocked
                              (s\<lparr> pl_results := AList.update i (pending\<lparr> sr_state := Dropped \<rparr>) (pl_results s),
                                 pl_unique_stacks := AList.delete key (pl_unique_stacks s),
                                 pl_dropped_order := pl_dropped_order s @ [i] \<rparr>)
                    in (SubmitResult_init\<lparr> sb_id := i, sb_dropped := True \<rparr>,
                        s\<lparr> pl_stats := st\<lparr> as_dropped := as_dropped st + 1 \<rparr> \<rparr>)
                  else
                    let index = (pl_queue_head s + pl_queue_size s) mod pl_capacity s;
                        size = pl_queue_size s + 1
                    in (SubmitResult_init\<lparr> sb_id := i, sb_accepted := True \<rparr>,
                        s\<lparr> pl_queue := (pl_queue s)[index := \<lparr> qi_id = i, qi_raw = raw \<rparr>],
                           pl_queue_size := size,
                           pl_stats := st\<lparr> as_accepted := as_accepted st + 1,
                                           as_queue_high_water := max (as_queue_high_water st) size \<rparr> \<rparr>))"

definition Submit :: "bool \<Rightarrow> RawStackRecord \<Rightarrow> pipeline \<Rightarrow> SubmitResult \<times> pipeline" where
  "Submit on_worker input s =
     (if on_worker
      then (SubmitResult_init\<lparr> sb_rejected_recursion := True \<rparr>,
            s\<lparr> pl_stats := (pl_stats s)\<lparr> as_recursive_submissions := as_recursive_submissions (pl_stats s) + 1 \<rparr> \<rparr>)
      else submit_section (prepare_raw input s) s)"

definition Release :: "nat \<Rightarrow> pipeline \<Rightarrow> bool \<times> pipeline" where
  "Release i s =
     (if i = 0 then (False, s)
      else case map_of (pl_results s) i of
        None \<Rightarrow> (False, s)
      | Some r \<Rightarrow>
          if sr_state r = Pending then (False, s)
          else let s = EraseResultLocked i s
               in (True, s\<lparr> pl_result_order := removeAll i (pl_result_order s),
                            pl_dropped_order := removeAll i (pl_dropped_order s) \<rparr>))"

definition GetResult :: "nat \<Rightarrow> pipeline \<Rightarrow> StackResult option" where
  "GetResult i s = map_of (pl_results s) i"

definition CurrentModuleGeneration :: "pipeline \<Rightarrow> u64" where
  "CurrentModuleGeneration s = mr_generation (pl_registry s)"

text \<open>\<^verbatim>\<open>Flush\<close> refreshes the modules unless finalization has begun, then waits for the idle condition.\<close>

definition flush_refresh :: "loaded_object list \<Rightarrow> pipeline \<Rightarrow> pipeline" where
  "flush_refresh objects s =
     (if pl_shutdown_started s then s else s\<lparr> pl_registry := snd (Refresh objects (pl_registry s)) \<rparr>)"

definition flush_idle :: "pipeline \<Rightarrow> bool" where
  "flush_idle s \<longleftrightarrow> pl_queue_size s = 0 \<and> pl_active s = 0"

definition BeginFinalization :: "pipeline \<Rightarrow> pipeline" where
  "BeginFinalization s = s\<lparr> pl_shutdown_started := True \<rparr>"

definition shutdown_request :: "pipeline \<Rightarrow> pipeline" where
  "shutdown_request s =
     (let s = BeginFinalization s in if pl_joined s then s else s\<lparr> pl_stopping := True \<rparr>)"

definition shutdown_join :: "pipeline \<Rightarrow> pipeline option" where
  "shutdown_join s = (if pl_worker s = Exited then Some (s\<lparr> pl_joined := True \<rparr>) else None)"

section \<open>The worker\<close>

definition resolve_item :: "build \<Rightarrow> (u64 \<Rightarrow> dl_symbol option) \<Rightarrow> ModuleRegistry \<Rightarrow> QueueItem \<Rightarrow> StackResult" where
  "resolve_item b dladdr registry item =
     (let raw = qi_raw item;
          found = map (\<lambda>i. Registry_Resolve (CallSitePcFromReturnAddress b (raw_pcs raw ! i)) (raw_module_generation raw) registry)
                    [0..<raw_frame_count raw];
          modules = map (\<lambda>m. case m of None \<Rightarrow> ModuleInfo_init | Some m \<Rightarrow> m) found;
          unresolved_module = (None \<in> set found);
          (symbolized, frames) = Symbolize b dladdr raw modules
      in \<lparr> sr_id = qi_id item, sr_state = (if symbolized \<and> \<not> unresolved_module then Resolved else Failed),
           sr_raw = raw, sr_frames = frames \<rparr>)"

definition take_item :: "pipeline \<Rightarrow> pipeline" where
  "take_item s = s\<lparr> pl_worker := Taken (pl_queue s ! pl_queue_head s),
     pl_queue_head := (pl_queue_head s + 1) mod pl_capacity s,
     pl_queue_size := pl_queue_size s - 1, pl_active := pl_active s + 1 \<rparr>"

definition fail_result :: "QueueItem \<Rightarrow> StackResult list \<times> pipeline \<Rightarrow> StackResult list \<times> pipeline" where
  "fail_result item = (\<lambda>(failed_results, s).
     let failed = \<lparr> sr_id = qi_id item, sr_state = Failed, sr_raw = qi_raw item, sr_frames = [] \<rparr>; st = pl_stats s
     in (failed_results @ [failed],
         s\<lparr> pl_results := (case map_of (pl_results s) (qi_id item) of
                             None \<Rightarrow> pl_results s | Some _ \<Rightarrow> AList.update (qi_id item) failed (pl_results s)),
            pl_stats := st\<lparr> as_processed := as_processed st + 1, as_failed := as_failed st + 1 \<rparr> \<rparr>))"

fun fail_queue :: "nat \<Rightarrow> StackResult list \<times> pipeline \<Rightarrow> StackResult list \<times> pipeline" where
  "fail_queue 0 fs = fs"
| "fail_queue (Suc n) fs =
     (let (fs', s) = fail_result (pl_queue (snd fs) ! pl_queue_head (snd fs)) fs
      in fail_queue n (fs', s\<lparr> pl_queue_head := (pl_queue_head s + 1) mod pl_capacity s,
                               pl_queue_size := pl_queue_size s - 1 \<rparr>))"

definition marker_failed :: "QueueItem \<Rightarrow> pipeline \<Rightarrow> pipeline" where
  "marker_failed item s =
     (let (failed_results, s) = fail_queue (pl_queue_size s) (fail_result item ([], s)); st = pl_stats s
      in s\<lparr> pl_active := pl_active s - 1, pl_stopping := True,
            pl_stats := st\<lparr> as_worker_start_failures := as_worker_start_failures st + 1 \<rparr>,
            pl_callbacks := pl_callbacks s @ (if pl_callback s then failed_results else []),
            pl_worker := Exited \<rparr>)"

definition publish_result :: "StackResult \<Rightarrow> pipeline \<Rightarrow> pipeline" where
  "publish_result completed s =
     (let s = EvictResultCacheLocked
                (s\<lparr> pl_results := (case map_of (pl_results s) (sr_id completed) of
                                     None \<Rightarrow> pl_results s | Some _ \<Rightarrow> AList.update (sr_id completed) completed (pl_results s)),
                   pl_result_order := pl_result_order s @ [sr_id completed],
                   pl_worker := Calling completed \<rparr>);
          st = pl_stats s
      in s\<lparr> pl_stats := st\<lparr> as_processed := as_processed st + 1,
                             as_failed := as_failed st + (if sr_state completed = Failed then 1 else 0) \<rparr> \<rparr>)"

text \<open>
  One step of \<^verbatim>\<open>WorkerLoop\<close>; \<open>marker_ok\<close> is the answer of \<^verbatim>\<open>pthread_setspecific\<close>. There is
  no step while the worker waits for work and after it has left its loop.
\<close>

definition worker_step :: "bool \<Rightarrow> build \<Rightarrow> (u64 \<Rightarrow> dl_symbol option) \<Rightarrow> pipeline \<Rightarrow> pipeline option" where
  "worker_step marker_ok b dladdr s =
     (case pl_worker s of
        Waiting \<Rightarrow>
          if pl_queue_size s = 0
          then (if pl_stopping s then Some (s\<lparr> pl_worker := Exited, pl_marker_set := False \<rparr>) else None)
          else Some (take_item s)
      | Taken item \<Rightarrow>
          if \<not> pl_marker_set s \<and> \<not> marker_ok then Some (marker_failed item s)
          else Some (s\<lparr> pl_marker_set := True, pl_worker := Completed (resolve_item b dladdr (pl_registry s) item) \<rparr>)
      | Completed completed \<Rightarrow> Some (publish_result completed s)
      | Calling completed \<Rightarrow>
          Some (s\<lparr> pl_callbacks := pl_callbacks s @ (if pl_callback s then [completed] else []), pl_worker := Called \<rparr>)
      | Called \<Rightarrow> Some (s\<lparr> pl_active := pl_active s - 1, pl_worker := Waiting \<rparr>)
      | Exited \<Rightarrow> None)"

section \<open>Reachable states\<close>

definition submit_ok :: "RawStackRecord \<Rightarrow> bool" where
  "submit_ok raw \<longleftrightarrow> raw_frame_count raw \<le> kMaxAsyncRawFrames \<and> raw_frame_count raw \<le> length (raw_pcs raw)"

text \<open>
  Any interleaving of callers and worker. A submission reads the generation before
  it takes the mutex, so its section runs on any prepared record.
\<close>

inductive pipe_reach :: "build \<Rightarrow> (u64 \<Rightarrow> dl_symbol option) \<Rightarrow> pipeline \<Rightarrow> bool" for b dladdr where
  new: "pipe_reach b dladdr (AsyncStackPipeline_new key_ready objects capacity callback)"
| submit: "pipe_reach b dladdr s \<Longrightarrow> submit_ok raw \<Longrightarrow> pipe_reach b dladdr (snd (submit_section raw s))"
| recurse: "pipe_reach b dladdr s \<Longrightarrow> pipe_reach b dladdr (snd (Submit True raw s))"
| release: "pipe_reach b dladdr s \<Longrightarrow> pipe_reach b dladdr (snd (Release i s))"
| refresh: "pipe_reach b dladdr s \<Longrightarrow> pipe_reach b dladdr (flush_refresh objects s)"
| begin_final: "pipe_reach b dladdr s \<Longrightarrow> pipe_reach b dladdr (BeginFinalization s)"
| shutdown: "pipe_reach b dladdr s \<Longrightarrow> pipe_reach b dladdr (shutdown_request s)"
| join: "pipe_reach b dladdr s \<Longrightarrow> shutdown_join s = Some s' \<Longrightarrow> pipe_reach b dladdr s'"
| work: "pipe_reach b dladdr s \<Longrightarrow> worker_step marker_ok b dladdr s = Some s' \<Longrightarrow> pipe_reach b dladdr s'"

section \<open>The ring is a queue\<close>

definition ring_items :: "nat \<Rightarrow> 'a list \<Rightarrow> nat \<Rightarrow> nat \<Rightarrow> 'a list" where
  "ring_items cap q h n = map (\<lambda>i. q ! ((h + i) mod cap)) [0..<n]"

lemma ring_items_0 [simp]: "ring_items cap q h 0 = []"
  by (simp add: ring_items_def)

lemma length_ring_items [simp]: "length (ring_items cap q h n) = n"
  by (simp add: ring_items_def)

lemma ring_pop:
  assumes "0 < n" "h < cap"
  shows "ring_items cap q h n = q ! h # ring_items cap q ((h + 1) mod cap) (n - 1)"
proof (rule nth_equalityI)
  fix i assume "i < length (ring_items cap q h n)"
  then show "ring_items cap q h n ! i = (q ! h # ring_items cap q ((h + 1) mod cap) (n - 1)) ! i"
    using assms by (cases i) (simp_all add: ring_items_def mod_simps)
qed (use assms in simp)

lemma ring_slot_free:
  fixes h n i cap :: nat
  assumes "i < n" "n < cap"
  shows "(h + i) mod cap \<noteq> (h + n) mod cap"
proof
  assume "(h + i) mod cap = (h + n) mod cap"
  then have "cap dvd (h + n) - (h + i)" using assms by (metis mod_eq_dvd_iff_nat add_le_cancel_left less_imp_le)
  then show False using assms by (auto dest!: dvd_imp_le)
qed

lemma ring_push:
  assumes "n < cap" "length q = cap"
  shows "ring_items cap (q[(h + n) mod cap := x]) h (n + 1) = ring_items cap q h n @ [x]"
proof -
  have "q[(h + n) mod cap := x] ! ((h + i) mod cap) = q ! ((h + i) mod cap)" if "i < n" for i
    using ring_slot_free [OF that assms(1), of h] by simp
  then show ?thesis using assms by (simp add: ring_items_def)
qed

section \<open>Frames\<close>

text \<open>Erasing and evicting touch the caches only.\<close>

lemma EraseResultLocked_frame [simp]:
  "pl_capacity (EraseResultLocked i s) = pl_capacity s" "pl_result_capacity (EraseResultLocked i s) = pl_result_capacity s"
  "pl_callback (EraseResultLocked i s) = pl_callback s" "pl_queue (EraseResultLocked i s) = pl_queue s"
  "pl_queue_head (EraseResultLocked i s) = pl_queue_head s" "pl_queue_size (EraseResultLocked i s) = pl_queue_size s"
  "pl_active (EraseResultLocked i s) = pl_active s" "pl_stopping (EraseResultLocked i s) = pl_stopping s"
  "pl_next_id (EraseResultLocked i s) = pl_next_id s" "pl_stats (EraseResultLocked i s) = pl_stats s"
  "pl_registry (EraseResultLocked i s) = pl_registry s" "pl_worker (EraseResultLocked i s) = pl_worker s"
  "pl_callbacks (EraseResultLocked i s) = pl_callbacks s" "pl_results (EraseResultLocked i s) = AList.delete i (pl_results s)"
  by (simp_all add: EraseResultLocked_def Let_def split: option.splits)

definition pl_core :: "pipeline \<Rightarrow> pipeline" where
  "pl_core s = s\<lparr> pl_unique_stacks := [], pl_id_to_key := [], pl_results := [], pl_result_order := [], pl_dropped_order := [] \<rparr>"

lemma core_erase [simp]:
  "pl_core (EraseResultLocked i s) = pl_core s" "pl_core (s\<lparr> pl_result_order := o1 \<rparr>) = pl_core s"
  "pl_core (s\<lparr> pl_dropped_order := o2 \<rparr>) = pl_core s" "pl_core (s\<lparr> pl_results := m \<rparr>) = pl_core s"
  by (simp_all add: pl_core_def EraseResultLocked_def Let_def split: option.splits)

lemma core_evict_result [simp]: "pl_core (EvictResultCacheLocked s) = pl_core s"
  by (induction s rule: EvictResultCacheLocked.induct)
    (subst EvictResultCacheLocked.simps, simp add: Let_def split: option.splits)

lemma core_evict_dropped [simp]: "pl_core (EvictDroppedCacheLocked s) = pl_core s"
  by (induction s rule: EvictDroppedCacheLocked.induct) (subst EvictDroppedCacheLocked.simps, simp)

lemma core_fields:
  assumes "pl_core s = pl_core t"
  shows "pl_capacity s = pl_capacity t" "pl_result_capacity s = pl_result_capacity t" "pl_callback s = pl_callback t"
    "pl_queue s = pl_queue t" "pl_queue_head s = pl_queue_head t" "pl_queue_size s = pl_queue_size t"
    "pl_active s = pl_active t" "pl_stopping s = pl_stopping t" "pl_next_id s = pl_next_id t" "pl_stats s = pl_stats t"
    "pl_registry s = pl_registry t" "pl_worker s = pl_worker t" "pl_callbacks s = pl_callbacks t"
  using assms by (cases s, cases t, simp add: pl_core_def)+

lemmas evict_result_frame [simp] = core_fields [OF core_evict_result]
lemmas evict_dropped_frame [simp] = core_fields [OF core_evict_dropped]

section \<open>Every accepted stack once, in order\<close>

text \<open>The stacks accepted and not yet stored as results: the one the worker holds, then the ring.\<close>

definition items :: "pipeline \<Rightarrow> QueueItem list" where
  "items s = ring_items (pl_capacity s) (pl_queue s) (pl_queue_head s) (pl_queue_size s)"

definition held :: "pipeline \<Rightarrow> QueueItem list" where
  "held s = (case pl_worker s of Taken it \<Rightarrow> [it] | Completed r \<Rightarrow> [\<lparr> qi_id = sr_id r, qi_raw = sr_raw r \<rparr>] | _ \<Rightarrow> [])"

definition todo :: "pipeline \<Rightarrow> QueueItem list" where
  "todo s = held s @ items s"

definition calling :: "pipeline \<Rightarrow> nat list" where
  "calling s = (case pl_worker s of Calling r \<Rightarrow> [sr_id r] | _ \<Rightarrow> [])"

definition ring_inv :: "pipeline \<Rightarrow> bool" where
  "ring_inv s \<longleftrightarrow> 1 \<le> pl_capacity s \<and> pl_result_capacity s = pl_capacity s \<and> length (pl_queue s) = pl_capacity s
     \<and> pl_queue_head s < pl_capacity s \<and> pl_queue_size s \<le> pl_capacity s
     \<and> pl_active s = (if pl_worker s \<in> {Waiting, Exited} then 0 else 1)
     \<and> (pl_worker s = Exited \<longrightarrow> pl_stopping s \<and> pl_queue_size s = 0)"

definition order_inv :: "pipeline \<Rightarrow> bool" where
  "order_inv s \<longleftrightarrow> as_accepted (pl_stats s) = as_processed (pl_stats s) + length (todo s)
     \<and> (pl_callback s \<longrightarrow> as_processed (pl_stats s) = length (pl_callbacks s) + length (calling s))
     \<and> sorted_wrt (<) (map sr_id (pl_callbacks s) @ calling s @ map qi_id (todo s) @ [pl_next_id s])
     \<and> 0 < pl_next_id s"

lemma core_inv:
  assumes "pl_core s = pl_core t"
  shows "ring_inv s = ring_inv t" "order_inv s = order_inv t" "todo s = todo t" "calling s = calling t"
  by (simp_all add: ring_inv_def order_inv_def todo_def items_def held_def calling_def core_fields [OF assms])

text \<open>The failure of the worker's marker fails the item in hand and empties the ring, in order.\<close>

definition failed_of :: "QueueItem \<Rightarrow> StackResult" where
  "failed_of it = \<lparr> sr_id = qi_id it, sr_state = Failed, sr_raw = qi_raw it, sr_frames = [] \<rparr>"

definition replace_result :: "StackResult \<Rightarrow> (nat, StackResult) umap \<Rightarrow> (nat, StackResult) umap" where
  "replace_result r m = (case map_of m (sr_id r) of None \<Rightarrow> m | Some _ \<Rightarrow> AList.update (sr_id r) r m)"

lemma fail_result_eq:
  "fail_result it (fs, s) = (fs @ [failed_of it],
     s\<lparr> pl_results := replace_result (failed_of it) (pl_results s),
        pl_stats := (pl_stats s)\<lparr> as_processed := as_processed (pl_stats s) + 1, as_failed := as_failed (pl_stats s) + 1 \<rparr> \<rparr>)"
  by (simp add: fail_result_def failed_of_def replace_result_def Let_def split: option.splits)

lemma fail_queue_run:
  assumes "pl_queue_size s = n" "pl_queue_head s < pl_capacity s"
  shows "\<exists>h. h < pl_capacity s \<and> fail_queue n (fs, s) = (fs @ map failed_of (items s),
     s\<lparr> pl_results := fold (replace_result \<circ> failed_of) (items s) (pl_results s), pl_queue_head := h, pl_queue_size := 0,
        pl_stats := (pl_stats s)\<lparr> as_processed := as_processed (pl_stats s) + n, as_failed := as_failed (pl_stats s) + n \<rparr> \<rparr>)"
  using assms
proof (induction n arbitrary: fs s)
  case 0
  then show ?case by (intro exI [of _ "pl_queue_head s"]) (simp add: items_def)
next
  case (Suc n)
  let ?x = "pl_queue s ! pl_queue_head s"
  define t where "t = s\<lparr> pl_results := replace_result (failed_of ?x) (pl_results s),
      pl_stats := (pl_stats s)\<lparr> as_processed := as_processed (pl_stats s) + 1, as_failed := as_failed (pl_stats s) + 1 \<rparr>,
      pl_queue_head := (pl_queue_head s + 1) mod pl_capacity s, pl_queue_size := n \<rparr>"
  have cap: "0 < pl_capacity s" using Suc.prems by linarith
  have items: "items s = ?x # items t"
    using ring_pop [of "Suc n" "pl_queue_head s" "pl_capacity s" "pl_queue s"] Suc.prems by (simp add: items_def t_def)
  have eq: "fail_queue (Suc n) (fs, s) = fail_queue n (fs @ [failed_of ?x], t)"
    using Suc.prems by (simp add: fail_result_eq t_def)
  have t: "pl_queue_size t = n" "pl_queue_head t < pl_capacity t" using cap by (simp_all add: t_def)
  obtain h where h: "h < pl_capacity t"
    "fail_queue n (fs @ [failed_of ?x], t) = ((fs @ [failed_of ?x]) @ map failed_of (items t),
       t\<lparr> pl_results := fold (replace_result \<circ> failed_of) (items t) (pl_results t), pl_queue_head := h, pl_queue_size := 0,
          pl_stats := (pl_stats t)\<lparr> as_processed := as_processed (pl_stats t) + n, as_failed := as_failed (pl_stats t) + n \<rparr> \<rparr>)"
    using Suc.IH [OF t, of "fs @ [failed_of ?x]"] by (elim exE conjE)
  have "h < pl_capacity s" using h(1) by (simp add: t_def)
  moreover have st: "t\<lparr> pl_results := fold (replace_result \<circ> failed_of) (items t) (pl_results t), pl_queue_head := h, pl_queue_size := 0,
          pl_stats := (pl_stats t)\<lparr> as_processed := as_processed (pl_stats t) + n, as_failed := as_failed (pl_stats t) + n \<rparr> \<rparr>
     = s\<lparr> pl_results := fold (replace_result \<circ> failed_of) (?x # items t) (pl_results s), pl_queue_head := h, pl_queue_size := 0,
        pl_stats := (pl_stats s)\<lparr> as_processed := as_processed (pl_stats s) + Suc n, as_failed := as_failed (pl_stats s) + Suc n \<rparr> \<rparr>"
    by (simp add: t_def)
  ultimately show ?case
    unfolding eq h(2) items st by (intro exI [of _ h] conjI) (assumption, simp only: list.map append_assoc append.simps)
qed

lemma marker_failed_run:
  assumes "ring_inv s"
  shows "\<exists>h. h < pl_capacity s \<and> marker_failed it s =
    s\<lparr> pl_results := fold (replace_result \<circ> failed_of) (it # items s) (pl_results s), pl_queue_head := h, pl_queue_size := 0,
       pl_active := pl_active s - 1, pl_stopping := True,
       pl_stats := (pl_stats s)\<lparr> as_processed := as_processed (pl_stats s) + (pl_queue_size s + 1),
         as_failed := as_failed (pl_stats s) + (pl_queue_size s + 1),
         as_worker_start_failures := as_worker_start_failures (pl_stats s) + 1 \<rparr>,
       pl_callbacks := pl_callbacks s @ (if pl_callback s then map failed_of (it # items s) else []),
       pl_worker := Exited \<rparr>"
proof -
  define t where "t = s\<lparr> pl_results := replace_result (failed_of it) (pl_results s),
      pl_stats := (pl_stats s)\<lparr> as_processed := as_processed (pl_stats s) + 1, as_failed := as_failed (pl_stats s) + 1 \<rparr> \<rparr>"
  have t: "pl_queue_size t = pl_queue_size s" "pl_queue_head t < pl_capacity t" "items t = items s" "pl_capacity t = pl_capacity s"
    using assms by (simp_all add: t_def items_def ring_inv_def)
  obtain h where h: "h < pl_capacity t"
    "fail_queue (pl_queue_size s) ([failed_of it], t) = ([failed_of it] @ map failed_of (items t),
       t\<lparr> pl_results := fold (replace_result \<circ> failed_of) (items t) (pl_results t), pl_queue_head := h, pl_queue_size := 0,
          pl_stats := (pl_stats t)\<lparr> as_processed := as_processed (pl_stats t) + pl_queue_size s,
            as_failed := as_failed (pl_stats t) + pl_queue_size s \<rparr> \<rparr>)"
    using fail_queue_run [OF t(1, 2), of "[failed_of it]"] by (elim exE conjE)
  have "fail_result it ([], s) = ([failed_of it], t)" by (simp add: fail_result_eq t_def)
  then show ?thesis using h(1) unfolding marker_failed_def h(2) t(3, 4)
    by (intro exI [of _ h] conjI) (assumption, simp add: h(2) t(3) Let_def, simp add: t_def)
qed

subsection \<open>Steps keep ring and order\<close>

definition flow_inv :: "pipeline \<Rightarrow> bool" where
  "flow_inv s \<longleftrightarrow> ring_inv s \<and> order_inv s"

lemmas flow_defs = flow_inv_def ring_inv_def order_inv_def todo_def held_def calling_def

lemma flow_new: "flow_inv (AsyncStackPipeline_new key_ready objects capacity callback)"
  by (simp add: flow_defs AsyncStackPipeline_new_def AsyncStackStats_init_def items_def)

lemma core_upd:
  "pl_core (s\<lparr> pl_stats := x \<rparr>) = (pl_core s)\<lparr> pl_stats := x \<rparr>" "pl_core (s\<lparr> pl_worker := w \<rparr>) = (pl_core s)\<lparr> pl_worker := w \<rparr>"
  by (simp_all add: pl_core_def)

lemma core_flow: "pl_core s = pl_core t \<Longrightarrow> flow_inv s = flow_inv t"
  using core_inv(1, 2) [of s t] by (simp only: flow_inv_def)

text \<open>The four outcomes of a submission, up to the caches.\<close>

lemma submit_stopping: "pl_stopping s \<Longrightarrow> submit_section raw s = (SubmitResult_init, s)"
  by (simp add: submit_section_def)

lemma submit_duplicate:
  assumes "\<not> pl_stopping s" "map_of (pl_unique_stacks s) (MakeKey raw) = Some i"
  shows "submit_section raw s = (SubmitResult_init\<lparr> sb_id := i, sb_duplicate := True \<rparr>,
    s\<lparr> pl_stats := (pl_stats s)\<lparr> as_duplicates := as_duplicates (pl_stats s) + 1 \<rparr> \<rparr>)"
  using assms by (simp add: submit_section_def Let_def)

definition pending_of :: "nat \<Rightarrow> RawStackRecord \<Rightarrow> StackResult" where
  "pending_of i raw = \<lparr> sr_id = i, sr_state = Pending, sr_raw = raw, sr_frames = [] \<rparr>"

lemma submit_dropped:
  assumes "\<not> pl_stopping s" "map_of (pl_unique_stacks s) (MakeKey raw) = None" "pl_queue_size s = pl_capacity s"
  defines "i \<equiv> pl_next_id s"
  shows "submit_section raw s = (SubmitResult_init\<lparr> sb_id := i, sb_dropped := True \<rparr>,
    (EvictDroppedCacheLocked (s\<lparr> pl_next_id := i + 1,
       pl_id_to_key := umap_emplace i (MakeKey raw) (pl_id_to_key s),
       pl_results := AList.update i ((pending_of i raw)\<lparr> sr_state := Dropped \<rparr>) (umap_emplace i (pending_of i raw) (pl_results s)),
       pl_unique_stacks := AList.delete (MakeKey raw) (umap_emplace (MakeKey raw) i (pl_unique_stacks s)),
       pl_dropped_order := pl_dropped_order s @ [i] \<rparr>))
     \<lparr> pl_stats := (pl_stats s)\<lparr> as_dropped := as_dropped (pl_stats s) + 1 \<rparr> \<rparr>)"
  using assms by (simp add: submit_section_def Let_def pending_of_def)

lemma submit_accepted:
  assumes "\<not> pl_stopping s" "map_of (pl_unique_stacks s) (MakeKey raw) = None" "pl_queue_size s \<noteq> pl_capacity s"
  defines "i \<equiv> pl_next_id s" and "n \<equiv> pl_queue_size s"
  shows "submit_section raw s = (SubmitResult_init\<lparr> sb_id := i, sb_accepted := True \<rparr>,
    s\<lparr> pl_next_id := i + 1,
       pl_unique_stacks := umap_emplace (MakeKey raw) i (pl_unique_stacks s),
       pl_id_to_key := umap_emplace i (MakeKey raw) (pl_id_to_key s),
       pl_results := umap_emplace i (pending_of i raw) (pl_results s),
       pl_queue := (pl_queue s)[(pl_queue_head s + n) mod pl_capacity s := \<lparr> qi_id = i, qi_raw = raw \<rparr>],
       pl_queue_size := n + 1,
       pl_stats := (pl_stats s)\<lparr> as_accepted := as_accepted (pl_stats s) + 1,
                                as_queue_high_water := max (as_queue_high_water (pl_stats s)) (n + 1) \<rparr> \<rparr>)"
  using assms by (simp add: submit_section_def Let_def pending_of_def)

lemma sorted_bump:
  "sorted_wrt (<) (xs @ [n]) \<Longrightarrow> sorted_wrt (<) (xs @ [Suc n])" "sorted_wrt (<) (xs @ [n]) \<Longrightarrow> sorted_wrt (<) (xs @ [n, Suc n])"
  for n :: nat
  by (auto simp: sorted_wrt_append intro: less_SucI)

lemma flow_submit:
  assumes "flow_inv s"
  shows "flow_inv (snd (submit_section raw s))"
proof -
  have run: "\<not> pl_stopping s \<Longrightarrow> pl_worker s \<noteq> Exited" using assms by (auto simp: flow_inv_def ring_inv_def)
  consider (stop) "pl_stopping s"
    | (dup) i where "\<not> pl_stopping s" "map_of (pl_unique_stacks s) (MakeKey raw) = Some i"
    | (drop) "\<not> pl_stopping s" "map_of (pl_unique_stacks s) (MakeKey raw) = None" "pl_queue_size s = pl_capacity s"
    | (acc) "\<not> pl_stopping s" "map_of (pl_unique_stacks s) (MakeKey raw) = None" "pl_queue_size s \<noteq> pl_capacity s"
    by (cases "map_of (pl_unique_stacks s) (MakeKey raw)") auto
  then show ?thesis
  proof cases
    case stop
    then show ?thesis using assms by (simp add: submit_stopping)
  next
    case dup
    let ?s = "snd (submit_section raw s)"
    have "todo ?s = todo s" "calling ?s = calling s"
      using dup by (simp_all add: submit_duplicate todo_def held_def items_def calling_def)
    then show ?thesis using assms dup by (simp add: flow_inv_def order_inv_def ring_inv_def submit_duplicate)
  next
    case drop
    let ?t = "s\<lparr> pl_next_id := Suc (pl_next_id s), pl_stats := (pl_stats s)\<lparr> as_dropped := as_dropped (pl_stats s) + 1 \<rparr> \<rparr>"
    have "pl_core (snd (submit_section raw s)) = pl_core ?t"
      using drop by (simp add: submit_dropped core_upd) (simp add: pl_core_def)
    moreover have "todo ?t = todo s" "calling ?t = calling s"
      by (simp_all add: todo_def held_def items_def calling_def)
    then have "flow_inv ?t"
      using assms sorted_bump(1) [of "map sr_id (pl_callbacks s) @ calling s @ map qi_id (todo s)" "pl_next_id s"]
      by (simp add: flow_inv_def order_inv_def ring_inv_def)
    ultimately show ?thesis using core_flow by blast
  next
    case acc
    define t where "t = snd (submit_section raw s)"
    have f: "pl_capacity t = pl_capacity s" "pl_result_capacity t = pl_result_capacity s" "length (pl_queue t) = length (pl_queue s)"
      "pl_queue_head t = pl_queue_head s" "pl_queue_size t = pl_queue_size s + 1" "pl_active t = pl_active s" "pl_worker t = pl_worker s"
      "pl_stopping t = pl_stopping s" "pl_callback t = pl_callback s" "pl_callbacks t = pl_callbacks s" "pl_next_id t = Suc (pl_next_id s)"
      "as_accepted (pl_stats t) = as_accepted (pl_stats s) + 1" "as_processed (pl_stats t) = as_processed (pl_stats s)"
      using acc by (simp_all add: t_def submit_accepted)
    have "items t = items s @ [\<lparr> qi_id = pl_next_id s, qi_raw = raw \<rparr>]"
      using ring_push [of "pl_queue_size s" "pl_capacity s" "pl_queue s"] assms acc
      by (simp add: t_def submit_accepted items_def flow_inv_def ring_inv_def)
    then have "todo t = todo s @ [\<lparr> qi_id = pl_next_id s, qi_raw = raw \<rparr>]" "calling t = calling s"
      by (simp_all add: todo_def held_def calling_def f)
    then have "flow_inv t"
      using assms acc run sorted_bump(2) [of "map sr_id (pl_callbacks s) @ calling s @ map qi_id (todo s)" "pl_next_id s"]
      by (simp add: flow_inv_def order_inv_def ring_inv_def f)
    then show ?thesis by (simp only: t_def)
  qed
qed

lemma core_release: "pl_core (snd (Release i s)) = pl_core s"
  by (simp add: Release_def Let_def split: option.splits)

lemma flow_release: "flow_inv s \<Longrightarrow> flow_inv (snd (Release i s))"
  using core_flow [OF core_release] by simp

text \<open>The remaining caller steps change nothing the invariant reads, but for the stop request.\<close>

lemma flow_callers:
  assumes "flow_inv s"
  shows "flow_inv (snd (Submit True raw s))" "flow_inv (flush_refresh objects s)" "flow_inv (BeginFinalization s)"
    "flow_inv (shutdown_request s)" "shutdown_join s = Some s' \<Longrightarrow> flow_inv s'"
  using assms
  by (auto simp: flow_defs items_def Submit_def flush_refresh_def BeginFinalization_def shutdown_request_def
      shutdown_join_def Let_def split: if_splits)

lemma flow_take:
  assumes "flow_inv s" "pl_worker s = Waiting" "pl_queue_size s \<noteq> 0"
  shows "flow_inv (take_item s)" "todo (take_item s) = todo s"
proof -
  have "items s = pl_queue s ! pl_queue_head s # items (take_item s)"
    using ring_pop [of "pl_queue_size s" "pl_queue_head s" "pl_capacity s" "pl_queue s"] assms
    by (simp add: items_def take_item_def flow_inv_def ring_inv_def)
  then show t: "todo (take_item s) = todo s"
    using assms(2) by (simp add: todo_def held_def take_item_def)
  have "calling (take_item s) = calling s" using assms(2) by (simp add: calling_def take_item_def)
  then show "flow_inv (take_item s)"
    using assms t by (simp add: flow_inv_def order_inv_def ring_inv_def) (auto simp: take_item_def)
qed

lemma resolve_item_id [simp]: "sr_id (resolve_item b dladdr r it) = qi_id it" "sr_raw (resolve_item b dladdr r it) = qi_raw it"
  by (simp_all add: resolve_item_def Let_def split: prod.splits)

lemma map_failed_of [simp]: "map (sr_id \<circ> failed_of) its = map qi_id its"
  by (simp add: failed_of_def)

lemma flow_marker_failed:
  assumes "flow_inv s" "pl_worker s = Taken it"
  shows "flow_inv (marker_failed it s)" "todo (marker_failed it s) = []" "todo s = it # items s"
proof -
  obtain h where h: "h < pl_capacity s" and t: "marker_failed it s =
    s\<lparr> pl_results := fold (replace_result \<circ> failed_of) (it # items s) (pl_results s), pl_queue_head := h, pl_queue_size := 0,
       pl_active := pl_active s - 1, pl_stopping := True,
       pl_stats := (pl_stats s)\<lparr> as_processed := as_processed (pl_stats s) + (pl_queue_size s + 1),
         as_failed := as_failed (pl_stats s) + (pl_queue_size s + 1),
         as_worker_start_failures := as_worker_start_failures (pl_stats s) + 1 \<rparr>,
       pl_callbacks := pl_callbacks s @ (if pl_callback s then map failed_of (it # items s) else []),
       pl_worker := Exited \<rparr>"
    using marker_failed_run [of s it] assms(1) by (auto simp: flow_inv_def)
  show todo: "todo s = it # items s" using assms(2) by (simp add: todo_def held_def)
  have len: "length (items s) = pl_queue_size s" by (simp add: items_def)
  show t0: "todo (marker_failed it s) = []" by (simp add: t todo_def held_def items_def)
  have "calling (marker_failed it s) = []" "calling s = []" using assms(2) by (simp_all add: t calling_def)
  then show "flow_inv (marker_failed it s)"
    using assms h todo t0 len by (simp add: flow_inv_def ring_inv_def order_inv_def t sorted_wrt_append) (auto simp: failed_of_def)
qed

lemma flow_publish:
  assumes "flow_inv s" "pl_worker s = Completed r"
  shows "flow_inv (publish_result r s)" "todo s = \<lparr> qi_id = sr_id r, qi_raw = sr_raw r \<rparr> # items s" "todo (publish_result r s) = items s"
proof -
  define t where "t = s\<lparr> pl_stats := (pl_stats s)\<lparr> as_processed := as_processed (pl_stats s) + 1,
      as_failed := as_failed (pl_stats s) + (if sr_state r = Failed then 1 else 0) \<rparr>, pl_worker := Calling r \<rparr>"
  have pl_core: "pl_core (publish_result r s) = pl_core t"
    by (simp only: publish_result_def Let_def core_upd core_evict_result evict_result_frame core_erase t_def) simp
  show todo: "todo s = \<lparr> qi_id = sr_id r, qi_raw = sr_raw r \<rparr> # items s" using assms(2) by (simp add: todo_def held_def)
  have t: "todo t = items s" "calling t = [sr_id r]" "calling s = []"
    using assms(2) by (simp_all add: todo_def held_def items_def calling_def t_def)
  have f: "pl_capacity t = pl_capacity s" "pl_result_capacity t = pl_result_capacity s" "pl_queue t = pl_queue s"
      "pl_queue_head t = pl_queue_head s" "pl_queue_size t = pl_queue_size s" "pl_active t = pl_active s" "pl_worker t = Calling r"
      "pl_callback t = pl_callback s" "pl_callbacks t = pl_callbacks s" "pl_next_id t = pl_next_id s"
      "as_accepted (pl_stats t) = as_accepted (pl_stats s)" "as_processed (pl_stats t) = as_processed (pl_stats s) + 1"
    by (simp_all add: t_def)
  have "flow_inv t" using assms todo t by (simp add: flow_inv_def ring_inv_def order_inv_def f)
  then show "flow_inv (publish_result r s)" using core_flow [OF pl_core] by simp
  show "todo (publish_result r s) = items s" using core_inv(3) [OF pl_core] t(1) by simp
qed

lemma flow_work:
  assumes "flow_inv s" "worker_step marker_ok b dladdr s = Some s'"
  shows "flow_inv s'"
proof (cases "pl_worker s")
  case Waiting
  then show ?thesis using assms flow_take [OF assms(1) Waiting]
    by (auto simp: worker_step_def flow_defs items_def split: if_splits)
next
  case (Taken it)
  show ?thesis
  proof (cases "\<not> pl_marker_set s \<and> \<not> marker_ok")
    case True
    then show ?thesis using assms Taken flow_marker_failed(1) [OF assms(1) Taken] by (simp add: worker_step_def)
  next
    case False
    then show ?thesis using assms Taken by (auto simp: worker_step_def flow_defs items_def split: if_splits)
  qed
next
  case (Completed r)
  then show ?thesis using assms flow_publish(1) [OF assms(1) Completed] by (simp add: worker_step_def)
next
  case (Calling r)
  then show ?thesis using assms by (auto simp: worker_step_def flow_defs items_def sorted_wrt_append)
next
  case Called
  then show ?thesis using assms by (auto simp: worker_step_def flow_defs items_def)
qed (use assms in \<open>simp add: worker_step_def\<close>)

lemma pipe_flow: "pipe_reach b dladdr s \<Longrightarrow> flow_inv s"
  by (induction rule: pipe_reach.induct)
    (auto intro: flow_new flow_submit flow_release flow_callers flow_work)

end
