(* ===== verification/AsyncCaches.thy ===== *)
theory AsyncCaches
  imports AsyncPipeline
begin

text \<open>
  The result caches of the asynchronous stack pipeline: what the table of results,
  the table of unique stacks and the two eviction orders hold in every reachable
  state of any interleaving of callers and worker.
\<close>

section \<open>The caches\<close>

text \<open>
  Pending results are those of the accepted stacks still to be processed; finished
  ones wait in one of the two bounded orders; the dedup table names exactly the
  retained stacks that were not dropped.
\<close>

definition result_ok :: "pipeline \<Rightarrow> nat \<Rightarrow> StackResult \<Rightarrow> bool" where
  "result_ok s k r \<longleftrightarrow> sr_id r = k \<and> k < pl_next_id s
     \<and> (if sr_state r = Pending then k \<in> qi_id ` set (todo s)
        else k \<in> set (pl_result_order s) \<union> set (pl_dropped_order s) \<or> pl_worker s = Exited)"

definition results_ok :: "pipeline \<Rightarrow> bool" where
  "results_ok s \<longleftrightarrow> (\<forall>k r. map_of (pl_results s) k = Some r \<longrightarrow> result_ok s k r)"

definition todo_ok :: "pipeline \<Rightarrow> bool" where
  "todo_ok s \<longleftrightarrow> (\<forall>it \<in> set (todo s). \<exists>r. map_of (pl_results s) (qi_id it) = Some r \<and> sr_state r = Pending \<and> sr_raw r = qi_raw it)"

definition orders_ok :: "pipeline \<Rightarrow> bool" where
  "orders_ok s \<longleftrightarrow> (\<forall>k \<in> set (pl_result_order s) \<union> set (pl_dropped_order s). k \<notin> qi_id ` set (todo s) \<and> k < pl_next_id s)"

definition keys_ok :: "pipeline \<Rightarrow> bool" where
  "keys_ok s \<longleftrightarrow>
     (\<forall>k. map_of (pl_id_to_key s) k = map_option (MakeKey \<circ> sr_raw) (map_of (pl_results s) k))
     \<and> (\<forall>key i. map_of (pl_unique_stacks s) key = Some i \<longleftrightarrow>
          (\<exists>r. map_of (pl_results s) i = Some r \<and> MakeKey (sr_raw r) = key \<and> sr_state r \<noteq> Dropped))"

definition maps_ok :: "pipeline \<Rightarrow> bool" where
  "maps_ok s \<longleftrightarrow> umap_ok (pl_results s) \<and> umap_ok (pl_unique_stacks s) \<and> umap_ok (pl_id_to_key s)"

definition cache_inv :: "pipeline \<Rightarrow> bool" where
  "cache_inv s \<longleftrightarrow> maps_ok s \<and> results_ok s \<and> todo_ok s \<and> orders_ok s \<and> keys_ok s"

lemmas cache_defs = cache_inv_def maps_ok_def results_ok_def todo_ok_def orders_ok_def

lemma erase_todo [simp]: "todo (EraseResultLocked i s) = todo s" "calling (EraseResultLocked i s) = calling s"
  by (simp_all add: core_inv(3, 4) [OF core_erase(1)])

lemma order_todo [simp]:
  "todo (s\<lparr> pl_result_order := o1 \<rparr>) = todo s" "todo (s\<lparr> pl_dropped_order := o1 \<rparr>) = todo s" "todo (s\<lparr> pl_results := m \<rparr>) = todo s"
  by (simp_all add: core_inv(3) [OF core_erase(2)] core_inv(3) [OF core_erase(3)] core_inv(3) [OF core_erase(4)])

lemma keys_erase:
  assumes "keys_ok s" "maps_ok s"
  shows "keys_ok (EraseResultLocked i s) \<and> maps_ok (EraseResultLocked i s)"
proof (cases "map_of (pl_results s) i")
  case None
  then have "map_of (pl_id_to_key s) i = None" using assms(1) by (simp add: keys_ok_def)
  then have "EraseResultLocked i s = s\<lparr> pl_results := AList.delete i (pl_results s) \<rparr>" by (simp add: EraseResultLocked_def)
  moreover have "AList.delete i (pl_results s) = pl_results s" using None by (simp add: map_of_eq_None_iff)
  ultimately show ?thesis using assms by simp
next
  case (Some r)
  let ?key = "MakeKey (sr_raw r)"
  have key: "map_of (pl_id_to_key s) i = Some ?key" using assms(1) Some by (simp add: keys_ok_def)
  let ?u = "if map_of (pl_unique_stacks s) ?key = Some i then AList.delete ?key (pl_unique_stacks s) else pl_unique_stacks s"
  have e: "EraseResultLocked i s = s\<lparr> pl_unique_stacks := ?u, pl_id_to_key := AList.delete i (pl_id_to_key s),
      pl_results := AList.delete i (pl_results s) \<rparr>" by (simp add: EraseResultLocked_def key)
  have u: "map_of (pl_unique_stacks s) k = Some j \<longleftrightarrow>
      (\<exists>r. map_of (pl_results s) j = Some r \<and> MakeKey (sr_raw r) = k \<and> sr_state r \<noteq> Dropped)" for k j
    using assms(1) by (simp add: keys_ok_def)
  have "map_of ?u k = Some j \<longleftrightarrow> j \<noteq> i \<and> map_of (pl_unique_stacks s) k = Some j" for k j
    using u [of k i] Some by (auto simp: delete_conv')
  then have "keys_ok (EraseResultLocked i s)"
    using assms(1) u by (auto simp: e keys_ok_def delete_conv')
  then show ?thesis using assms(2) by (simp add: e maps_ok_def um.invar_erase)
qed

lemma cache_erase:
  assumes "cache_inv s" "i \<notin> qi_id ` set (todo s)"
  shows "cache_inv (EraseResultLocked i s)"
proof -
  have "result_ok (EraseResultLocked i s) = result_ok s" by (simp add: result_ok_def fun_eq_iff)
  then have "results_ok (EraseResultLocked i s)" using assms(1) by (simp add: cache_inv_def results_ok_def delete_conv')
  moreover have "todo_ok (EraseResultLocked i s)" using assms by (auto simp: cache_inv_def todo_ok_def delete_conv')
  moreover have "orders_ok (EraseResultLocked i s)" using assms(1) by (simp add: cache_inv_def orders_ok_def)
  ultimately show ?thesis using keys_erase assms(1) by (simp add: cache_inv_def)
qed

lemma cache_orders:
  assumes "cache_inv s" "set o1 \<subseteq> set (pl_result_order s)" "set o2 \<subseteq> set (pl_dropped_order s)"
    and "\<And>k. k \<in> (set (pl_result_order s) \<union> set (pl_dropped_order s)) - (set o1 \<union> set o2) \<Longrightarrow> map_of (pl_results s) k = None"
  shows "cache_inv (s\<lparr> pl_result_order := o1, pl_dropped_order := o2 \<rparr>)"
proof -
  let ?s = "s\<lparr> pl_result_order := o1, pl_dropped_order := o2 \<rparr>"
  have "result_ok ?s k r" if "map_of (pl_results s) k = Some r" "result_ok s k r" for k r
  proof -
    have "k \<in> set (pl_result_order s) \<union> set (pl_dropped_order s) \<longrightarrow> k \<in> set o1 \<union> set o2"
      using that(1) assms(4) [of k] by fastforce
    then show ?thesis using that(2) by (auto simp: result_ok_def)
  qed
  then have "results_ok ?s" using assms(1) by (simp add: cache_inv_def results_ok_def)
  then show ?thesis using assms(1-3) by (auto simp: cache_inv_def maps_ok_def todo_ok_def orders_ok_def keys_ok_def)
qed

lemma erase_order_commute:
  "EraseResultLocked i (s\<lparr> pl_dropped_order := o2 \<rparr>) = (EraseResultLocked i s)\<lparr> pl_dropped_order := o2 \<rparr>"
  "EraseResultLocked i (s\<lparr> pl_result_order := o1 \<rparr>) = (EraseResultLocked i s)\<lparr> pl_result_order := o1 \<rparr>"
  by (simp_all add: EraseResultLocked_def Let_def split: option.splits)

lemma cache_pop_dropped:
  assumes "cache_inv s" "pl_dropped_order s = i # rest"
  shows "cache_inv (EraseResultLocked i (s\<lparr> pl_dropped_order := rest \<rparr>))"
proof -
  have "i \<notin> qi_id ` set (todo s)" using assms by (auto simp: cache_inv_def orders_ok_def)
  then have "cache_inv (EraseResultLocked i s)" using cache_erase assms(1) by blast
  then have "cache_inv ((EraseResultLocked i s)\<lparr> pl_result_order := pl_result_order (EraseResultLocked i s), pl_dropped_order := rest \<rparr>)"
    by (rule cache_orders) (use assms(2) in \<open>auto simp: delete_conv'\<close>)
  then show ?thesis by (simp add: erase_order_commute del: EraseResultLocked_orders)
qed

lemma cache_pop_result:
  assumes "cache_inv s" "pl_result_order s = i # rest"
  shows "cache_inv (EraseResultLocked i (s\<lparr> pl_result_order := rest \<rparr>))"
proof -
  have "i \<notin> qi_id ` set (todo s)" using assms by (auto simp: cache_inv_def orders_ok_def)
  then have "cache_inv (EraseResultLocked i s)" using cache_erase assms(1) by blast
  then have "cache_inv ((EraseResultLocked i s)\<lparr> pl_result_order := rest, pl_dropped_order := pl_dropped_order (EraseResultLocked i s) \<rparr>)"
    by (rule cache_orders) (use assms(2) in \<open>auto simp: delete_conv'\<close>)
  then show ?thesis by (simp add: erase_order_commute del: EraseResultLocked_orders)
qed

lemma cache_skip_result:
  assumes "cache_inv s" "pl_result_order s = i # rest" "map_of (pl_results s) i = None"
  shows "cache_inv (s\<lparr> pl_result_order := rest \<rparr>)"
proof -
  have "cache_inv (s\<lparr> pl_result_order := rest, pl_dropped_order := pl_dropped_order s \<rparr>)"
    by (rule cache_orders) (use assms in auto)
  then show ?thesis by simp
qed

lemma cache_order_done:
  assumes "cache_inv s" "k \<in> set (pl_result_order s)" "map_of (pl_results s) k = Some r"
  shows "sr_state r \<noteq> Pending"
proof
  assume "sr_state r = Pending"
  moreover have "result_ok s k r" using assms by (simp add: cache_inv_def results_ok_def)
  ultimately have "k \<in> qi_id ` set (todo s)" by (simp add: result_ok_def)
  then show False using assms by (auto simp: cache_inv_def orders_ok_def)
qed

lemma cache_evict_dropped:
  "cache_inv s \<Longrightarrow> cache_inv (EvictDroppedCacheLocked s) \<and> length (pl_dropped_order (EvictDroppedCacheLocked s)) \<le> pl_result_capacity s
     \<and> pl_result_order (EvictDroppedCacheLocked s) = pl_result_order s"
proof (induction s rule: EvictDroppedCacheLocked.induct)
  case (1 s)
  show ?case
  proof (cases "length (pl_dropped_order s) > pl_result_capacity s")
    case True
    then obtain i rest where o: "pl_dropped_order s = i # rest" by (cases "pl_dropped_order s") auto
    then show ?thesis using 1(1) [OF True] cache_pop_dropped [OF 1(2) o] True
      by (subst (1 2 3) EvictDroppedCacheLocked.simps) simp
  next
    case False
    then show ?thesis using 1(2) by (subst (1 2 3) EvictDroppedCacheLocked.simps) simp
  qed
qed

lemma cache_evict_result:
  "cache_inv s \<Longrightarrow> cache_inv (EvictResultCacheLocked s) \<and> length (pl_result_order (EvictResultCacheLocked s)) \<le> pl_result_capacity s
     \<and> pl_dropped_order (EvictResultCacheLocked s) = pl_dropped_order s"
proof (induction s rule: EvictResultCacheLocked.induct)
  case (1 s)
  show ?case
  proof (cases "length (pl_result_order s) > pl_result_capacity s")
    case True
    then obtain i rest where o: "pl_result_order s = i # rest" by (cases "pl_result_order s") auto
    show ?thesis
    proof (cases "map_of (pl_results s) i")
      case None
      then show ?thesis using 1(1) [OF True refl refl] cache_skip_result [OF 1(4) o None] True o
        by (subst (1 2 3) EvictResultCacheLocked.simps) simp
    next
      case (Some r)
      then have "sr_state r \<noteq> Pending" using cache_order_done [OF 1(4), of i r] o by simp
      then show ?thesis using 1(3) [OF True refl refl] cache_pop_result [OF 1(4) o] True o Some
        by (subst (1 2 3) EvictResultCacheLocked.simps) simp
    qed
  next
    case False
    then show ?thesis using 1(4) by (subst (1 2 3) EvictResultCacheLocked.simps) simp
  qed
qed

subsection \<open>Submissions\<close>

text \<open>The invariant reads these fields only.\<close>

lemma cache_cong:
  assumes "pl_results s = pl_results t" "pl_unique_stacks s = pl_unique_stacks t" "pl_id_to_key s = pl_id_to_key t"
    "pl_result_order s = pl_result_order t" "pl_dropped_order s = pl_dropped_order t" "pl_next_id s = pl_next_id t"
    "pl_worker s = Exited \<longleftrightarrow> pl_worker t = Exited" "todo s = todo t"
  shows "cache_inv s = cache_inv t"
proof -
  have "result_ok s = result_ok t" by (simp add: result_ok_def fun_eq_iff assms)
  then show ?thesis by (simp add: cache_inv_def maps_ok_def results_ok_def todo_ok_def orders_ok_def keys_ok_def assms)
qed

lemma cache_fresh:
  assumes "cache_inv s"
  shows "map_of (pl_results s) (pl_next_id s) = None" "map_of (pl_id_to_key s) (pl_next_id s) = None"
    "it \<in> set (todo s) \<Longrightarrow> qi_id it < pl_next_id s"
proof -
  have r: "k < pl_next_id s" if "map_of (pl_results s) k = Some r" for k r
    using that assms by (simp add: cache_inv_def results_ok_def result_ok_def)
  then show "map_of (pl_results s) (pl_next_id s) = None" by (cases "map_of (pl_results s) (pl_next_id s)") auto
  then show "map_of (pl_id_to_key s) (pl_next_id s) = None" using assms by (simp add: cache_inv_def keys_ok_def)
  show "qi_id it < pl_next_id s" if "it \<in> set (todo s)"
    using that assms r by (auto simp: cache_inv_def todo_ok_def)
qed

text \<open>A fresh entry: a pending one that joins the stacks to process, or a dropped one that joins its order.\<close>

lemma cache_add_pending:
  assumes "cache_inv s" "map_of (pl_unique_stacks s) (MakeKey raw) = None" "pl_worker s \<noteq> Exited"
    and t: "pl_results t = AList.update (pl_next_id s) (pending_of (pl_next_id s) raw) (pl_results s)"
      "pl_id_to_key t = AList.update (pl_next_id s) (MakeKey raw) (pl_id_to_key s)"
      "pl_unique_stacks t = AList.update (MakeKey raw) (pl_next_id s) (pl_unique_stacks s)"
      "pl_result_order t = pl_result_order s" "pl_dropped_order t = pl_dropped_order s" "pl_next_id t = pl_next_id s + 1"
      "pl_worker t = pl_worker s" "todo t = todo s @ [\<lparr> qi_id = pl_next_id s, qi_raw = raw \<rparr>]"
  shows "cache_inv t"
proof -
  note fresh = cache_fresh [OF assms(1)]
  have old: "result_ok t k r" if "result_ok s k r" for k r
    using that by (auto simp: result_ok_def t)
  have "result_ok t (pl_next_id s) (pending_of (pl_next_id s) raw)" by (simp add: result_ok_def t pending_of_def)
  then have "results_ok t" using old assms(1) by (auto simp: cache_inv_def results_ok_def t update_conv')
  moreover have "todo_ok t"
    using assms(1) fresh(3) by (fastforce simp: cache_inv_def todo_ok_def t update_conv' pending_of_def)
  moreover have "orders_ok t" using assms(1) by (auto simp: cache_inv_def orders_ok_def t intro: less_SucI)
  moreover have none: "sr_state r = Dropped" if "map_of (pl_results s) k = Some r" "MakeKey (sr_raw r) = MakeKey raw" for k r
  proof (rule ccontr)
    assume "sr_state r \<noteq> Dropped"
    then have "map_of (pl_unique_stacks s) (MakeKey raw) = Some k" using that assms(1) by (simp add: cache_inv_def keys_ok_def)
    then show False using assms(2) by simp
  qed
  have "keys_ok t"
    using assms(1, 2) fresh(1) by (auto simp: cache_inv_def keys_ok_def t update_conv' pending_of_def dest: none split: if_splits)
  moreover have "maps_ok t" using assms(1) by (simp add: cache_inv_def maps_ok_def t um.invar_put)
  ultimately show ?thesis by (simp add: cache_inv_def)
qed

lemma cache_add_dropped:
  assumes "cache_inv s" "map_of (pl_unique_stacks s) (MakeKey raw) = None"
    and t: "pl_results t = AList.update (pl_next_id s) ((pending_of (pl_next_id s) raw)\<lparr> sr_state := Dropped \<rparr>) (pl_results s)"
      "pl_id_to_key t = AList.update (pl_next_id s) (MakeKey raw) (pl_id_to_key s)"
      "map_of (pl_unique_stacks t) = map_of (pl_unique_stacks s)" "umap_ok (pl_unique_stacks t)"
      "pl_result_order t = pl_result_order s" "pl_dropped_order t = pl_dropped_order s @ [pl_next_id s]" "pl_next_id t = pl_next_id s + 1"
      "pl_worker t = pl_worker s" "todo t = todo s"
  shows "cache_inv t"
proof -
  note fresh = cache_fresh [OF assms(1)]
  have old: "result_ok t k r" if "result_ok s k r" for k r
    using that by (auto simp: result_ok_def t)
  have "result_ok t (pl_next_id s) ((pending_of (pl_next_id s) raw)\<lparr> sr_state := Dropped \<rparr>)" by (simp add: result_ok_def t pending_of_def)
  then have "results_ok t" using old assms(1) by (auto simp: cache_inv_def results_ok_def t update_conv')
  moreover have "todo_ok t"
    using assms(1) fresh(3) by (fastforce simp: cache_inv_def todo_ok_def t update_conv')
  moreover have "pl_next_id s \<notin> qi_id ` set (todo s)" using fresh(3) by (metis imageE less_irrefl)
  then have "orders_ok t" using assms(1) by (auto simp: cache_inv_def orders_ok_def t intro: less_SucI)
  moreover have "keys_ok t"
    using assms(1) fresh(1) by (auto simp: cache_inv_def keys_ok_def t update_conv' pending_of_def split: if_splits)
  moreover have "maps_ok t" using assms(1) t(4) by (simp add: cache_inv_def maps_ok_def t(1, 2) um.invar_put)
  ultimately show ?thesis by (simp add: cache_inv_def)
qed

definition bounds_inv :: "pipeline \<Rightarrow> bool" where
  "bounds_inv s \<longleftrightarrow> length (pl_result_order s) \<le> pl_capacity s \<and> length (pl_dropped_order s) \<le> pl_capacity s
     \<and> length (pl_results s) \<le> 3 * pl_capacity s + 1"

definition pipe_inv :: "pipeline \<Rightarrow> bool" where
  "pipe_inv s \<longleftrightarrow> flow_inv s \<and> cache_inv s \<and> bounds_inv s"

text \<open>While the worker runs, the bound on the results follows from the rest.\<close>

lemma results_bounded:
  assumes "flow_inv s" "cache_inv s" "pl_worker s \<noteq> Exited"
    and "length (pl_result_order s) \<le> pl_capacity s" "length (pl_dropped_order s) \<le> pl_capacity s"
  shows "bounds_inv s"
proof -
  let ?ids = "map qi_id (todo s) @ pl_result_order s @ pl_dropped_order s"
  have "k \<in> set ?ids" if "map_of (pl_results s) k = Some r" for k r
  proof -
    have "result_ok s k r" using that assms(2) by (simp add: cache_inv_def results_ok_def)
    then show ?thesis using assms(3) by (auto simp: result_ok_def split: if_splits)
  qed
  then have "fst ` set (pl_results s) \<subseteq> set ?ids" by (auto simp: dom_map_of_conv_image_fst [symmetric])
  then have "card (fst ` set (pl_results s)) \<le> length ?ids"
    by (meson List.finite_set card_length card_mono le_trans)
  moreover have "card (fst ` set (pl_results s)) = length (pl_results s)"
    using assms(2) distinct_card [of "map fst (pl_results s)"] by (simp add: cache_inv_def maps_ok_def umap_ok_def)
  moreover have "length (todo s) \<le> pl_capacity s + 1"
    using assms(1) by (simp add: todo_def held_def items_def flow_inv_def ring_inv_def split: worker_at.splits)
  ultimately show ?thesis using assms(4, 5) by (simp add: bounds_inv_def)
qed

lemma emplace_new: "map_of m k = None \<Longrightarrow> umap_emplace k v m = AList.update k v m"
  by (simp add: umap_emplace_def)

lemma inv_submit:
  assumes "pipe_inv s"
  shows "pipe_inv (snd (submit_section raw s))"
proof -
  let ?i = "pl_next_id s" and ?key = "MakeKey raw"
  note inv = assms [unfolded pipe_inv_def]
  define t where "t = snd (submit_section raw s)"
  have flow: "flow_inv t" using flow_submit inv by (simp add: t_def)
  have cap: "pl_result_capacity s = pl_capacity s" using inv by (simp add: flow_inv_def ring_inv_def)
  have fresh: "map_of (pl_results s) ?i = None" "map_of (pl_id_to_key s) ?i = None" using cache_fresh inv by blast+
  have run: "\<not> pl_stopping s \<Longrightarrow> pl_worker s \<noteq> Exited" using inv by (auto simp: flow_inv_def ring_inv_def)
  consider (stop) "pl_stopping s"
    | (dup) i where "\<not> pl_stopping s" "map_of (pl_unique_stacks s) ?key = Some i"
    | (drop) "\<not> pl_stopping s" "map_of (pl_unique_stacks s) ?key = None" "pl_queue_size s = pl_capacity s"
    | (acc) "\<not> pl_stopping s" "map_of (pl_unique_stacks s) ?key = None" "pl_queue_size s \<noteq> pl_capacity s"
    by (cases "map_of (pl_unique_stacks s) ?key") auto
  then have "pipe_inv t"
  proof cases
    case stop
    then show ?thesis using assms by (simp add: t_def submit_stopping)
  next
    case dup
    have "cache_inv t = cache_inv s"
      by (rule cache_cong) (use dup in \<open>simp_all add: t_def submit_duplicate todo_def held_def items_def\<close>)
    moreover have "bounds_inv t = bounds_inv s" using dup by (simp add: t_def submit_duplicate bounds_inv_def)
    ultimately show ?thesis using inv flow by (simp add: pipe_inv_def)
  next
    case drop
    define u where "u = s\<lparr> pl_next_id := ?i + 1, pl_id_to_key := AList.update ?i ?key (pl_id_to_key s),
       pl_results := AList.update ?i ((pending_of ?i raw)\<lparr> sr_state := Dropped \<rparr>) (AList.update ?i (pending_of ?i raw) (pl_results s)),
       pl_unique_stacks := AList.delete ?key (AList.update ?key ?i (pl_unique_stacks s)),
       pl_dropped_order := pl_dropped_order s @ [?i] \<rparr>"
    have t: "t = (EvictDroppedCacheLocked u)\<lparr> pl_stats := (pl_stats s)\<lparr> as_dropped := as_dropped (pl_stats s) + 1 \<rparr> \<rparr>"
      using drop fresh by (simp add: t_def u_def submit_dropped emplace_new)
    have "cache_inv u"
    proof (rule cache_add_dropped)
      show "map_of (pl_unique_stacks u) = map_of (pl_unique_stacks s)" using drop by (auto simp: u_def update_conv' delete_conv')
      show "umap_ok (pl_unique_stacks u)" using inv by (simp add: u_def cache_inv_def maps_ok_def um.invar_put um.invar_erase)
      show "pl_results u = AList.update ?i ((pending_of ?i raw)\<lparr> sr_state := Dropped \<rparr>) (pl_results s)" by (simp add: u_def)
    qed (use inv drop in \<open>simp_all add: u_def todo_def held_def items_def\<close>)
    then have ev: "cache_inv (EvictDroppedCacheLocked u)" "length (pl_dropped_order (EvictDroppedCacheLocked u)) \<le> pl_capacity s"
        "pl_result_order (EvictDroppedCacheLocked u) = pl_result_order s"
      using cache_evict_dropped [of u] cap by (simp_all add: u_def)
    have "cache_inv t = cache_inv (EvictDroppedCacheLocked u)"
      by (rule cache_cong) (simp_all add: t todo_def held_def items_def)
    then have "cache_inv t" using ev by simp
    moreover have "bounds_inv t"
      by (rule results_bounded) (use flow calculation ev inv run drop in \<open>simp_all add: t u_def bounds_inv_def\<close>)
    ultimately show ?thesis using flow by (simp add: pipe_inv_def)
  next
    case acc
    have "items t = items s @ [\<lparr> qi_id = ?i, qi_raw = raw \<rparr>]"
      using ring_push [of "pl_queue_size s" "pl_capacity s" "pl_queue s"] inv acc
      by (simp add: t_def submit_accepted items_def flow_inv_def ring_inv_def)
    then have "todo t = todo s @ [\<lparr> qi_id = ?i, qi_raw = raw \<rparr>]" using acc by (simp add: t_def submit_accepted todo_def held_def)
    then have "cache_inv t"
      by (intro cache_add_pending [of s raw t]) (use inv acc run fresh in \<open>simp_all add: t_def submit_accepted emplace_new\<close>)
    moreover have "bounds_inv t"
      by (rule results_bounded) (use flow calculation inv run acc in \<open>simp_all add: t_def submit_accepted bounds_inv_def\<close>)
    ultimately show ?thesis using flow by (simp add: pipe_inv_def)
  qed
  then show ?thesis by (simp only: t_def)
qed

subsection \<open>The other steps\<close>

lemma inv_release:
  assumes "pipe_inv s"
  shows "pipe_inv (snd (Release i s))"
proof (cases "i \<noteq> 0 \<and> (\<exists>r. map_of (pl_results s) i = Some r \<and> sr_state r \<noteq> Pending)")
  case False
  then have "snd (Release i s) = s" by (auto simp: Release_def split: option.splits)
  then show ?thesis using assms by simp
next
  case True
  let ?e = "EraseResultLocked i s"
  let ?t = "?e\<lparr> pl_result_order := removeAll i (pl_result_order s), pl_dropped_order := removeAll i (pl_dropped_order s) \<rparr>"
  note inv = assms [unfolded pipe_inv_def]
  have t: "snd (Release i s) = ?t" using True by (auto simp: Release_def Let_def)
  have "i \<notin> qi_id ` set (todo s)"
    using True inv by (auto simp: cache_inv_def todo_ok_def)
  then have "cache_inv ?e" using cache_erase inv by blast
  then have "cache_inv ?t"
    by (rule cache_orders) (auto simp: delete_conv')
  moreover have "bounds_inv ?t"
    using inv by (auto simp: bounds_inv_def intro: le_trans [OF length_delete_le] le_trans [OF length_removeAll_le])
  moreover have "flow_inv ?t" using flow_release [of s i] inv t by simp
  ultimately show ?thesis unfolding t by (simp add: pipe_inv_def)
qed

text \<open>A step that leaves the caches, the stacks to process and the run state of the worker alone.\<close>

lemma inv_same_caches:
  assumes "pipe_inv s" "flow_inv t"
    "pl_results t = pl_results s" "pl_unique_stacks t = pl_unique_stacks s" "pl_id_to_key t = pl_id_to_key s"
    "pl_result_order t = pl_result_order s" "pl_dropped_order t = pl_dropped_order s" "pl_next_id t = pl_next_id s"
    "pl_worker t = Exited \<longleftrightarrow> pl_worker s = Exited" "todo t = todo s" "pl_capacity t = pl_capacity s"
  shows "pipe_inv t"
proof -
  have "cache_inv t = cache_inv s" by (rule cache_cong) (use assms in simp_all)
  then show ?thesis using assms by (simp add: pipe_inv_def bounds_inv_def)
qed

lemma inv_callers:
  assumes "pipe_inv s"
  shows "pipe_inv (snd (Submit True raw s))" "pipe_inv (flush_refresh objects s)" "pipe_inv (BeginFinalization s)"
    "pipe_inv (shutdown_request s)" "shutdown_join s = Some s' \<Longrightarrow> pipe_inv s'"
proof -
  have flow: "flow_inv s" using assms by (simp add: pipe_inv_def)
  note same = inv_same_caches [OF assms]
  show "pipe_inv (snd (Submit True raw s))"
    by (rule same) (simp_all add: flow_callers [OF flow], simp_all add: Submit_def todo_def held_def items_def)
  show "pipe_inv (flush_refresh objects s)"
    by (rule same) (simp_all add: flow_callers [OF flow], simp_all add: flush_refresh_def todo_def held_def items_def)
  show "pipe_inv (BeginFinalization s)"
    by (rule same) (simp_all add: flow_callers [OF flow], simp_all add: BeginFinalization_def todo_def held_def items_def)
  show "pipe_inv (shutdown_request s)"
    by (rule same) (simp_all add: flow_callers [OF flow],
      simp_all add: shutdown_request_def BeginFinalization_def Let_def todo_def held_def items_def)
  assume join: "shutdown_join s = Some s'"
  then have s': "s' = s\<lparr> pl_joined := True \<rparr>" by (simp add: shutdown_join_def split: if_splits)
  show "pipe_inv s'"
    by (rule same) (use flow_callers(5) [OF flow join] in \<open>simp_all add: s' todo_def held_def items_def\<close>)
qed

lemma failed_of_sel [simp]: "sr_id (failed_of it) = qi_id it" "sr_state (failed_of it) = Failed" "sr_raw (failed_of it) = qi_raw it"
  by (simp_all add: failed_of_def)

lemma length_replace: "length (replace_result r m) = length m"
  by (simp add: replace_result_def length_update_same split: option.splits)

lemma replace_all:
  assumes "umap_ok m" "\<And>k r. map_of m k = Some r \<Longrightarrow> sr_id r = k"
    and "\<And>it. it \<in> set its \<Longrightarrow> map_option sr_raw (map_of m (qi_id it)) = Some (qi_raw it)"
  defines "m' \<equiv> fold (replace_result \<circ> failed_of) its m"
  shows "umap_ok m' \<and> length m' = length m \<and> (\<forall>k. map_option sr_raw (map_of m' k) = map_option sr_raw (map_of m k)
    \<and> (\<forall>r. map_of m' k = Some r \<longrightarrow> sr_id r = k \<and> (if k \<in> qi_id ` set its then sr_state r = Failed else map_of m k = Some r)))"
  unfolding m'_def using assms(1-3)
proof (induction its arbitrary: m)
  case (Cons it its)
  let ?m = "replace_result (failed_of it) m"
  have it: "map_option sr_raw (map_of m (qi_id it)) = Some (qi_raw it)" using Cons.prems(3) by simp
  have m: "map_of ?m k = (if k = qi_id it then Some (failed_of it) else map_of m k)" for k
    using it by (auto simp: replace_result_def update_conv' split: option.splits)
  have raw: "map_option sr_raw (map_of ?m k) = map_option sr_raw (map_of m k)" for k
    using it by (auto simp: m)
  have "umap_ok ?m" using Cons.prems(1) by (simp add: replace_result_def um.invar_put split: option.splits)
  moreover have "sr_id r = k" if "map_of ?m k = Some r" for k r
    using that Cons.prems(2) by (auto simp: m split: if_splits)
  moreover have "map_option sr_raw (map_of ?m (qi_id x)) = Some (qi_raw x)" if "x \<in> set its" for x
    using that raw Cons.prems(3) by simp
  moreover define M where "M = fold (replace_result \<circ> failed_of) its ?m"
  ultimately have IH: "umap_ok M" "length M = length ?m" "map_option sr_raw (map_of M k) = map_option sr_raw (map_of ?m k)"
      "map_of M k = Some r \<Longrightarrow> sr_id r = k"
      "map_of M k = Some r \<Longrightarrow> (if k \<in> qi_id ` set its then sr_state r = Failed else map_of ?m k = Some r)" for k r
    using Cons.IH [of ?m] by blast+
  have M: "fold (replace_result \<circ> failed_of) (it # its) m = M" by (simp add: M_def)
  have "if k \<in> qi_id ` set (it # its) then sr_state r = Failed else map_of m k = Some r" if "map_of M k = Some r" for k r
    using IH(5) [OF that] by (cases "k \<in> qi_id ` set its"; cases "k = qi_id it") (auto simp: m)
  then show ?case unfolding M using IH(1, 2, 4) by (simp only: IH(3) raw length_replace) blast
qed auto

text \<open>Failing every stack still to process: no entry stays pending and every entry keeps its stack.\<close>

lemma fail_todo:
  assumes "cache_inv s"
  defines "m \<equiv> pl_results s" and "m' \<equiv> fold (replace_result \<circ> failed_of) (todo s) (pl_results s)"
  shows "umap_ok m'" "length m' = length m" "map_option sr_raw (map_of m' k) = map_option sr_raw (map_of m k)"
    "map_of m' k = Some r \<Longrightarrow> sr_id r = k \<and> k < pl_next_id s \<and> sr_state r \<noteq> Pending"
    "(\<exists>r. map_of m' k = Some r \<and> MakeKey (sr_raw r) = key \<and> sr_state r \<noteq> Dropped) \<longleftrightarrow>
     (\<exists>r. map_of m k = Some r \<and> MakeKey (sr_raw r) = key \<and> sr_state r \<noteq> Dropped)"
proof -
  note inv = assms(1) [unfolded cache_inv_def]
  have old: "result_ok s k r" if "map_of m k = Some r" for k r using that inv by (simp add: results_ok_def m_def)
  have pend: "\<exists>r. map_of m (qi_id x) = Some r \<and> sr_state r = Pending \<and> sr_raw r = qi_raw x" if "x \<in> set (todo s)" for x
    using that inv by (simp add: todo_ok_def m_def)
  have p: "umap_ok m" "\<And>k r. map_of m k = Some r \<Longrightarrow> sr_id r = k"
    using inv old by (simp_all add: maps_ok_def result_ok_def m_def)
  have "map_option sr_raw (map_of m (qi_id x)) = Some (qi_raw x)" if "x \<in> set (todo s)" for x using pend [OF that] by auto
  then have m': "umap_ok m'" "length m' = length m" "map_option sr_raw (map_of m' k) = map_option sr_raw (map_of m k)"
      "map_of m' k = Some r \<Longrightarrow> sr_id r = k"
      "map_of m' k = Some r \<Longrightarrow> (if k \<in> qi_id ` set (todo s) then sr_state r = Failed else map_of m k = Some r)" for k r
    using replace_all [OF p, of "todo s"] unfolding m'_def m_def by blast+
  show "umap_ok m'" "length m' = length m" "map_option sr_raw (map_of m' k) = map_option sr_raw (map_of m k)" by (fact m')+
  have before: "\<exists>q. map_of m k = Some q \<and> sr_raw q = sr_raw r \<and> (sr_state q = Dropped \<longleftrightarrow> sr_state r = Dropped)
      \<and> sr_state r \<noteq> Pending \<and> k < pl_next_id s" if k: "map_of m' k = Some r" for k r
  proof -
    obtain q where q: "map_of m k = Some q" "sr_raw q = sr_raw r" using m'(3) [of k] k by (cases "map_of m k") auto
    show ?thesis
    proof (cases "k \<in> qi_id ` set (todo s)")
      case True
      then obtain x where x: "x \<in> set (todo s)" "k = qi_id x" by blast
      have "sr_state q = Pending" using pend [OF x(1)] q(1) x(2) by auto
      moreover have "sr_state r = Failed" using m'(5) [OF k] True by simp
      ultimately show ?thesis using q old [OF q(1)] by (simp add: result_ok_def)
    next
      case False
      then have "q = r" using m'(5) [OF k] q(1) by simp
      moreover have "sr_state q \<noteq> Pending" "k < pl_next_id s" using old [OF q(1)] False by (auto simp: result_ok_def)
      ultimately show ?thesis using q by simp
    qed
  qed
  then show "map_of m' k = Some r \<Longrightarrow> sr_id r = k \<and> k < pl_next_id s \<and> sr_state r \<noteq> Pending" using m'(4) by blast
  show "(\<exists>r. map_of m' k = Some r \<and> MakeKey (sr_raw r) = key \<and> sr_state r \<noteq> Dropped) \<longleftrightarrow>
     (\<exists>r. map_of m k = Some r \<and> MakeKey (sr_raw r) = key \<and> sr_state r \<noteq> Dropped)"
  proof (cases "map_of m' k")
    case None
    then have "map_of m k = None" using m'(3) [of k] by simp
    then show ?thesis using None by simp
  next
    case (Some r)
    then show ?thesis using before [OF Some] by auto
  qed
qed

lemma inv_marker_failed:
  assumes "pipe_inv s" "pl_worker s = Taken it"
  shows "pipe_inv (marker_failed it s)"
proof -
  let ?t = "marker_failed it s"
  note inv = assms(1) [unfolded pipe_inv_def]
  have flow: "flow_inv s" using inv by simp
  note f = flow_marker_failed [OF flow assms(2)]
  obtain h where t: "?t = s\<lparr> pl_results := fold (replace_result \<circ> failed_of) (it # items s) (pl_results s), pl_queue_head := h, pl_queue_size := 0,
       pl_active := pl_active s - 1, pl_stopping := True,
       pl_stats := (pl_stats s)\<lparr> as_processed := as_processed (pl_stats s) + (pl_queue_size s + 1),
         as_failed := as_failed (pl_stats s) + (pl_queue_size s + 1),
         as_worker_start_failures := as_worker_start_failures (pl_stats s) + 1 \<rparr>,
       pl_callbacks := pl_callbacks s @ (if pl_callback s then map failed_of (it # items s) else []),
       pl_worker := Exited \<rparr>"
    using marker_failed_run [of s it] flow by (auto simp: flow_inv_def)
  define m' where "m' = fold (replace_result \<circ> failed_of) (todo s) (pl_results s)"
  have res: "pl_results ?t = m'" by (simp add: t m'_def f(3))
  have g: "pl_id_to_key ?t = pl_id_to_key s" "pl_unique_stacks ?t = pl_unique_stacks s" "pl_next_id ?t = pl_next_id s"
      "pl_result_order ?t = pl_result_order s" "pl_dropped_order ?t = pl_dropped_order s" "pl_worker ?t = Exited" "pl_capacity ?t = pl_capacity s"
    by (simp_all add: t)
  have "cache_inv s" using inv by simp
  note ft = fail_todo [OF this, folded m'_def]
  have "map_option (MakeKey \<circ> sr_raw) (map_of m' k) = map_option (MakeKey \<circ> sr_raw) (map_of (pl_results s) k)" for k
    using ft(3) [of k] by (metis option.map_comp)
  then have "keys_ok ?t" using inv by (simp add: cache_inv_def keys_ok_def res g ft(5))
  moreover have "results_ok ?t" using ft(4) by (auto simp: results_ok_def result_ok_def res g)
  moreover have "todo_ok ?t" "orders_ok ?t" using inv by (simp_all add: cache_inv_def todo_ok_def orders_ok_def f(2) g)
  moreover have "maps_ok ?t" "bounds_inv ?t" using inv ft(1, 2) by (simp_all add: cache_inv_def maps_ok_def bounds_inv_def res g)
  ultimately show ?thesis using f(1) by (simp add: pipe_inv_def cache_inv_def)
qed

text \<open>Storing a result: the stack leaves the ones to process and its entry is done.\<close>

lemma inv_publish:
  assumes "pipe_inv s" "pl_worker s = Completed r" "sr_state r = Resolved \<or> sr_state r = Failed"
  shows "pipe_inv (publish_result r s)"
proof -
  let ?t = "publish_result r s" and ?i = "sr_id r"
  note inv = assms(1) [unfolded pipe_inv_def]
  have flow: "flow_inv s" and cache: "cache_inv s" using inv by simp_all
  note f = flow_publish [OF flow assms(2)]
  have cap: "pl_result_capacity s = pl_capacity s" using flow by (simp add: flow_inv_def ring_inv_def)
  obtain q where q: "map_of (pl_results s) ?i = Some q" "sr_state q = Pending" "sr_raw q = sr_raw r"
    using cache f(2) by (auto simp: cache_inv_def todo_ok_def)
  have "distinct (map qi_id (todo s))"
    using flow by (simp add: flow_inv_def order_inv_def sorted_wrt_append strict_sorted_iff)
  then have later: "?i \<notin> qi_id ` set (items s)" using f(2) by simp
  define u where "u = s\<lparr> pl_results := AList.update ?i r (pl_results s), pl_result_order := pl_result_order s @ [?i], pl_worker := Calling r \<rparr>"
  have todo_u: "todo u = items s" by (simp add: u_def todo_def held_def items_def)
  have t: "?t = (EvictResultCacheLocked u)\<lparr> pl_stats := (pl_stats s)\<lparr> as_processed := as_processed (pl_stats s) + 1,
      as_failed := as_failed (pl_stats s) + (if sr_state r = Failed then 1 else 0) \<rparr> \<rparr>"
    using q(1) by (simp add: publish_result_def Let_def u_def)
  have old: "result_ok u k x" if "result_ok s k x" "k \<noteq> ?i" for k x
    using that assms(2) f(2) by (auto simp: result_ok_def todo_u) (auto simp: u_def)
  have id: "?i < pl_next_id s" using q(1) cache by (simp add: cache_inv_def results_ok_def result_ok_def)
  then have "result_ok u ?i r" using assms(3) by (auto simp: result_ok_def u_def)
  then have "results_ok u" using old cache by (auto simp: cache_inv_def results_ok_def update_conv' u_def)
  moreover have ne: "qi_id x \<noteq> ?i" if "x \<in> set (items s)" for x using later that by (metis imageI)
  then have "todo_ok u" using cache f(2) by (simp add: cache_inv_def todo_ok_def todo_u) (simp add: u_def update_conv')
  moreover have "orders_ok u" using cache f(2) id
    by (auto simp: cache_inv_def orders_ok_def todo_u dest: ne) (auto simp: u_def dest: ne)
  moreover have "keys_ok u" using cache q assms(3) by (auto simp: cache_inv_def keys_ok_def u_def update_conv')
  moreover have "maps_ok u" using cache by (simp add: cache_inv_def maps_ok_def u_def um.invar_put)
  ultimately have ev: "cache_inv (EvictResultCacheLocked u)" "length (pl_result_order (EvictResultCacheLocked u)) \<le> pl_capacity s"
      "pl_dropped_order (EvictResultCacheLocked u) = pl_dropped_order s"
    using cache_evict_result [of u] cap by (simp_all add: cache_inv_def u_def)
  have "cache_inv ?t = cache_inv (EvictResultCacheLocked u)"
    by (rule cache_cong) (simp_all add: t todo_def held_def items_def)
  then have "cache_inv ?t" using ev by simp
  moreover have "bounds_inv ?t"
    by (rule results_bounded) (use f(1) calculation ev inv in \<open>simp_all add: t u_def bounds_inv_def\<close>)
  ultimately show ?thesis using f(1) by (simp add: pipe_inv_def)
qed

lemma resolve_item_state: "sr_state (resolve_item b dladdr r it) = Resolved \<or> sr_state (resolve_item b dladdr r it) = Failed"
  by (simp add: resolve_item_def Let_def split: prod.splits)

text \<open>A result the worker holds has its final state.\<close>

definition completed_ok :: "pipeline \<Rightarrow> bool" where
  "completed_ok s \<longleftrightarrow> (\<forall>r. pl_worker s = Completed r \<longrightarrow> sr_state r = Resolved \<or> sr_state r = Failed)"

lemma inv_work:
  assumes "pipe_inv s" "completed_ok s" "worker_step marker_ok b dladdr s = Some s'"
  shows "pipe_inv s' \<and> completed_ok s'"
proof -
  have flow: "flow_inv s" using assms(1) by (simp add: pipe_inv_def)
  note flow' = flow_work [OF flow assms(3)]
  show ?thesis
  proof (cases "pl_worker s")
    case Waiting
    show ?thesis
    proof (cases "pl_queue_size s = 0")
      case True
      then have s': "s' = s\<lparr> pl_worker := Exited, pl_marker_set := False \<rparr>" and "todo s = []"
        using assms(3) Waiting by (auto simp: worker_step_def todo_def held_def items_def split: if_splits)
      then have "todo s' = todo s" using True by (simp add: s' todo_def held_def items_def)
      have "result_ok s' k r" if "result_ok s k r" for k r
        using that \<open>todo s = []\<close> by (auto simp: result_ok_def s')
      then have "cache_inv s'"
        using assms(1) \<open>todo s' = todo s\<close> by (auto simp: pipe_inv_def cache_inv_def maps_ok_def results_ok_def todo_ok_def orders_ok_def keys_ok_def s')
      moreover have "bounds_inv s'" using assms(1) by (simp add: pipe_inv_def bounds_inv_def s')
      ultimately show ?thesis using flow' by (simp add: pipe_inv_def completed_ok_def s')
    next
      case False
      then have s': "s' = take_item s" using assms(3) Waiting by (simp add: worker_step_def)
      have "pipe_inv s'"
        by (rule inv_same_caches [OF assms(1) flow'])
          (use Waiting False flow_take(2) [OF flow Waiting] in \<open>simp_all add: s'\<close>, simp_all add: take_item_def)
      then show ?thesis by (simp add: completed_ok_def s' take_item_def)
    qed
  next
    case (Taken it)
    show ?thesis
    proof (cases "\<not> pl_marker_set s \<and> \<not> marker_ok")
      case True
      then have s': "s' = marker_failed it s" using assms(3) Taken by (simp add: worker_step_def)
      moreover have "pl_worker (marker_failed it s) = Exited" by (simp add: marker_failed_def Let_def split: prod.splits)
      ultimately show ?thesis using inv_marker_failed [OF assms(1) Taken] by (simp add: completed_ok_def)
    next
      case False
      then have s': "s' = s\<lparr> pl_marker_set := True, pl_worker := Completed (resolve_item b dladdr (pl_registry s) it) \<rparr>"
        using assms(3) Taken by (simp add: worker_step_def split: if_splits)
      have "pipe_inv s'"
        by (rule inv_same_caches [OF assms(1) flow']) (use Taken in \<open>simp_all add: s' todo_def held_def items_def\<close>)
      then show ?thesis by (simp add: completed_ok_def s' resolve_item_state)
    qed
  next
    case (Completed r)
    then have s': "s' = publish_result r s" using assms(3) by (simp add: worker_step_def)
    moreover have "pl_worker s' = Calling r" by (simp add: s' publish_result_def Let_def)
    ultimately show ?thesis using inv_publish [OF assms(1) Completed] assms(2) Completed by (simp add: completed_ok_def)
  next
    case (Calling r)
    then have s': "s' = s\<lparr> pl_callbacks := pl_callbacks s @ (if pl_callback s then [r] else []), pl_worker := Called \<rparr>"
      using assms(3) by (simp add: worker_step_def)
    have "pipe_inv s'"
      by (rule inv_same_caches [OF assms(1) flow']) (use Calling in \<open>simp_all add: s' todo_def held_def items_def\<close>)
    then show ?thesis by (simp add: completed_ok_def s')
  next
    case Called
    then have s': "s' = s\<lparr> pl_active := pl_active s - 1, pl_worker := Waiting \<rparr>" using assms(3) by (simp add: worker_step_def)
    have "pipe_inv s'"
      by (rule inv_same_caches [OF assms(1) flow']) (use Called in \<open>simp_all add: s' todo_def held_def items_def\<close>)
    then show ?thesis by (simp add: completed_ok_def s')
  qed (use assms(3) in \<open>simp add: worker_step_def\<close>)
qed

lemma pipe_reach_inv: "pipe_reach b dladdr s \<Longrightarrow> pipe_inv s \<and> completed_ok s"
proof (induction rule: pipe_reach.induct)
  case (new key_ready objects capacity callback)
  let ?s = "AsyncStackPipeline_new key_ready objects capacity callback"
  have "todo ?s = []" by (simp add: AsyncStackPipeline_new_def todo_def held_def items_def)
  then have "cache_inv ?s"
    by (simp add: cache_inv_def maps_ok_def results_ok_def todo_ok_def orders_ok_def keys_ok_def) (simp add: AsyncStackPipeline_new_def)
  then show ?case using flow_new by (simp add: pipe_inv_def bounds_inv_def completed_ok_def AsyncStackPipeline_new_def)
next
  case (submit s raw)
  have "pl_worker (snd (submit_section raw s)) = pl_worker s" by (simp add: submit_section_def Let_def split: option.splits)
  then show ?case using submit inv_submit by (simp add: completed_ok_def)
next
  case (release s i)
  have "pl_worker (snd (Release i s)) = pl_worker s" using core_fields(12) [OF core_release] .
  then show ?case using release inv_release by (simp add: completed_ok_def)
next
  case (join s s')
  then have "pl_worker s' = Exited" by (auto simp: shutdown_join_def split: if_splits)
  then show ?case using join inv_callers(5) [of s s'] by (simp add: completed_ok_def)
next
  case (work s marker_ok s')
  then show ?case using inv_work by blast
next
  case (recurse s raw)
  then show ?case using inv_callers(1) [of s raw] by (simp add: completed_ok_def Submit_def)
next
  case (refresh s objects)
  then show ?case using inv_callers(2) [of s objects] by (simp add: completed_ok_def flush_refresh_def)
next
  case (begin_final s)
  then show ?case using inv_callers(3) [of s] by (simp add: completed_ok_def BeginFinalization_def)
next
  case (shutdown s)
  then show ?case using inv_callers(4) [of s] by (simp add: completed_ok_def shutdown_request_def BeginFinalization_def Let_def)
qed

end
