(* ===== verification/AsyncPromises.thy ===== *)
theory AsyncPromises
  imports AsyncCaches
begin

text \<open>
  What the asynchronous stack pipeline promises its callers: every accepted stack is
  processed and called back once and in order, the caches stay bounded, equal stacks
  share one identifier, a shutdown drains the queue, and a resolved stack names
  modules of the generation it was captured under.
\<close>

section \<open>What the pipeline promises\<close>

lemma idle_todo: "flow_inv s \<Longrightarrow> flush_idle s \<Longrightarrow> todo s = [] \<and> calling s = []"
  by (auto simp: flow_inv_def ring_inv_def flush_idle_def todo_def held_def items_def calling_def split: worker_at.splits if_splits)


text \<open>
  C27: equal stacks share one identifier. While the pipeline accepts work, a
  submission is answered as a duplicate exactly when a result of the same stack is
  retained that was not dropped, and the answer is its identifier; otherwise the
  identifier is fresh.
\<close>

theorem equal_stacks_share_id:
  assumes "pipe_reach b dladdr s" "\<not> pl_stopping s" "submit_section raw s = (sb, s')"
  shows "(sb_duplicate sb \<longleftrightarrow> (\<exists>i r. GetResult i s = Some r \<and> MakeKey (sr_raw r) = MakeKey raw \<and> sr_state r \<noteq> Dropped))
    \<and> (case GetResult (sb_id sb) s of
         None \<Rightarrow> \<not> sb_duplicate sb
       | Some r \<Rightarrow> sb_duplicate sb \<and> MakeKey (sr_raw r) = MakeKey raw \<and> sr_state r \<noteq> Dropped)"
proof -
  have cache: "cache_inv s" using pipe_reach_inv [OF assms(1)] by (simp add: pipe_inv_def)
  then have keys: "map_of (pl_unique_stacks s) key = Some i \<longleftrightarrow>
      (\<exists>r. GetResult i s = Some r \<and> MakeKey (sr_raw r) = key \<and> sr_state r \<noteq> Dropped)" for key i
    by (simp add: cache_inv_def keys_ok_def GetResult_def)
  have sb: "sb = fst (submit_section raw s)" by (simp add: assms(3))
  have fresh: "GetResult (pl_next_id s) s = None" using cache_fresh(1) [OF cache] by (simp add: GetResult_def)
  show ?thesis
  proof (cases "map_of (pl_unique_stacks s) (MakeKey raw)")
    case (Some i)
    have "sb_id sb = i" "sb_duplicate sb" unfolding sb using submit_duplicate [OF assms(2) Some] by simp_all
    moreover obtain r where "GetResult i s = Some r" "MakeKey (sr_raw r) = MakeKey raw" "sr_state r \<noteq> Dropped"
      using keys [THEN iffD1, OF Some] by (elim exE conjE)
    ultimately show ?thesis by (simp only: option.case simp_thms) blast
  next
    case None
    have "sb_id sb = pl_next_id s \<and> \<not> sb_duplicate sb"
    proof (cases "pl_queue_size s = pl_capacity s")
      case True
      then show ?thesis unfolding sb using submit_dropped [OF assms(2) None True] by (simp add: SubmitResult_init_def)
    next
      case False
      then show ?thesis unfolding sb using submit_accepted [OF assms(2) None False] by (simp add: SubmitResult_init_def)
    qed
    moreover have "\<not> (\<exists>i r. GetResult i s = Some r \<and> MakeKey (sr_raw r) = MakeKey raw \<and> sr_state r \<noteq> Dropped)"
    proof (intro notI, elim exE)
      fix i r
      assume "GetResult i s = Some r \<and> MakeKey (sr_raw r) = MakeKey raw \<and> sr_state r \<noteq> Dropped"
      then have "map_of (pl_unique_stacks s) (MakeKey raw) = Some i" unfolding keys by (rule exI)
      then show False using None by simp
    qed
    ultimately show ?thesis using fresh by simp
  qed
qed

subsection \<open>Shutdown\<close>

fun worker_steps :: "nat \<Rightarrow> bool \<Rightarrow> build \<Rightarrow> (u64 \<Rightarrow> dl_symbol option) \<Rightarrow> pipeline \<Rightarrow> pipeline" where
  "worker_steps 0 marker_ok b dladdr s = s"
| "worker_steps (Suc n) marker_ok b dladdr s =
     (case worker_step marker_ok b dladdr s of None \<Rightarrow> s | Some s' \<Rightarrow> worker_steps n marker_ok b dladdr s')"

definition work_left :: "pipeline \<Rightarrow> nat" where
  "work_left s = 5 * pl_queue_size s +
     (case pl_worker s of Waiting \<Rightarrow> 1 | Taken _ \<Rightarrow> 5 | Completed _ \<Rightarrow> 4 | Calling _ \<Rightarrow> 3 | Called \<Rightarrow> 2 | Exited \<Rightarrow> 0)"

lemma publish_fields [simp]:
  "pl_stopping (publish_result r s) = pl_stopping s" "pl_queue_size (publish_result r s) = pl_queue_size s"
  "pl_worker (publish_result r s) = Calling r"
  by (simp_all add: publish_result_def Let_def)

lemma marker_failed_stops:
  "ring_inv s \<Longrightarrow> pl_stopping (marker_failed it s) \<and> work_left (marker_failed it s) = 0"
  using marker_failed_run [of s it] by (auto simp: work_left_def)

text \<open>Every step of a stopping worker leaves it less to do.\<close>

lemma stopping_progress:
  assumes "ring_inv s" "pl_stopping s" "pl_worker s \<noteq> Exited"
  shows "\<exists>s'. worker_step marker_ok b dladdr s = Some s' \<and> pl_stopping s' \<and> work_left s' < work_left s"
proof (cases "pl_worker s")
  case (Taken it)
  then show ?thesis using assms marker_failed_stops [OF assms(1), of it] by (auto simp: worker_step_def work_left_def)
qed (use assms in \<open>auto simp: worker_step_def work_left_def take_item_def\<close>)

lemma worker_steps_drain:
  assumes "pipe_reach b dladdr s" "pl_stopping s" "work_left s \<le> n"
  shows "pipe_reach b dladdr (worker_steps n marker_ok b dladdr s) \<and> pl_worker (worker_steps n marker_ok b dladdr s) = Exited"
  using assms
proof (induction n arbitrary: s)
  case 0
  then show ?case by (auto simp: work_left_def split: worker_at.splits)
next
  case (Suc n)
  have ring: "ring_inv s" using pipe_flow [OF Suc.prems(1)] by (simp add: flow_inv_def)
  show ?case
  proof (cases "pl_worker s = Exited")
    case True
    then show ?thesis using Suc.prems by (simp add: worker_step_def)
  next
    case False
    then obtain s' where s': "worker_step marker_ok b dladdr s = Some s'" "pl_stopping s'" "work_left s' < work_left s"
      using stopping_progress [OF ring Suc.prems(2)] by blast
    then have "pipe_reach b dladdr s'" using pipe_reach.work [OF Suc.prems(1)] by blast
    then show ?thesis using Suc.IH [of s'] s' Suc.prems(3) by simp
  qed
qed

text \<open>
  C25: a shutdown returns. Once a stop is requested, five steps of the worker for
  every stack the queue can hold, and six more, bring it out of its loop, whether or
  not its marker can be set: every accepted stack has then been processed, the queue
  is empty and the join does not block.
\<close>

theorem shutdown_drains:
  assumes "pipe_reach b dladdr s" "pl_stopping s" "t = worker_steps (5 * pl_capacity s + 6) marker_ok b dladdr s"
  shows "flush_idle t \<and> as_accepted (pl_stats t) = as_processed (pl_stats t) \<and> (\<exists>t'. shutdown_join t = Some t')"
proof -
  have "ring_inv s" using pipe_flow [OF assms(1)] by (simp add: flow_inv_def)
  then have "work_left s \<le> 5 * pl_capacity s + 6"
    by (simp add: work_left_def ring_inv_def split: worker_at.splits)
  from worker_steps_drain [OF assms(1, 2) this, of marker_ok, folded assms(3)]
  have t: "pipe_reach b dladdr t" "pl_worker t = Exited" by simp_all
  have flow: "flow_inv t" by (rule pipe_flow [OF t(1)])
  then have idle: "flush_idle t" using t(2) by (simp add: flush_idle_def flow_inv_def ring_inv_def)
  have "as_accepted (pl_stats t) = as_processed (pl_stats t)"
    using flow idle_todo [OF flow idle] by (simp add: flow_inv_def order_inv_def)
  then show ?thesis using idle t(2) by (simp add: shutdown_join_def)
qed

subsection \<open>Generations of resolved frames\<close>

lemma stamped_evict: "stamped es \<Longrightarrow> stamped (evict_oldest limit es)"
proof (induction limit es rule: evict_oldest.induct)
  case (1 limit es)
  then show ?case by (subst evict_oldest.simps) (simp add: stamped_delete)
qed

lemma stamped_publish: "stamped (mr_snapshots r) \<Longrightarrow> stamped (mr_snapshots (snd (Publish ms r)))"
  by (simp add: Publish_def Let_def stamped_evict stamped_update)

lemma stamped_refresh: "stamped (mr_snapshots r) \<Longrightarrow> stamped (mr_snapshots (snd (Refresh objects r)))"
  by (simp add: Refresh_def stamped_publish)

definition frames_ok :: "build \<Rightarrow> StackResult \<Rightarrow> bool" where
  "frames_ok b r \<longleftrightarrow> (sr_state r = Resolved \<longrightarrow> length (sr_frames r) = raw_frame_count (sr_raw r) \<and> sr_frames r \<noteq> []
     \<and> (\<forall>i < length (sr_frames r). sf_pc (sr_frames r ! i) = raw_pcs (sr_raw r) ! i
          \<and> sf_module_generation (sr_frames r ! i) = raw_module_generation (sr_raw r)))"

lemma symbolize_frame_fields:
  "sf_pc (symbolize_frame b dladdr m pc) = pc"
  "sf_module_generation (symbolize_frame b dladdr (Some m') pc) = mi_generation m'"
  by (auto simp: symbolize_frame_def Let_def SymbolizedFrame_init_def split: option.splits)

lemma resolved_generation:
  "stamped (mr_snapshots reg) \<Longrightarrow> Registry_Resolve pc g reg = Some m \<Longrightarrow> mi_generation m = g"
  by (auto simp: Registry_Resolve_def stamped_def find_Some_iff dest!: map_of_SomeD split: option.splits)

lemma resolve_item_frames:
  assumes "stamped (mr_snapshots reg)"
  shows "frames_ok b (resolve_item b dladdr reg it)"
proof -
  let ?raw = "qi_raw it" and ?r = "resolve_item b dladdr reg it"
  define found where "found = map (\<lambda>i. Registry_Resolve (CallSitePcFromReturnAddress b (raw_pcs ?raw ! i)) (raw_module_generation ?raw) reg)
      [0..<raw_frame_count ?raw]"
  define modules where "modules = map (\<lambda>m. case m of None \<Rightarrow> ModuleInfo_init | Some m \<Rightarrow> m) found"
  have frames: "sr_frames ?r = map (\<lambda>i. symbolize_frame b dladdr (if i < length modules then Some (modules ! i) else None) (raw_pcs ?raw ! i))
      [0..<raw_frame_count ?raw]"
    and state: "sr_state ?r = Resolved \<longleftrightarrow> sr_frames ?r \<noteq> [] \<and> None \<notin> set found"
    by (simp_all add: resolve_item_def Symbolize_def Let_def found_def modules_def)
  have len: "length modules = raw_frame_count ?raw" "length found = raw_frame_count ?raw" by (simp_all add: modules_def found_def)
  have "mi_generation (modules ! i) = raw_module_generation ?raw" if "None \<notin> set found" "i < raw_frame_count ?raw" for i
  proof -
    have "found ! i \<noteq> None" using that len(2) by (metis nth_mem)
    then obtain m where m: "found ! i = Some m" by auto
    then have "mi_generation m = raw_module_generation ?raw"
      using that(2) by (intro resolved_generation [OF assms]) (simp add: found_def)
    then show ?thesis using m that(2) len by (simp add: modules_def)
  qed
  moreover have "length (sr_frames ?r) = raw_frame_count ?raw" by (simp add: frames)
  moreover have "sr_frames ?r ! i = symbolize_frame b dladdr (Some (modules ! i)) (raw_pcs ?raw ! i)" if "i < raw_frame_count ?raw" for i
    using that len(1) by (simp add: frames)
  ultimately show ?thesis unfolding frames_ok_def state by (simp add: symbolize_frame_fields)
qed

definition result_frames :: "build \<Rightarrow> pipeline \<Rightarrow> bool" where
  "result_frames b s \<longleftrightarrow> stamped (mr_snapshots (pl_registry s)) \<and> (\<forall>r \<in> snd ` set (pl_results s). frames_ok b r)
     \<and> (\<forall>r. pl_worker s = Completed r \<longrightarrow> frames_ok b r)"

lemma results_evict_result: "snd ` set (pl_results (EvictResultCacheLocked s)) \<subseteq> snd ` set (pl_results s)"
proof (induction s rule: EvictResultCacheLocked.induct)
  case (1 s)
  show ?case
  proof (cases "length (pl_result_order s) > pl_result_capacity s")
    case True
    let ?t = "s\<lparr> pl_result_order := tl (pl_result_order s) \<rparr>" and ?i = "hd (pl_result_order s)"
    have "snd ` set (pl_results (EvictResultCacheLocked ?t)) \<subseteq> snd ` set (pl_results s)"
      if "map_of (pl_results s) ?i = None \<or> (\<exists>r. map_of (pl_results s) ?i = Some r \<and> sr_state r = Pending)"
      using that 1(1, 2) [OF True refl refl] by auto
    moreover have "snd ` set (pl_results (EvictResultCacheLocked (EraseResultLocked ?i ?t))) \<subseteq> snd ` set (pl_results s)"
      if "map_of (pl_results s) ?i = Some r" "sr_state r \<noteq> Pending" for r
      using that 1(3) [OF True refl refl, of r] set_delete [of ?i "pl_results s"] by auto
    ultimately show ?thesis using True
      by (subst EvictResultCacheLocked.simps) (simp add: Let_def split: option.split)
  qed (subst EvictResultCacheLocked.simps, simp)
qed

lemma results_evict_dropped: "snd ` set (pl_results (EvictDroppedCacheLocked s)) \<subseteq> snd ` set (pl_results s)"
proof (induction s rule: EvictDroppedCacheLocked.induct)
  case (1 s)
  show ?case
  proof (cases "length (pl_dropped_order s) > pl_result_capacity s")
    case True
    then show ?thesis using 1(1) [OF True] set_delete [of "hd (pl_dropped_order s)" "pl_results s"]
      by (subst EvictDroppedCacheLocked.simps) auto
  qed (subst EvictDroppedCacheLocked.simps, simp)
qed

lemma results_emplace: "snd ` set (umap_emplace k v m) \<subseteq> insert v (snd ` set m)"
  using set_update [of k v m] by (auto simp: umap_emplace_def split: option.splits)

lemma results_replace: "snd ` set (replace_result r m) \<subseteq> insert r (snd ` set m)"
  using set_update [of "sr_id r" r m] by (auto simp: replace_result_def split: option.splits)

lemma results_fail_all:
  "snd ` set (fold (replace_result \<circ> failed_of) its m) \<subseteq> failed_of ` set its \<union> snd ` set m"
proof (induction its arbitrary: m)
  case (Cons it its)
  have "snd ` set (fold (replace_result \<circ> failed_of) its (replace_result (failed_of it) m))
      \<subseteq> failed_of ` set its \<union> snd ` set (replace_result (failed_of it) m)" by (rule Cons.IH)
  also have "\<dots> \<subseteq> failed_of ` set (it # its) \<union> snd ` set m" using results_replace [of "failed_of it" m] by auto
  finally show ?case by (simp add: comp_def)
qed simp

lemma frames_ok_unresolved: "sr_state r \<noteq> Resolved \<Longrightarrow> frames_ok b r"
  by (simp add: frames_ok_def)

text \<open>A step adds to the table only results that are not resolved, or the one the worker has completed.\<close>

lemma result_framesI:
  assumes "result_frames b s" "stamped (mr_snapshots (pl_registry t))"
    and "\<And>r. r \<in> snd ` set (pl_results t) \<Longrightarrow> r \<in> snd ` set (pl_results s) \<or> sr_state r \<noteq> Resolved \<or> pl_worker s = Completed r"
    and "\<And>r. pl_worker t = Completed r \<Longrightarrow> pl_worker s = Completed r \<or> frames_ok b r"
  shows "result_frames b t"
  unfolding result_frames_def
proof (intro conjI ballI allI impI)
  show "frames_ok b r" if "r \<in> snd ` set (pl_results t)" for r
    using assms(3) [OF that] assms(1) frames_ok_unresolved by (auto simp: result_frames_def)
  show "frames_ok b r" if "pl_worker t = Completed r" for r
    using assms(4) [OF that] assms(1) by (auto simp: result_frames_def)
qed (fact assms(2))

lemma frames_submit:
  assumes "result_frames b s"
  shows "result_frames b (snd (submit_section raw s))"
proof (rule result_framesI [OF assms])
  let ?i = "pl_next_id s" and ?t = "snd (submit_section raw s)"
  have same: "pl_worker ?t = pl_worker s" "pl_registry ?t = pl_registry s"
    by (simp_all add: submit_section_def Let_def split: option.splits)
  then show "stamped (mr_snapshots (pl_registry ?t))" using assms by (simp add: result_frames_def)
  show "\<And>r. pl_worker ?t = Completed r \<Longrightarrow> pl_worker s = Completed r \<or> frames_ok b r" using same by simp
  fix r
  assume r: "r \<in> snd ` set (pl_results ?t)"
  let ?p = "pending_of ?i raw"
  have "snd ` set (pl_results ?t) \<subseteq> {?p, ?p\<lparr> sr_state := Dropped \<rparr>} \<union> snd ` set (pl_results s)"
  proof (cases "pl_stopping s")
    case False
    show ?thesis
    proof (cases "map_of (pl_unique_stacks s) (MakeKey raw)")
      case None
      show ?thesis
      proof (cases "pl_queue_size s = pl_capacity s")
        case True
        have "snd ` set (pl_results ?t) \<subseteq> snd ` set (AList.update ?i (?p\<lparr> sr_state := Dropped \<rparr>) (umap_emplace ?i ?p (pl_results s)))"
          unfolding submit_dropped [OF False None True] snd_conv by (simp, rule order_trans [OF results_evict_dropped]) simp
        also have "\<dots> \<subseteq> {?p, ?p\<lparr> sr_state := Dropped \<rparr>} \<union> snd ` set (pl_results s)"
          using set_update [of ?i "?p\<lparr> sr_state := Dropped \<rparr>" "umap_emplace ?i ?p (pl_results s)"] results_emplace [of ?i ?p "pl_results s"] by blast
        finally show ?thesis .
      next
        case full: False
        show ?thesis unfolding submit_accepted [OF False None full] using results_emplace [of ?i ?p "pl_results s"] by auto
      qed
    qed (use False in \<open>auto simp: submit_duplicate\<close>)
  qed (auto simp: submit_stopping)
  then have "r \<in> {?p, ?p\<lparr> sr_state := Dropped \<rparr>} \<or> r \<in> snd ` set (pl_results s)" using r by blast
  then show "r \<in> snd ` set (pl_results s) \<or> sr_state r \<noteq> Resolved \<or> pl_worker s = Completed r"
    by (auto simp: pending_of_def)
qed

lemma frames_release:
  assumes "result_frames b s"
  shows "result_frames b (snd (Release i s))"
proof (rule result_framesI [OF assms])
  have "pl_core (snd (Release i s)) = pl_core s" by (rule core_release)
  note c = core_fields(11, 12) [OF this]
  show "stamped (mr_snapshots (pl_registry (snd (Release i s))))" using assms c by (simp add: result_frames_def)
  show "\<And>r. pl_worker (snd (Release i s)) = Completed r \<Longrightarrow> pl_worker s = Completed r \<or> frames_ok b r" using c by simp
  have "snd ` set (pl_results (snd (Release i s))) \<subseteq> snd ` set (pl_results s)"
    using set_delete [of i "pl_results s"] by (simp add: Release_def Let_def split: option.splits)
  then show "\<And>r. r \<in> snd ` set (pl_results (snd (Release i s))) \<Longrightarrow>
      r \<in> snd ` set (pl_results s) \<or> sr_state r \<noteq> Resolved \<or> pl_worker s = Completed r" by blast
qed

lemma frames_publish:
  assumes "result_frames b s" "pl_worker s = Completed r"
  shows "result_frames b (publish_result r s)"
proof (rule result_framesI [OF assms(1)])
  show "stamped (mr_snapshots (pl_registry (publish_result r s)))" using assms by (simp add: result_frames_def publish_result_def Let_def)
  define m where "m = (case map_of (pl_results s) (sr_id r) of None \<Rightarrow> pl_results s | Some _ \<Rightarrow> AList.update (sr_id r) r (pl_results s))"
  have "snd ` set (pl_results (publish_result r s)) \<subseteq> snd ` set m"
    unfolding publish_result_def Let_def m_def [symmetric]
    by (simp, rule order_trans [OF results_evict_result]) simp
  moreover have "snd ` set m \<subseteq> insert r (snd ` set (pl_results s))"
    using results_replace [of r "pl_results s"] by (simp add: m_def replace_result_def)
  ultimately show "\<And>x. x \<in> snd ` set (pl_results (publish_result r s)) \<Longrightarrow>
      x \<in> snd ` set (pl_results s) \<or> sr_state x \<noteq> Resolved \<or> pl_worker s = Completed x" using assms(2) by blast
qed simp

lemma frames_marker_failed:
  assumes "result_frames b s" "ring_inv s"
  shows "result_frames b (marker_failed it s)"
proof (rule result_framesI [OF assms(1)])
  have f: "pl_registry (marker_failed it s) = pl_registry s" "pl_worker (marker_failed it s) = Exited"
      "pl_results (marker_failed it s) = fold (replace_result \<circ> failed_of) (it # items s) (pl_results s)"
    using marker_failed_run [OF assms(2), of it] by auto
  show "stamped (mr_snapshots (pl_registry (marker_failed it s)))" using assms(1) f by (simp add: result_frames_def)
  show "\<And>r. pl_worker (marker_failed it s) = Completed r \<Longrightarrow> pl_worker s = Completed r \<or> frames_ok b r" using f(2) by simp
  fix r
  assume "r \<in> snd ` set (pl_results (marker_failed it s))"
  then have "r \<in> failed_of ` set (it # items s) \<or> r \<in> snd ` set (pl_results s)"
    using results_fail_all [of "it # items s" "pl_results s"] unfolding f(3) by blast
  then show "r \<in> snd ` set (pl_results s) \<or> sr_state r \<noteq> Resolved \<or> pl_worker s = Completed r" by auto
qed

text \<open>Steps that leave the table of results alone.\<close>

lemma frames_same:
  assumes "result_frames b s" "pl_results t = pl_results s" "stamped (mr_snapshots (pl_registry t))"
    "\<And>r. pl_worker t = Completed r \<Longrightarrow> pl_worker s = Completed r \<or> frames_ok b r"
  shows "result_frames b t"
  by (rule result_framesI [OF assms(1, 3)]) (use assms(2, 4) in auto)

lemma frames_work:
  assumes "result_frames b s" "ring_inv s" "worker_step marker_ok b dladdr s = Some t"
  shows "result_frames b t"
proof (cases "pl_worker s")
  case Waiting
  then show ?thesis using assms
    by (intro frames_same [OF assms(1)]) (auto simp: worker_step_def take_item_def result_frames_def split: if_splits)
next
  case (Taken it)
  show ?thesis
  proof (cases "\<not> pl_marker_set s \<and> \<not> marker_ok")
    case True
    then show ?thesis using frames_marker_failed [OF assms(1, 2)] assms(3) Taken by (auto simp: worker_step_def)
  next
    case False
    then have t: "t = s\<lparr> pl_marker_set := True, pl_worker := Completed (resolve_item b dladdr (pl_registry s) it) \<rparr>"
      using assms(3) Taken by (simp add: worker_step_def split: if_splits)
    have "stamped (mr_snapshots (pl_registry s))" using assms(1) by (simp add: result_frames_def)
    then show ?thesis using resolve_item_frames by (intro frames_same [OF assms(1)]) (auto simp: t)
  qed
next
  case (Completed r)
  then show ?thesis using frames_publish [OF assms(1)] assms(3) by (auto simp: worker_step_def)
next
  case (Calling r)
  then show ?thesis using assms by (intro frames_same [OF assms(1)]) (auto simp: worker_step_def result_frames_def)
next
  case Called
  then show ?thesis using assms by (intro frames_same [OF assms(1)]) (auto simp: worker_step_def result_frames_def)
qed (use assms(3) in \<open>simp add: worker_step_def\<close>)

lemma pipe_frames: "pipe_reach b dladdr s \<Longrightarrow> result_frames b s"
proof (induction rule: pipe_reach.induct)
  case (new key_ready objects capacity callback)
  then show ?case using stamped_refresh [of "ModuleRegistry_new 64" objects]
    by (simp add: result_frames_def AsyncStackPipeline_new_def) (simp add: ModuleRegistry_new_def stamped_def)
next
  case (work s marker_ok s')
  then show ?case using frames_work pipe_flow by (auto simp: flow_inv_def)
next
  case (submit s raw)
  then show ?case using frames_submit by blast
next
  case (release s i)
  then show ?case using frames_release by blast
next
  case (refresh s objects)
  then show ?case by (intro frames_same [OF refresh(2)]) (auto simp: flush_refresh_def stamped_refresh result_frames_def split: if_splits)
next
  case (recurse s raw)
  then show ?case by (intro frames_same [OF recurse(2)]) (auto simp: Submit_def result_frames_def)
next
  case (begin_final s)
  then show ?case by (intro frames_same [OF begin_final(2)]) (auto simp: BeginFinalization_def result_frames_def)
next
  case (shutdown s)
  then show ?case by (intro frames_same [OF shutdown(2)]) (auto simp: shutdown_request_def BeginFinalization_def Let_def result_frames_def split: if_splits)
next
  case (join s s')
  then show ?case by (intro frames_same [OF join(3)]) (auto simp: shutdown_join_def result_frames_def split: if_splits)
qed

text \<open>
  C26: a resolved stack was resolved against the modules of its own generation.
  Whatever is loaded, unloaded and published while a stack waits, a result marked
  resolved has one frame for every captured address, in order, and every frame names
  a module of the generation the stack was captured under.
\<close>

theorem resolved_in_own_generation:
  assumes "pipe_reach b dladdr s" "GetResult i s = Some r" "sr_state r = Resolved"
  shows "length (sr_frames r) = raw_frame_count (sr_raw r)
    \<and> (\<forall>j < raw_frame_count (sr_raw r). sf_pc (sr_frames r ! j) = raw_pcs (sr_raw r) ! j
        \<and> sf_module_generation (sr_frames r ! j) = raw_module_generation (sr_raw r))"
proof -
  have "r \<in> snd ` set (pl_results s)" using assms(2) map_of_SomeD by (force simp: GetResult_def)
  then have "frames_ok b r" using pipe_frames [OF assms(1)] by (auto simp: result_frames_def)
  then show ?thesis using assms(3) by (simp add: frames_ok_def)
qed

section \<open>A run of the pipeline\<close>

text \<open>One loaded module, a pipeline of capacity one, two equal submissions and one more.\<close>

lemma worker_steps_reach: "pipe_reach b dladdr s \<Longrightarrow> pipe_reach b dladdr (worker_steps n marker_ok b dladdr s)"
proof (induction n arbitrary: s)
  case (Suc n)
  then show ?case using pipe_reach.work [OF Suc.prems] by (auto split: option.splits)
qed simp

definition demo_target :: build where
  "demo_target = \<lparr> b_aarch64 = True, b_os = TargetAndroid, b_have_compiler_unwind = False, b_legacy_unwindstack = False \<rparr>"

definition demo_object :: loaded_object where
  "demo_object = \<lparr> lo_name = Some ''libdemo.so'', lo_addr = 0x4000,
     lo_phdrs = [\<lparr> ep_type = PT_LOAD, ep_vaddr = 0, ep_memsz = 0x1000, ep_bytes = [] \<rparr>] \<rparr>"

definition demo_capture_of :: "u64 \<Rightarrow> RawStackRecord" where
  "demo_capture_of pc = RawStackRecord_init\<lparr> raw_frame_count := 1, raw_pcs := [pc], raw_module_generation := 2 \<rparr>"

definition demo_dladdr :: "u64 \<Rightarrow> dl_symbol option" where
  "demo_dladdr pc = None"

definition demo_pipe :: pipeline where
  "demo_pipe = AsyncStackPipeline_new True [demo_object] 1 True"

definition demo_submitted :: pipeline where
  "demo_submitted = snd (submit_section (demo_capture_of 0x4010) demo_pipe)"

definition demo_done :: pipeline where
  "demo_done = worker_steps 5 True demo_target demo_dladdr demo_submitted"

lemma demo_reach: "pipe_reach demo_target demo_dladdr demo_submitted" "pipe_reach demo_target demo_dladdr demo_done"
proof -
  have "submit_ok (demo_capture_of 0x4010)" by (simp add: submit_ok_def demo_capture_of_def kMaxAsyncRawFrames_def)
  then show "pipe_reach demo_target demo_dladdr demo_submitted"
    unfolding demo_submitted_def demo_pipe_def by (intro pipe_reach.submit pipe_reach.new)
  then show "pipe_reach demo_target demo_dladdr demo_done" unfolding demo_done_def by (rule worker_steps_reach)
qed

lemma demo_done_facts:
  "flush_idle demo_done" "pl_callback demo_done" "as_processed (pl_stats demo_done) = 1"
  "map_option sr_state (GetResult 1 demo_done) = Some Resolved"
  "map_option (raw_frame_count \<circ> sr_raw) (GetResult 1 demo_done) = Some 1"
  by code_simp+

lemma demo_submitted_facts:
  "\<not> pl_stopping demo_submitted" "pl_capacity demo_submitted = 1" "pl_stopping (shutdown_request demo_submitted)"
  "pl_capacity (shutdown_request demo_submitted) = 1"
  "map_option (\<lambda>r. (MakeKey (sr_raw r), sr_state r)) (GetResult 1 demo_submitted) = Some (MakeKey (demo_capture_of 0x4010), Pending)"
  by code_simp+


theorem equal_stacks_share_id_witness:
  "\<not> pl_stopping demo_submitted \<and> sb_duplicate (fst (submit_section (demo_capture_of 0x4010) demo_submitted))"
proof -
  obtain r where "GetResult 1 demo_submitted = Some r" "MakeKey (sr_raw r) = MakeKey (demo_capture_of 0x4010)" "sr_state r \<noteq> Dropped"
    using demo_submitted_facts(5) by auto
  then show ?thesis
    using equal_stacks_share_id [OF demo_reach(1) demo_submitted_facts(1) surjective_pairing] demo_submitted_facts(1) by blast
qed

theorem shutdown_drains_witness:
  "flush_idle (worker_steps 11 True demo_target demo_dladdr (shutdown_request demo_submitted))"
  using shutdown_drains [OF pipe_reach.shutdown [OF demo_reach(1)] demo_submitted_facts(3) refl, of True]
  by (simp add: demo_submitted_facts(4))

theorem resolved_in_own_generation_witness:
  "\<exists>r. GetResult 1 demo_done = Some r \<and> sr_state r = Resolved \<and> length (sr_frames r) = 1"
proof -
  obtain r where r: "GetResult 1 demo_done = Some r" "sr_state r = Resolved" "raw_frame_count (sr_raw r) = 1"
    using demo_done_facts(4, 5) by auto
  then show ?thesis using resolved_in_own_generation [OF demo_reach(2) r(1, 2)] by simp
qed

end
