(* ===== verification/DwarfMemory.thy ===== *)
theory DwarfMemory
  imports Prelude
begin

text \<open>
  The reader of DWARF data of the vendored unwinder (\<^verbatim>\<open>unwindstack/DwarfMemory.cpp\<close>):
  fixed-width and LEB128 numbers and pointer encodings, read from a cursor into a
  memory. The memory is a parameter: the bytes \<^verbatim>\<open>Memory::Read\<close> answers for an address
  and a size. What C++ leaves undefined, such as a shift by the width of its operand
  or more, is an outcome of its own.
\<close>

unbundle bit_operations_syntax

section \<open>Outcomes and memories\<close>

datatype undefined_behaviour =
    StackUnderflow
  | OperandMissing
  | ShiftTooLarge
  | SignedOverflow
  | RegisterOutOfRange
  | CheckFailed
  | NullCall

text \<open>A call either runs into undefined behaviour or returns a result and the new state.\<close>

type_synonym ('s, 'a) run = "undefined_behaviour + 'a option \<times> 's"

type_synonym memory = "u64 \<Rightarrow> nat \<Rightarrow> u8 list"

definition ReadFully :: "memory \<Rightarrow> u64 \<Rightarrow> nat \<Rightarrow> u8 list option" where
  "ReadFully m addr len = (let bytes = m addr len in if length bytes = len then Some bytes else None)"

record dwarf_memory =
  dm_cur_offset :: u64
  dm_pc_offset :: u64
  dm_data_offset :: u64
  dm_func_offset :: u64
  dm_text_offset :: u64

definition INT64_MAX :: u64 where "INT64_MAX = 0x7fffffffffffffff"

definition DwarfMemory_new :: dwarf_memory where
  "DwarfMemory_new = \<lparr> dm_cur_offset = 0, dm_pc_offset = INT64_MAX, dm_data_offset = - 1, dm_func_offset = - 1, dm_text_offset = - 1 \<rparr>"

definition set_cur_offset :: "u64 \<Rightarrow> dwarf_memory \<Rightarrow> dwarf_memory" where
  "set_cur_offset off d = d\<lparr> dm_cur_offset := off \<rparr>"

definition set_pc_offset :: "u64 \<Rightarrow> dwarf_memory \<Rightarrow> dwarf_memory" where
  "set_pc_offset off d = d\<lparr> dm_pc_offset := off \<rparr>"

definition clear_pc_offset :: "dwarf_memory \<Rightarrow> dwarf_memory" where
  "clear_pc_offset d = d\<lparr> dm_pc_offset := INT64_MAX \<rparr>"

definition set_data_offset :: "u64 \<Rightarrow> dwarf_memory \<Rightarrow> dwarf_memory" where
  "set_data_offset off d = d\<lparr> dm_data_offset := off \<rparr>"

definition clear_data_offset :: "dwarf_memory \<Rightarrow> dwarf_memory" where
  "clear_data_offset d = d\<lparr> dm_data_offset := - 1 \<rparr>"

definition set_func_offset :: "u64 \<Rightarrow> dwarf_memory \<Rightarrow> dwarf_memory" where
  "set_func_offset off d = d\<lparr> dm_func_offset := off \<rparr>"

definition clear_func_offset :: "dwarf_memory \<Rightarrow> dwarf_memory" where
  "clear_func_offset d = d\<lparr> dm_func_offset := - 1 \<rparr>"

definition set_text_offset :: "u64 \<Rightarrow> dwarf_memory \<Rightarrow> dwarf_memory" where
  "set_text_offset off d = d\<lparr> dm_text_offset := off \<rparr>"

definition clear_text_offset :: "dwarf_memory \<Rightarrow> dwarf_memory" where
  "clear_text_offset d = d\<lparr> dm_text_offset := - 1 \<rparr>"

section \<open>Fixed-width numbers\<close>

definition ReadBytes :: "memory \<Rightarrow> nat \<Rightarrow> dwarf_memory \<Rightarrow> u8 list option \<times> dwarf_memory" where
  "ReadBytes m num_bytes d =
     (case ReadFully m (dm_cur_offset d) num_bytes of
        None \<Rightarrow> (None, d)
      | Some bytes \<Rightarrow> (Some bytes, d\<lparr> dm_cur_offset := dm_cur_offset d + of_nat num_bytes \<rparr>))"

text \<open>The targets are little-endian.\<close>

fun le_value :: "u8 list \<Rightarrow> u64" where
  "le_value [] = 0"
| "le_value (b # bs) = ucast b + 256 * le_value bs"

definition ReadUnsigned :: "memory \<Rightarrow> nat \<Rightarrow> dwarf_memory \<Rightarrow> (dwarf_memory, u64) run" where
  "ReadUnsigned m num_bytes d =
     (case ReadBytes m num_bytes d of (None, d) \<Rightarrow> Inr (None, d) | (Some bytes, d) \<Rightarrow> Inr (Some (le_value bytes), d))"

definition ReadSigned :: "memory \<Rightarrow> nat \<Rightarrow> dwarf_memory \<Rightarrow> (dwarf_memory, u64) run" where
  "ReadSigned m num_bytes d =
     (case ReadBytes m num_bytes d of
        (None, d) \<Rightarrow> Inr (None, d)
      | (Some bytes, d) \<Rightarrow> Inr (Some (signed_take_bit (8 * num_bytes - 1) (le_value bytes)), d))"

section \<open>LEB128\<close>

text \<open>The loop both readers share; it answers the value, the final shift and the last byte.\<close>

function leb_loop :: "memory \<Rightarrow> u64 \<Rightarrow> nat \<Rightarrow> dwarf_memory \<Rightarrow> (dwarf_memory, u64 \<times> nat \<times> u8) run" where
  "leb_loop m cur_value shift d =
     (case ReadBytes m 1 d of
        (None, d) \<Rightarrow> Inr (None, d)
      | (Some bytes, d) \<Rightarrow>
          let byte = hd bytes
          in if shift \<ge> 64 then Inl ShiftTooLarge
             else let cur_value = cur_value + push_bit shift (ucast (byte AND 0x7f))
                  in if byte AND 0x80 \<noteq> 0 then leb_loop m cur_value (shift + 7) d
                     else Inr (Some (cur_value, shift + 7, byte), d))"
  by pat_completeness auto
termination
  by (relation "measure (\<lambda>(m, cur_value, shift, d). 71 - shift)") auto

declare leb_loop.simps [simp del]

definition ReadULEB128 :: "memory \<Rightarrow> dwarf_memory \<Rightarrow> (dwarf_memory, u64) run" where
  "ReadULEB128 m d =
     (case leb_loop m 0 0 d of
        Inl u \<Rightarrow> Inl u
      | Inr (None, d) \<Rightarrow> Inr (None, d)
      | Inr (Some (cur_value, shift, byte), d) \<Rightarrow> Inr (Some cur_value, d))"

definition ReadSLEB128 :: "memory \<Rightarrow> dwarf_memory \<Rightarrow> (dwarf_memory, u64) run" where
  "ReadSLEB128 m d =
     (case leb_loop m 0 0 d of
        Inl u \<Rightarrow> Inl u
      | Inr (None, d) \<Rightarrow> Inr (None, d)
      | Inr (Some (cur_value, shift, byte), d) \<Rightarrow>
          if byte AND 0x40 \<noteq> 0
          then if shift \<ge> 64 then Inl ShiftTooLarge
               else Inr (Some (cur_value OR push_bit shift (- 1)), d)
          else Inr (Some cur_value, d))"

section \<open>Pointer encodings\<close>

definition DW_EH_PE_omit :: u8 where "DW_EH_PE_omit = 0xff"
definition DW_EH_PE_absptr :: u8 where "DW_EH_PE_absptr = 0x00"
definition DW_EH_PE_uleb128 :: u8 where "DW_EH_PE_uleb128 = 0x01"
definition DW_EH_PE_udata2 :: u8 where "DW_EH_PE_udata2 = 0x02"
definition DW_EH_PE_udata4 :: u8 where "DW_EH_PE_udata4 = 0x03"
definition DW_EH_PE_udata8 :: u8 where "DW_EH_PE_udata8 = 0x04"
definition DW_EH_PE_sleb128 :: u8 where "DW_EH_PE_sleb128 = 0x09"
definition DW_EH_PE_sdata2 :: u8 where "DW_EH_PE_sdata2 = 0x0a"
definition DW_EH_PE_sdata4 :: u8 where "DW_EH_PE_sdata4 = 0x0b"
definition DW_EH_PE_sdata8 :: u8 where "DW_EH_PE_sdata8 = 0x0c"
definition DW_EH_PE_pcrel :: u8 where "DW_EH_PE_pcrel = 0x10"
definition DW_EH_PE_textrel :: u8 where "DW_EH_PE_textrel = 0x20"
definition DW_EH_PE_datarel :: u8 where "DW_EH_PE_datarel = 0x30"
definition DW_EH_PE_funcrel :: u8 where "DW_EH_PE_funcrel = 0x40"
definition DW_EH_PE_aligned :: u8 where "DW_EH_PE_aligned = 0x50"
definition DW_EH_PE_udata1 :: u8 where "DW_EH_PE_udata1 = 0x0d"
definition DW_EH_PE_sdata1 :: u8 where "DW_EH_PE_sdata1 = 0x0e"
definition DW_EH_PE_block :: u8 where "DW_EH_PE_block = 0x0f"

lemmas dw_encodings =
  DW_EH_PE_omit_def DW_EH_PE_absptr_def DW_EH_PE_uleb128_def DW_EH_PE_udata2_def DW_EH_PE_udata4_def DW_EH_PE_udata8_def
  DW_EH_PE_sleb128_def DW_EH_PE_sdata2_def DW_EH_PE_sdata4_def DW_EH_PE_sdata8_def DW_EH_PE_pcrel_def DW_EH_PE_textrel_def
  DW_EH_PE_datarel_def DW_EH_PE_funcrel_def DW_EH_PE_aligned_def DW_EH_PE_udata1_def DW_EH_PE_sdata1_def DW_EH_PE_block_def

text \<open>\<open>addr_size\<close> is the size of the template's address type, 4 or 8.\<close>

definition GetEncodedSize :: "nat \<Rightarrow> u8 \<Rightarrow> nat" where
  "GetEncodedSize addr_size encoding =
     (let e = encoding AND 0x0f
      in if e = DW_EH_PE_absptr then addr_size
         else if e = DW_EH_PE_udata1 \<or> e = DW_EH_PE_sdata1 then 1
         else if e = DW_EH_PE_udata2 \<or> e = DW_EH_PE_sdata2 then 2
         else if e = DW_EH_PE_udata4 \<or> e = DW_EH_PE_sdata4 then 4
         else if e = DW_EH_PE_udata8 \<or> e = DW_EH_PE_sdata8 then 8
         else 0)"

definition AdjustEncodedValue :: "u8 \<Rightarrow> u64 \<Rightarrow> dwarf_memory \<Rightarrow> (dwarf_memory, u64) run" where
  "AdjustEncodedValue encoding value d =
     (if encoding AND 0x0f \<noteq> 0 then Inl CheckFailed
      else if encoding = DW_EH_PE_absptr then Inr (Some value, d)
      else if encoding = DW_EH_PE_pcrel then
        Inr (if dm_pc_offset d = INT64_MAX then None else Some (value + dm_pc_offset d), d)
      else if encoding = DW_EH_PE_textrel then
        Inr (if dm_text_offset d = - 1 then None else Some (value + dm_text_offset d), d)
      else if encoding = DW_EH_PE_datarel then
        Inr (if dm_data_offset d = - 1 then None else Some (value + dm_data_offset d), d)
      else if encoding = DW_EH_PE_funcrel then
        Inr (if dm_func_offset d = - 1 then None else Some (value + dm_func_offset d), d)
      else Inr (None, d))"

definition read_data :: "memory \<Rightarrow> nat \<Rightarrow> u8 \<Rightarrow> dwarf_memory \<Rightarrow> (dwarf_memory, u64) run" where
  "read_data m addr_size e d =
     (if e = DW_EH_PE_absptr then ReadUnsigned m addr_size d
      else if e = DW_EH_PE_uleb128 then ReadULEB128 m d
      else if e = DW_EH_PE_sleb128 then ReadSLEB128 m d
      else if e = DW_EH_PE_udata1 then ReadUnsigned m 1 d
      else if e = DW_EH_PE_sdata1 then ReadSigned m 1 d
      else if e = DW_EH_PE_udata2 then ReadUnsigned m 2 d
      else if e = DW_EH_PE_sdata2 then ReadSigned m 2 d
      else if e = DW_EH_PE_udata4 then ReadUnsigned m 4 d
      else if e = DW_EH_PE_sdata4 then ReadSigned m 4 d
      else if e = DW_EH_PE_udata8 then ReadUnsigned m 8 d
      else if e = DW_EH_PE_sdata8 then ReadSigned m 8 d
      else Inr (None, d))"

definition ReadEncodedValue :: "memory \<Rightarrow> nat \<Rightarrow> u8 \<Rightarrow> dwarf_memory \<Rightarrow> (dwarf_memory, u64) run" where
  "ReadEncodedValue m addr_size encoding d =
     (if encoding = DW_EH_PE_omit then Inr (Some 0, d)
      else if encoding = DW_EH_PE_aligned then
        (let cur = dm_cur_offset d + of_nat (addr_size - 1)
         in if cur < dm_cur_offset d then Inr (None, d\<lparr> dm_cur_offset := cur \<rparr>)
            else ReadUnsigned m addr_size (d\<lparr> dm_cur_offset := cur AND - of_nat addr_size \<rparr>))
      else case read_data m addr_size (encoding AND 0x0f) d of
        Inl u \<Rightarrow> Inl u
      | Inr (None, d) \<Rightarrow> Inr (None, d)
      | Inr (Some value, d) \<Rightarrow> AdjustEncodedValue (encoding AND 0x70) value d)"

text \<open>A value relative to a base is read only while the base is set.\<close>

lemma pcrel_needs_base:
  "AdjustEncodedValue DW_EH_PE_pcrel v (clear_pc_offset d) = Inr (None, clear_pc_offset d)"
  "base \<noteq> INT64_MAX \<Longrightarrow> AdjustEncodedValue DW_EH_PE_pcrel v (set_pc_offset base d) = Inr (Some (v + base), set_pc_offset base d)"
  by (simp_all add: AdjustEncodedValue_def clear_pc_offset_def set_pc_offset_def dw_encodings)

section \<open>LEB128 round trips\<close>

text \<open>\<open>holds m a bs\<close>: the memory answers the bytes \<open>bs\<close> at the address \<open>a\<close>.\<close>

definition holds :: "memory \<Rightarrow> u64 \<Rightarrow> u8 list \<Rightarrow> bool" where
  "holds m a bs \<longleftrightarrow> (\<forall>i n. i + n \<le> length bs \<longrightarrow> m (a + of_nat i) n = take n (drop i bs))"

lemma holds_append: "holds m a (bs @ cs) \<Longrightarrow> holds m a bs \<and> holds m (a + of_nat (length bs)) cs"
proof -
  assume h: "holds m a (bs @ cs)"
  have "m (a + of_nat i) n = take n (drop i bs)" if "i + n \<le> length bs" for i n
    using h that by (simp add: holds_def)
  moreover have "m (a + of_nat (length bs) + of_nat i) n = take n (drop i cs)" if "i + n \<le> length cs" for i n
    using h [unfolded holds_def, rule_format, of "length bs + i" n] that by (simp add: add.assoc)
  ultimately show ?thesis
    by (simp add: holds_def)
qed

lemma holds_read: "holds m a bs \<Longrightarrow> m a (length bs) = bs"
  by (drule holds_def [THEN iffD1, rule_format, of _ _ _ 0 "length bs"]) simp_all

lemma holds_Cons: "holds m a (b # bs) \<Longrightarrow> m a 1 = [b] \<and> holds m (a + 1) bs"
  using holds_append [of m a "[b]" bs] holds_read [of m a "[b]"] by simp

lemma ReadBytes_holds:
  "\<lbrakk> holds m (dm_cur_offset d) bs; n = length bs \<rbrakk> \<Longrightarrow>
     ReadBytes m n d = (Some bs, d\<lparr> dm_cur_offset := dm_cur_offset d + of_nat n \<rparr>)"
  by (simp add: ReadBytes_def ReadFully_def Let_def holds_read)

fun leb_wf :: "u8 list \<Rightarrow> bool" where
  "leb_wf [] = False"
| "leb_wf [b] \<longleftrightarrow> b AND 0x80 = 0"
| "leb_wf (b # bs) \<longleftrightarrow> b AND 0x80 \<noteq> 0 \<and> leb_wf bs"

fun leb_value :: "u8 list \<Rightarrow> nat" where
  "leb_value [] = 0"
| "leb_value (b # bs) = unat (b AND 0x7f) + 128 * leb_value bs"

lemma leb_loop_value:
  "\<lbrakk> holds m (dm_cur_offset d) bs; leb_wf bs; sh + 7 * (length bs - 1) < 64 \<rbrakk> \<Longrightarrow>
     leb_loop m v sh d =
       Inr (Some (v + of_nat (leb_value bs * 2 ^ sh), sh + 7 * length bs, last bs),
            d\<lparr> dm_cur_offset := dm_cur_offset d + of_nat (length bs) \<rparr>)"
proof (induction bs arbitrary: v sh d)
  case (Cons b bs)
  have b: "ReadBytes m 1 d = (Some [b], d\<lparr> dm_cur_offset := dm_cur_offset d + 1 \<rparr>)"
    and bs: "holds m (dm_cur_offset d + 1) bs"
    using holds_Cons [OF Cons.prems(1)] by (simp_all add: ReadBytes_def ReadFully_def Let_def)
  have add: "push_bit sh (ucast (b AND 0x7f)) = (of_nat (unat (b AND 0x7f) * 2 ^ sh) :: u64)"
    by (simp add: push_bit_eq_mult)
  have shift: "\<not> 64 \<le> sh"
    using Cons.prems by simp
  note step = leb_loop.simps [of m v sh d, unfolded b prod.case option.case Let_def list.sel add if_not_P [OF shift]]
  show ?case
  proof (cases "bs = []")
    case True
    then show ?thesis
      using Cons.prems by (subst step) simp
  next
    case False
    let ?n = "unat (b AND 0x7f)" and ?d = "d\<lparr> dm_cur_offset := dm_cur_offset d + 1 \<rparr>"
    have more: "b AND 0x80 \<noteq> 0" "leb_wf bs" "sh + 7 + 7 * (length bs - 1) < 64"
      using Cons.prems False by (cases bs; simp)+
    have sum: "?n * 2 ^ sh + leb_value bs * 2 ^ (sh + 7) = leb_value (b # bs) * 2 ^ sh"
      by (simp add: power_add algebra_simps)
    have "leb_loop m v sh d = leb_loop m (v + of_nat (?n * 2 ^ sh)) (sh + 7) ?d"
      using more(1) by (subst step) (simp only: if_True not_False_eq_True)
    also have "\<dots> = Inr (Some (v + of_nat (?n * 2 ^ sh) + of_nat (leb_value bs * 2 ^ (sh + 7)), sh + 7 + 7 * length bs, last bs),
        ?d\<lparr> dm_cur_offset := dm_cur_offset ?d + of_nat (length bs) \<rparr>)"
      by (rule Cons.IH) (use more(2,3) bs in simp_all)
    also have "v + of_nat (?n * 2 ^ sh) + of_nat (leb_value bs * 2 ^ (sh + 7)) = v + of_nat (leb_value (b # bs) * 2 ^ sh)"
      by (simp only: sum [symmetric] of_nat_add add.assoc)
    finally show ?thesis
      using False by (simp add: add.assoc del: leb_value.simps of_nat_mult)
  qed
qed simp

text \<open>The shortest encodings of the standard, and the bytes they are made of.\<close>

definition leb_more :: "int \<Rightarrow> u8" where
  "leb_more k = word_of_int (128 + k mod 128)"

definition leb_last :: "int \<Rightarrow> u8" where
  "leb_last k = word_of_int (k mod 128)"

lemma uint_leb_last: "uint (leb_last k) = k mod 128"
  by (simp add: leb_last_def uint_word_of_int)

lemma uint_leb_more: "uint (leb_more k) = 128 + k mod 128"
proof -
  have "uint (leb_more k) = (128 + k mod 128) mod 2 ^ 8"
    unfolding leb_more_def by (simp only: uint_word_of_int len_num0 len_bit0 len_num1) simp
  also have "\<dots> = 128 + k mod 128"
    using pos_mod_bound [of 128 k] pos_mod_sign [of 128 k] by (intro mod_pos_pos_trivial) simp_all
  finally show ?thesis .
qed

fun uleb_encode :: "nat \<Rightarrow> u8 list" where
  "uleb_encode n = (if n < 128 then [leb_last (int n)] else leb_more (int n) # uleb_encode (n div 128))"

function sleb_encode :: "int \<Rightarrow> u8 list" where
  "sleb_encode k = (if - 64 \<le> k \<and> k < 64 then [leb_last k] else leb_more k # sleb_encode (k div 128))"
  by pat_completeness auto
termination
  by (relation "measure (\<lambda>k. nat \<bar>k\<bar>)") auto

declare uleb_encode.simps [simp del] sleb_encode.simps [simp del]

lemma and_7f: "uint (b AND 0x7f) = uint b mod 128" for b :: u8
proof -
  have "uint b AND 127 = take_bit 7 (uint b)"
    by (simp add: take_bit_eq_mask mask_eq_exp_minus_1)
  then show ?thesis
    by (simp add: uint_and take_bit_eq_mod)
qed

lemma byte_range: "0 \<le> uint b" "uint b < 256" for b :: u8
  using uint_lt2p [of b] by simp_all

lemma even_div_iff: "\<lbrakk> 0 \<le> j; j < 2 * n \<rbrakk> \<Longrightarrow> even (j div n) \<longleftrightarrow> j < n" for j n :: int
  using int_div_pos_eq [of j n 1 "j - n"] by (cases "j < n") simp_all

lemma bit_byte: "n < 8 \<Longrightarrow> bit b n \<longleftrightarrow> odd (uint b div 2 ^ n)" for b :: u8
  unfolding bit_iff_odd [of "uint b" n, symmetric] by (simp only: bit_uint_iff len_num0 len_bit0 len_num1) simp

lemma and_80: "b AND 0x80 = 0 \<longleftrightarrow> uint b < 128" for b :: u8
proof -
  have "b AND 0x80 = 0 \<longleftrightarrow> \<not> bit b 7"
    using and_exp_eq_0_iff_not_bit [of b 7] by simp
  also have "\<dots> \<longleftrightarrow> even (uint b div 128)"
    by (simp only: bit_byte) simp
  also have "\<dots> \<longleftrightarrow> uint b < 128"
    using byte_range [of b] by (intro even_div_iff) simp_all
  finally show ?thesis .
qed

lemma and_40: "b AND 0x40 = 0 \<longleftrightarrow> even (uint b div 64)" for b :: u8
proof -
  have "b AND 0x40 = 0 \<longleftrightarrow> \<not> bit b 6"
    using and_exp_eq_0_iff_not_bit [of b 6] by simp
  also have "\<dots> \<longleftrightarrow> even (uint b div 64)"
    by (simp only: bit_byte) simp
  finally show ?thesis .
qed

lemma leb_last_80 [simp]: "leb_last k AND 0x80 = 0"
  using pos_mod_bound [of 128 k] by (simp add: and_80 uint_leb_last)

lemma leb_more_80 [simp]: "leb_more k AND 0x80 \<noteq> 0"
  using pos_mod_sign [of 128 k] by (simp add: and_80 uint_leb_more)

lemma leb_last_7f [simp]: "uint (leb_last k AND 0x7f) = k mod 128"
  by (simp only: and_7f uint_leb_last mod_mod_trivial)

lemma leb_more_7f [simp]: "uint (leb_more k AND 0x7f) = k mod 128"
  by (simp only: and_7f uint_leb_more) simp

lemma leb_last_40 [simp]: "leb_last k AND 0x40 = 0 \<longleftrightarrow> k mod 128 < 64"
  unfolding and_40 uint_leb_last by (intro even_div_iff) simp_all

subsection \<open>Unsigned\<close>

lemma uleb_encode_ne [simp]: "uleb_encode n \<noteq> []"
  by (subst uleb_encode.simps) simp

lemma sleb_encode_ne [simp]: "sleb_encode k \<noteq> []"
  by (subst sleb_encode.simps) simp

lemma leb_wf_Cons: "bs \<noteq> [] \<Longrightarrow> leb_wf (b # bs) \<longleftrightarrow> b AND 0x80 \<noteq> 0 \<and> leb_wf bs"
  by (cases bs) simp_all

lemma uleb_wf: "leb_wf (uleb_encode n)"
  by (induction n rule: uleb_encode.induct) (subst uleb_encode.simps, simp add: leb_wf_Cons)

lemma sleb_wf: "leb_wf (sleb_encode k)"
  by (induction k rule: sleb_encode.induct) (subst sleb_encode.simps, simp add: leb_wf_Cons)

lemma leb_7f_nat: "unat (leb_last (int n) AND 0x7f) = n mod 128" "unat (leb_more (int n) AND 0x7f) = n mod 128"
  by (simp_all only: unat_eq_nat_uint leb_last_7f leb_more_7f) (simp_all add: nat_mod_distrib)

lemma uleb_value: "leb_value (uleb_encode n) = n"
  by (induction n rule: uleb_encode.induct) (subst uleb_encode.simps, simp add: leb_7f_nat)

lemma uleb_length: "n < 128 ^ Suc j \<Longrightarrow> length (uleb_encode n) \<le> Suc j"
  by (induction j arbitrary: n; subst uleb_encode.simps) (simp_all add: less_mult_imp_div_less mult.commute)

lemma ReadULEB128_encode:
  assumes "holds m (dm_cur_offset d) (uleb_encode n)" "n < 2 ^ 64"
  shows "ReadULEB128 m d = Inr (Some (of_nat n), d\<lparr> dm_cur_offset := dm_cur_offset d + of_nat (length (uleb_encode n)) \<rparr>)"
proof -
  have "length (uleb_encode n) \<le> Suc 9"
    using assms(2) by (intro uleb_length) simp
  then show ?thesis
    using leb_loop_value [OF assms(1) uleb_wf, of 0 0] by (simp add: ReadULEB128_def uleb_value)
qed

subsection \<open>Signed\<close>

lemma sleb_length: "\<lbrakk> - (2 ^ (6 + 7 * j)) \<le> k; k < 2 ^ (6 + 7 * j) \<rbrakk> \<Longrightarrow> length (sleb_encode k) \<le> Suc j"
proof (induction j arbitrary: k)
  case 0
  then show ?case
    by (subst sleb_encode.simps) simp
next
  case (Suc j)
  have "- (2 ^ (6 + 7 * j)) \<le> k div 128"
    using zdiv_mono1 [OF Suc.prems(1), of 128] by (simp add: power_add)
  moreover have "k div 128 < 2 ^ (6 + 7 * j)"
    using Suc.prems(2) by (simp add: power_add)
  ultimately show ?case
    using Suc.IH by (subst sleb_encode.simps) simp
qed

lemma sleb_value: "int (leb_value (sleb_encode k)) = k mod 2 ^ (7 * length (sleb_encode k))"
proof (induction k rule: sleb_encode.induct)
  case (1 k)
  then show ?case
    by (subst (1 2) sleb_encode.simps) (simp add: power_add zmod_zmult2_eq)
qed

lemma sleb_last: "last (sleb_encode k) AND 0x40 = 0 \<longleftrightarrow> 0 \<le> k"
proof (induction k rule: sleb_encode.induct)
  case (1 k)
  have "k mod 128 < 64 \<longleftrightarrow> 0 \<le> k" if "- 64 \<le> k" "k < 64"
    using that int_mod_pos_eq [of k 128 "- 1" "k + 128"] by (cases "0 \<le> k") simp_all
  then show ?case
    using 1 by (subst sleb_encode.simps) (simp add: pos_imp_zdiv_nonneg_iff)
qed

lemma sleb_range: "- (2 ^ (7 * length (sleb_encode k))) \<le> 2 * k \<and> 2 * k < 2 ^ (7 * length (sleb_encode k))"
proof (induction k rule: sleb_encode.induct)
  case (1 k)
  show ?case
  proof (cases "- 64 \<le> k \<and> k < 64")
    case True
    then show ?thesis
      by (subst (1 2) sleb_encode.simps) simp
  next
    case False
    define M :: int where "M = 2 ^ (7 * length (sleb_encode (k div 128)))"
    have "even M"
      by (simp add: M_def)
    then obtain h where h: "M = 2 * h" ..
    have "- h \<le> k div 128 \<and> k div 128 < h"
      using 1 [OF False] h unfolding M_def by linarith
    then have "- (128 * M) \<le> 2 * k \<and> 2 * k < 128 * M"
      unfolding h by linarith
    then show ?thesis
      using False by (subst (1 2) sleb_encode.simps) (simp add: power_add M_def)
  qed
qed

lemma sign_extend: "\<lbrakk> k < 0; - (2 ^ n) \<le> k \<rbrakk> \<Longrightarrow> take_bit n k OR push_bit n (- 1) = k" for k :: int
proof -
  assume k: "k < 0" "- (2 ^ n) \<le> k"
  then have "signed_take_bit n k = k"
    by (intro signed_take_bit_int_eq_self) auto
  moreover have "bit k n"
    using k int_div_pos_eq [of k "2 ^ n" "- 1" "k + 2 ^ n"] by (simp add: bit_iff_odd)
  ultimately show ?thesis
    by (simp add: signed_take_bit_def push_bit_minus_one_eq_not_mask)
qed

text \<open>
  A negative number whose encoding takes ten bytes makes the reader shift by 70 (line 73), so the round trip holds from
  \<open>- 2 ^ 62\<close> on.
\<close>

lemma ReadSLEB128_encode:
  assumes h: "holds m (dm_cur_offset d) (sleb_encode k)" and k: "- (2 ^ 62) \<le> k" "k < 2 ^ 63"
  shows "ReadSLEB128 m d = Inr (Some (of_int k), d\<lparr> dm_cur_offset := dm_cur_offset d + of_nat (length (sleb_encode k)) \<rparr>)"
proof -
  let ?bs = "sleb_encode k"
  define sh where "sh = 7 * length ?bs"
  have "length ?bs \<le> Suc 9"
    using k by (intro sleb_length) simp_all
  then have loop: "leb_loop m 0 0 d = Inr (Some (of_nat (leb_value ?bs), sh, last ?bs), d\<lparr> dm_cur_offset := dm_cur_offset d + of_nat (length ?bs) \<rparr>)"
    using leb_loop_value [OF h sleb_wf, of 0 0] by (simp add: sh_def)
  have val: "(of_nat (leb_value ?bs) :: u64) = of_int (take_bit sh k)"
    using sleb_value [of k] by (metis of_int_of_nat_eq sh_def take_bit_eq_mod)
  show ?thesis
  proof (cases "k < 0")
    case True
    have "length ?bs \<le> Suc 8"
      using k True by (intro sleb_length) simp_all
    then have "sh < 64"
      by (simp add: sh_def)
    moreover have "(of_int (take_bit sh k) OR push_bit sh (- 1) :: u64) = of_int (take_bit sh k OR push_bit sh (- 1))"
      by (simp only: of_int_or_eq of_int_push_bit) simp
    moreover have "take_bit sh k OR push_bit sh (- 1) = k"
      using True sleb_range [of k] unfolding sh_def by (intro sign_extend) linarith+
    ultimately show ?thesis
      using True by (simp only: ReadSLEB128_def loop val) (simp add: sleb_last)
  next
    case False
    have "k < 2 ^ sh"
      using sleb_range [of k] False unfolding sh_def by linarith
    then show ?thesis
      using False by (simp add: ReadSLEB128_def loop val sleb_last take_bit_int_eq_self)
  qed
qed

lemma ReadSLEB128_least:
  assumes h: "holds m (dm_cur_offset d) (sleb_encode k)" and k: "- (2 ^ 63) \<le> k" "k < - (2 ^ 62)"
  shows "ReadSLEB128 m d = Inl ShiftTooLarge"
proof -
  let ?bs = "sleb_encode k"
  have "length ?bs \<le> Suc 9"
    using k by (intro sleb_length) simp_all
  moreover have "\<not> length ?bs \<le> 9"
  proof
    assume "length ?bs \<le> 9"
    then have "(2 :: int) ^ (7 * length ?bs) \<le> 2 ^ 63"
      by (intro power_increasing) simp_all
    then show False
      using sleb_range [of k] k by simp
  qed
  moreover have "last ?bs AND 0x40 \<noteq> 0"
    using k by (simp add: sleb_last)
  ultimately show ?thesis
    using leb_loop_value [OF h sleb_wf, of 0 0] by (simp add: ReadSLEB128_def)
qed

text \<open>A memory that consists of one byte string.\<close>

definition bytes_at :: "u64 \<Rightarrow> u8 list \<Rightarrow> memory" where
  "bytes_at base bs a n = take n (drop (unat (a - base)) bs)"

lemma holds_bytes_at: "length bs < 2 ^ 64 \<Longrightarrow> holds (bytes_at base bs) base bs"
  by (auto simp: holds_def bytes_at_def unat_of_nat_small)

text \<open>C32: Numbers written in LEB128 one after the other are read back as they were written, and the cursor ends
  behind them: every unsigned number of 64 bits, and every signed one from \<open>- 2 ^ 62\<close> on.\<close>

theorem leb128_roundtrip:
  assumes "holds m (dm_cur_offset d) (uleb_encode n @ sleb_encode k)"
    and "n < 2 ^ 64" "- (2 ^ 62) \<le> k" "k < 2 ^ 63"
  shows "\<exists>d'. ReadULEB128 m d = Inr (Some (of_nat n), d') \<and>
    ReadSLEB128 m d' = Inr (Some (of_int k),
      d\<lparr> dm_cur_offset := dm_cur_offset d + of_nat (length (uleb_encode n @ sleb_encode k)) \<rparr>)"
proof -
  have h: "holds m (dm_cur_offset d) (uleb_encode n)" "holds m (dm_cur_offset d + of_nat (length (uleb_encode n))) (sleb_encode k)"
    using holds_append [OF assms(1)] by blast+
  show ?thesis
    using ReadULEB128_encode [OF h(1) assms(2)]
      ReadSLEB128_encode [of m "d\<lparr> dm_cur_offset := dm_cur_offset d + of_nat (length (uleb_encode n)) \<rparr>" k] h(2) assms(3,4)
    by (simp add: add.assoc)
qed

theorem leb128_roundtrip_witness:
  "\<exists>d'. ReadULEB128 (bytes_at 0 (uleb_encode 300 @ sleb_encode (- 129))) DwarfMemory_new = Inr (Some 300, d') \<and>
    ReadSLEB128 (bytes_at 0 (uleb_encode 300 @ sleb_encode (- 129))) d' = Inr (Some (- 129), DwarfMemory_new\<lparr> dm_cur_offset := 4 \<rparr>)"
proof -
  have len: "length (uleb_encode 300 @ sleb_encode (- 129)) = 4"
    by (simp add: uleb_encode.simps sleb_encode.simps)
  have "holds (bytes_at 0 (uleb_encode 300 @ sleb_encode (- 129))) (dm_cur_offset DwarfMemory_new) (uleb_encode 300 @ sleb_encode (- 129))"
    unfolding DwarfMemory_new_def dwarf_memory.simps by (rule holds_bytes_at) (simp only: len, simp)
  from leb128_roundtrip [OF this] show ?thesis
    unfolding len by (simp add: DwarfMemory_new_def)
qed

end
