(* ===== verification/DwarfOpTable.thy ===== *)
theory DwarfOpTable
  imports DwarfMemory
begin

text \<open>
  The table of DWARF expression operations of the vendored unwinder
  (\<^verbatim>\<open>kCallbackTable\<close> of \<^verbatim>\<open>unwindstack/DwarfOp.cpp\<close>): for every opcode its name, the handler,
  the stack values it requires and the encodings of its operands. What a handler
  needs is stated as a function of the handler, and the whole table is checked
  against it.
\<close>

datatype DwarfOpHandleFunc =
    OP_ILLEGAL | OP_DEREF | OP_DEREF_SIZE | OP_PUSH | OP_DUP | OP_DROP | OP_OVER | OP_PICK
  | OP_SWAP | OP_ROT | OP_ABS | OP_AND | OP_DIV | OP_MINUS | OP_MOD | OP_MUL
  | OP_NEG | OP_NOT | OP_OR | OP_PLUS | OP_PLUS_UCONST | OP_SHL | OP_SHR | OP_SHRA
  | OP_XOR | OP_BRA | OP_EQ | OP_GE | OP_GT | OP_LE | OP_LT | OP_NE
  | OP_SKIP | OP_LIT | OP_REG | OP_REGX | OP_BREG | OP_BREGX | OP_NOP | OP_NOT_IMPLEMENTED

record OpCallback =
  oc_name :: string
  oc_handle_func :: DwarfOpHandleFunc
  oc_num_required_stack_values :: nat
  oc_num_operands :: nat
  oc_operands :: "u8 list"

definition op_callback :: "string \<Rightarrow> DwarfOpHandleFunc \<Rightarrow> nat \<Rightarrow> nat \<Rightarrow> u8 list \<Rightarrow> OpCallback" where
  "op_callback name handle_func num_required num_operands operands =
     \<lparr> oc_name = name, oc_handle_func = handle_func, oc_num_required_stack_values = num_required,
       oc_num_operands = num_operands, oc_operands = operands \<rparr>"

text \<open>The array of operand encodings has two elements; those not written are zero.\<close>

definition oc_operand :: "OpCallback \<Rightarrow> nat \<Rightarrow> u8" where
  "oc_operand op i = (if i < length (oc_operands op) then oc_operands op ! i else 0)"

definition kCallbackTable_00 :: "OpCallback list" where
  "kCallbackTable_00 = [
     op_callback '''' OP_ILLEGAL 0 0 [],
     op_callback '''' OP_ILLEGAL 0 0 [],
     op_callback '''' OP_ILLEGAL 0 0 [],
     op_callback ''DW_OP_addr'' OP_PUSH 0 1 [DW_EH_PE_absptr],
     op_callback '''' OP_ILLEGAL 0 0 [],
     op_callback '''' OP_ILLEGAL 0 0 [],
     op_callback ''DW_OP_deref'' OP_DEREF 1 0 [],
     op_callback '''' OP_ILLEGAL 0 0 [],
     op_callback ''DW_OP_const1u'' OP_PUSH 0 1 [DW_EH_PE_udata1],
     op_callback ''DW_OP_const1s'' OP_PUSH 0 1 [DW_EH_PE_sdata1],
     op_callback ''DW_OP_const2u'' OP_PUSH 0 1 [DW_EH_PE_udata2],
     op_callback ''DW_OP_const2s'' OP_PUSH 0 1 [DW_EH_PE_sdata2],
     op_callback ''DW_OP_const4u'' OP_PUSH 0 1 [DW_EH_PE_udata4],
     op_callback ''DW_OP_const4s'' OP_PUSH 0 1 [DW_EH_PE_sdata4],
     op_callback ''DW_OP_const8u'' OP_PUSH 0 1 [DW_EH_PE_udata8],
     op_callback ''DW_OP_const8s'' OP_PUSH 0 1 [DW_EH_PE_sdata8]]"

definition kCallbackTable_10 :: "OpCallback list" where
  "kCallbackTable_10 = [
     op_callback ''DW_OP_constu'' OP_PUSH 0 1 [DW_EH_PE_uleb128],
     op_callback ''DW_OP_consts'' OP_PUSH 0 1 [DW_EH_PE_sleb128],
     op_callback ''DW_OP_dup'' OP_DUP 1 0 [],
     op_callback ''DW_OP_drop'' OP_DROP 1 0 [],
     op_callback ''DW_OP_over'' OP_OVER 2 0 [],
     op_callback ''DW_OP_pick'' OP_PICK 0 1 [DW_EH_PE_udata1],
     op_callback ''DW_OP_swap'' OP_SWAP 2 0 [],
     op_callback ''DW_OP_rot'' OP_ROT 3 0 [],
     op_callback ''DW_OP_xderef'' OP_NOT_IMPLEMENTED 2 0 [],
     op_callback ''DW_OP_abs'' OP_ABS 1 0 [],
     op_callback ''DW_OP_and'' OP_AND 2 0 [],
     op_callback ''DW_OP_div'' OP_DIV 2 0 [],
     op_callback ''DW_OP_minus'' OP_MINUS 2 0 [],
     op_callback ''DW_OP_mod'' OP_MOD 2 0 [],
     op_callback ''DW_OP_mul'' OP_MUL 2 0 [],
     op_callback ''DW_OP_neg'' OP_NEG 1 0 []]"

definition kCallbackTable_20 :: "OpCallback list" where
  "kCallbackTable_20 = [
     op_callback ''DW_OP_not'' OP_NOT 1 0 [],
     op_callback ''DW_OP_or'' OP_OR 2 0 [],
     op_callback ''DW_OP_plus'' OP_PLUS 2 0 [],
     op_callback ''DW_OP_plus_uconst'' OP_PLUS_UCONST 1 1 [DW_EH_PE_uleb128],
     op_callback ''DW_OP_shl'' OP_SHL 2 0 [],
     op_callback ''DW_OP_shr'' OP_SHR 2 0 [],
     op_callback ''DW_OP_shra'' OP_SHRA 2 0 [],
     op_callback ''DW_OP_xor'' OP_XOR 2 0 [],
     op_callback ''DW_OP_bra'' OP_BRA 1 1 [DW_EH_PE_sdata2],
     op_callback ''DW_OP_eq'' OP_EQ 2 0 [],
     op_callback ''DW_OP_ge'' OP_GE 2 0 [],
     op_callback ''DW_OP_gt'' OP_GT 2 0 [],
     op_callback ''DW_OP_le'' OP_LE 2 0 [],
     op_callback ''DW_OP_lt'' OP_LT 2 0 [],
     op_callback ''DW_OP_ne'' OP_NE 2 0 [],
     op_callback ''DW_OP_skip'' OP_SKIP 0 1 [DW_EH_PE_sdata2]]"

definition kCallbackTable_30 :: "OpCallback list" where
  "kCallbackTable_30 = [
     op_callback ''DW_OP_lit0'' OP_LIT 0 0 [],
     op_callback ''DW_OP_lit1'' OP_LIT 0 0 [],
     op_callback ''DW_OP_lit2'' OP_LIT 0 0 [],
     op_callback ''DW_OP_lit3'' OP_LIT 0 0 [],
     op_callback ''DW_OP_lit4'' OP_LIT 0 0 [],
     op_callback ''DW_OP_lit5'' OP_LIT 0 0 [],
     op_callback ''DW_OP_lit6'' OP_LIT 0 0 [],
     op_callback ''DW_OP_lit7'' OP_LIT 0 0 [],
     op_callback ''DW_OP_lit8'' OP_LIT 0 0 [],
     op_callback ''DW_OP_lit9'' OP_LIT 0 0 [],
     op_callback ''DW_OP_lit10'' OP_LIT 0 0 [],
     op_callback ''DW_OP_lit11'' OP_LIT 0 0 [],
     op_callback ''DW_OP_lit12'' OP_LIT 0 0 [],
     op_callback ''DW_OP_lit13'' OP_LIT 0 0 [],
     op_callback ''DW_OP_lit14'' OP_LIT 0 0 [],
     op_callback ''DW_OP_lit15'' OP_LIT 0 0 []]"

definition kCallbackTable_40 :: "OpCallback list" where
  "kCallbackTable_40 = [
     op_callback ''DW_OP_lit16'' OP_LIT 0 0 [],
     op_callback ''DW_OP_lit17'' OP_LIT 0 0 [],
     op_callback ''DW_OP_lit18'' OP_LIT 0 0 [],
     op_callback ''DW_OP_lit19'' OP_LIT 0 0 [],
     op_callback ''DW_OP_lit20'' OP_LIT 0 0 [],
     op_callback ''DW_OP_lit21'' OP_LIT 0 0 [],
     op_callback ''DW_OP_lit22'' OP_LIT 0 0 [],
     op_callback ''DW_OP_lit23'' OP_LIT 0 0 [],
     op_callback ''DW_OP_lit24'' OP_LIT 0 0 [],
     op_callback ''DW_OP_lit25'' OP_LIT 0 0 [],
     op_callback ''DW_OP_lit26'' OP_LIT 0 0 [],
     op_callback ''DW_OP_lit27'' OP_LIT 0 0 [],
     op_callback ''DW_OP_lit28'' OP_LIT 0 0 [],
     op_callback ''DW_OP_lit29'' OP_LIT 0 0 [],
     op_callback ''DW_OP_lit30'' OP_LIT 0 0 [],
     op_callback ''DW_OP_lit31'' OP_LIT 0 0 []]"

definition kCallbackTable_50 :: "OpCallback list" where
  "kCallbackTable_50 = [
     op_callback ''DW_OP_reg0'' OP_REG 0 0 [],
     op_callback ''DW_OP_reg1'' OP_REG 0 0 [],
     op_callback ''DW_OP_reg2'' OP_REG 0 0 [],
     op_callback ''DW_OP_reg3'' OP_REG 0 0 [],
     op_callback ''DW_OP_reg4'' OP_REG 0 0 [],
     op_callback ''DW_OP_reg5'' OP_REG 0 0 [],
     op_callback ''DW_OP_reg6'' OP_REG 0 0 [],
     op_callback ''DW_OP_reg7'' OP_REG 0 0 [],
     op_callback ''DW_OP_reg8'' OP_REG 0 0 [],
     op_callback ''DW_OP_reg9'' OP_REG 0 0 [],
     op_callback ''DW_OP_reg10'' OP_REG 0 0 [],
     op_callback ''DW_OP_reg11'' OP_REG 0 0 [],
     op_callback ''DW_OP_reg12'' OP_REG 0 0 [],
     op_callback ''DW_OP_reg13'' OP_REG 0 0 [],
     op_callback ''DW_OP_reg14'' OP_REG 0 0 [],
     op_callback ''DW_OP_reg15'' OP_REG 0 0 []]"

definition kCallbackTable_60 :: "OpCallback list" where
  "kCallbackTable_60 = [
     op_callback ''DW_OP_reg16'' OP_REG 0 0 [],
     op_callback ''DW_OP_reg17'' OP_REG 0 0 [],
     op_callback ''DW_OP_reg18'' OP_REG 0 0 [],
     op_callback ''DW_OP_reg19'' OP_REG 0 0 [],
     op_callback ''DW_OP_reg20'' OP_REG 0 0 [],
     op_callback ''DW_OP_reg21'' OP_REG 0 0 [],
     op_callback ''DW_OP_reg22'' OP_REG 0 0 [],
     op_callback ''DW_OP_reg23'' OP_REG 0 0 [],
     op_callback ''DW_OP_reg24'' OP_REG 0 0 [],
     op_callback ''DW_OP_reg25'' OP_REG 0 0 [],
     op_callback ''DW_OP_reg26'' OP_REG 0 0 [],
     op_callback ''DW_OP_reg27'' OP_REG 0 0 [],
     op_callback ''DW_OP_reg28'' OP_REG 0 0 [],
     op_callback ''DW_OP_reg29'' OP_REG 0 0 [],
     op_callback ''DW_OP_reg30'' OP_REG 0 0 [],
     op_callback ''DW_OP_reg31'' OP_REG 0 0 []]"

definition kCallbackTable_70 :: "OpCallback list" where
  "kCallbackTable_70 = [
     op_callback ''DW_OP_breg0'' OP_BREG 0 1 [DW_EH_PE_sleb128],
     op_callback ''DW_OP_breg1'' OP_BREG 0 1 [DW_EH_PE_sleb128],
     op_callback ''DW_OP_breg2'' OP_BREG 0 1 [DW_EH_PE_sleb128],
     op_callback ''DW_OP_breg3'' OP_BREG 0 1 [DW_EH_PE_sleb128],
     op_callback ''DW_OP_breg4'' OP_BREG 0 1 [DW_EH_PE_sleb128],
     op_callback ''DW_OP_breg5'' OP_BREG 0 1 [DW_EH_PE_sleb128],
     op_callback ''DW_OP_breg6'' OP_BREG 0 1 [DW_EH_PE_sleb128],
     op_callback ''DW_OP_breg7'' OP_BREG 0 1 [DW_EH_PE_sleb128],
     op_callback ''DW_OP_breg8'' OP_BREG 0 1 [DW_EH_PE_sleb128],
     op_callback ''DW_OP_breg9'' OP_BREG 0 1 [DW_EH_PE_sleb128],
     op_callback ''DW_OP_breg10'' OP_BREG 0 1 [DW_EH_PE_sleb128],
     op_callback ''DW_OP_breg11'' OP_BREG 0 1 [DW_EH_PE_sleb128],
     op_callback ''DW_OP_breg12'' OP_BREG 0 1 [DW_EH_PE_sleb128],
     op_callback ''DW_OP_breg13'' OP_BREG 0 1 [DW_EH_PE_sleb128],
     op_callback ''DW_OP_breg14'' OP_BREG 0 1 [DW_EH_PE_sleb128],
     op_callback ''DW_OP_breg15'' OP_BREG 0 1 [DW_EH_PE_sleb128]]"

definition kCallbackTable_80 :: "OpCallback list" where
  "kCallbackTable_80 = [
     op_callback ''DW_OP_breg16'' OP_BREG 0 1 [DW_EH_PE_sleb128],
     op_callback ''DW_OP_breg17'' OP_BREG 0 1 [DW_EH_PE_sleb128],
     op_callback ''DW_OP_breg18'' OP_BREG 0 1 [DW_EH_PE_sleb128],
     op_callback ''DW_OP_breg19'' OP_BREG 0 1 [DW_EH_PE_sleb128],
     op_callback ''DW_OP_breg20'' OP_BREG 0 1 [DW_EH_PE_sleb128],
     op_callback ''DW_OP_breg21'' OP_BREG 0 1 [DW_EH_PE_sleb128],
     op_callback ''DW_OP_breg22'' OP_BREG 0 1 [DW_EH_PE_sleb128],
     op_callback ''DW_OP_breg23'' OP_BREG 0 1 [DW_EH_PE_sleb128],
     op_callback ''DW_OP_breg24'' OP_BREG 0 1 [DW_EH_PE_sleb128],
     op_callback ''DW_OP_breg25'' OP_BREG 0 1 [DW_EH_PE_sleb128],
     op_callback ''DW_OP_breg26'' OP_BREG 0 1 [DW_EH_PE_sleb128],
     op_callback ''DW_OP_breg27'' OP_BREG 0 1 [DW_EH_PE_sleb128],
     op_callback ''DW_OP_breg28'' OP_BREG 0 1 [DW_EH_PE_sleb128],
     op_callback ''DW_OP_breg29'' OP_BREG 0 1 [DW_EH_PE_sleb128],
     op_callback ''DW_OP_breg30'' OP_BREG 0 1 [DW_EH_PE_sleb128],
     op_callback ''DW_OP_breg31'' OP_BREG 0 1 [DW_EH_PE_sleb128]]"

definition kCallbackTable_90 :: "OpCallback list" where
  "kCallbackTable_90 = [
     op_callback ''DW_OP_regx'' OP_REGX 0 1 [DW_EH_PE_uleb128],
     op_callback ''DW_OP_fbreg'' OP_NOT_IMPLEMENTED 0 1 [DW_EH_PE_sleb128],
     op_callback ''DW_OP_bregx'' OP_BREGX 0 2 [DW_EH_PE_uleb128, DW_EH_PE_sleb128],
     op_callback ''DW_OP_piece'' OP_NOT_IMPLEMENTED 0 1 [DW_EH_PE_uleb128],
     op_callback ''DW_OP_deref_size'' OP_DEREF_SIZE 1 1 [DW_EH_PE_udata1],
     op_callback ''DW_OP_xderef_size'' OP_NOT_IMPLEMENTED 0 1 [DW_EH_PE_udata1],
     op_callback ''DW_OP_nop'' OP_NOP 0 0 [],
     op_callback ''DW_OP_push_object_address'' OP_NOT_IMPLEMENTED 0 0 [],
     op_callback ''DW_OP_call2'' OP_NOT_IMPLEMENTED 0 1 [DW_EH_PE_udata2],
     op_callback ''DW_OP_call4'' OP_NOT_IMPLEMENTED 0 1 [DW_EH_PE_udata4],
     op_callback ''DW_OP_call_ref'' OP_NOT_IMPLEMENTED 0 0 [],
     op_callback ''DW_OP_form_tls_address'' OP_NOT_IMPLEMENTED 0 0 [],
     op_callback ''DW_OP_call_frame_cfa'' OP_NOT_IMPLEMENTED 0 0 [],
     op_callback ''DW_OP_bit_piece'' OP_NOT_IMPLEMENTED 0 2 [DW_EH_PE_uleb128, DW_EH_PE_uleb128],
     op_callback ''DW_OP_implicit_value'' OP_NOT_IMPLEMENTED 0 1 [DW_EH_PE_uleb128],
     op_callback ''DW_OP_stack_value'' OP_NOT_IMPLEMENTED 1 0 []]"

definition kCallbackTable_a0 :: "OpCallback list" where
  "kCallbackTable_a0 = [
     op_callback '''' OP_ILLEGAL 0 0 [],
     op_callback '''' OP_ILLEGAL 0 0 [],
     op_callback '''' OP_ILLEGAL 0 0 [],
     op_callback '''' OP_ILLEGAL 0 0 [],
     op_callback '''' OP_ILLEGAL 0 0 [],
     op_callback '''' OP_ILLEGAL 0 0 [],
     op_callback '''' OP_ILLEGAL 0 0 [],
     op_callback '''' OP_ILLEGAL 0 0 [],
     op_callback '''' OP_ILLEGAL 0 0 [],
     op_callback '''' OP_ILLEGAL 0 0 [],
     op_callback '''' OP_ILLEGAL 0 0 [],
     op_callback '''' OP_ILLEGAL 0 0 [],
     op_callback '''' OP_ILLEGAL 0 0 [],
     op_callback '''' OP_ILLEGAL 0 0 [],
     op_callback '''' OP_ILLEGAL 0 0 [],
     op_callback '''' OP_ILLEGAL 0 0 []]"

definition kCallbackTable_b0 :: "OpCallback list" where
  "kCallbackTable_b0 = [
     op_callback '''' OP_ILLEGAL 0 0 [],
     op_callback '''' OP_ILLEGAL 0 0 [],
     op_callback '''' OP_ILLEGAL 0 0 [],
     op_callback '''' OP_ILLEGAL 0 0 [],
     op_callback '''' OP_ILLEGAL 0 0 [],
     op_callback '''' OP_ILLEGAL 0 0 [],
     op_callback '''' OP_ILLEGAL 0 0 [],
     op_callback '''' OP_ILLEGAL 0 0 [],
     op_callback '''' OP_ILLEGAL 0 0 [],
     op_callback '''' OP_ILLEGAL 0 0 [],
     op_callback '''' OP_ILLEGAL 0 0 [],
     op_callback '''' OP_ILLEGAL 0 0 [],
     op_callback '''' OP_ILLEGAL 0 0 [],
     op_callback '''' OP_ILLEGAL 0 0 [],
     op_callback '''' OP_ILLEGAL 0 0 [],
     op_callback '''' OP_ILLEGAL 0 0 []]"

definition kCallbackTable_c0 :: "OpCallback list" where
  "kCallbackTable_c0 = [
     op_callback '''' OP_ILLEGAL 0 0 [],
     op_callback '''' OP_ILLEGAL 0 0 [],
     op_callback '''' OP_ILLEGAL 0 0 [],
     op_callback '''' OP_ILLEGAL 0 0 [],
     op_callback '''' OP_ILLEGAL 0 0 [],
     op_callback '''' OP_ILLEGAL 0 0 [],
     op_callback '''' OP_ILLEGAL 0 0 [],
     op_callback '''' OP_ILLEGAL 0 0 [],
     op_callback '''' OP_ILLEGAL 0 0 [],
     op_callback '''' OP_ILLEGAL 0 0 [],
     op_callback '''' OP_ILLEGAL 0 0 [],
     op_callback '''' OP_ILLEGAL 0 0 [],
     op_callback '''' OP_ILLEGAL 0 0 [],
     op_callback '''' OP_ILLEGAL 0 0 [],
     op_callback '''' OP_ILLEGAL 0 0 [],
     op_callback '''' OP_ILLEGAL 0 0 []]"

definition kCallbackTable_d0 :: "OpCallback list" where
  "kCallbackTable_d0 = [
     op_callback '''' OP_ILLEGAL 0 0 [],
     op_callback '''' OP_ILLEGAL 0 0 [],
     op_callback '''' OP_ILLEGAL 0 0 [],
     op_callback '''' OP_ILLEGAL 0 0 [],
     op_callback '''' OP_ILLEGAL 0 0 [],
     op_callback '''' OP_ILLEGAL 0 0 [],
     op_callback '''' OP_ILLEGAL 0 0 [],
     op_callback '''' OP_ILLEGAL 0 0 [],
     op_callback '''' OP_ILLEGAL 0 0 [],
     op_callback '''' OP_ILLEGAL 0 0 [],
     op_callback '''' OP_ILLEGAL 0 0 [],
     op_callback '''' OP_ILLEGAL 0 0 [],
     op_callback '''' OP_ILLEGAL 0 0 [],
     op_callback '''' OP_ILLEGAL 0 0 [],
     op_callback '''' OP_ILLEGAL 0 0 [],
     op_callback '''' OP_ILLEGAL 0 0 []]"

definition kCallbackTable_e0 :: "OpCallback list" where
  "kCallbackTable_e0 = [
     op_callback '''' OP_ILLEGAL 0 0 [],
     op_callback '''' OP_ILLEGAL 0 0 [],
     op_callback '''' OP_ILLEGAL 0 0 [],
     op_callback '''' OP_ILLEGAL 0 0 [],
     op_callback '''' OP_ILLEGAL 0 0 [],
     op_callback '''' OP_ILLEGAL 0 0 [],
     op_callback '''' OP_ILLEGAL 0 0 [],
     op_callback '''' OP_ILLEGAL 0 0 [],
     op_callback '''' OP_ILLEGAL 0 0 [],
     op_callback '''' OP_ILLEGAL 0 0 [],
     op_callback '''' OP_ILLEGAL 0 0 [],
     op_callback '''' OP_ILLEGAL 0 0 [],
     op_callback '''' OP_ILLEGAL 0 0 [],
     op_callback '''' OP_ILLEGAL 0 0 [],
     op_callback '''' OP_ILLEGAL 0 0 [],
     op_callback '''' OP_ILLEGAL 0 0 []]"

definition kCallbackTable_f0 :: "OpCallback list" where
  "kCallbackTable_f0 = [
     op_callback '''' OP_ILLEGAL 0 0 [],
     op_callback '''' OP_ILLEGAL 0 0 [],
     op_callback '''' OP_ILLEGAL 0 0 [],
     op_callback '''' OP_ILLEGAL 0 0 [],
     op_callback '''' OP_ILLEGAL 0 0 [],
     op_callback '''' OP_ILLEGAL 0 0 [],
     op_callback '''' OP_ILLEGAL 0 0 [],
     op_callback '''' OP_ILLEGAL 0 0 [],
     op_callback '''' OP_ILLEGAL 0 0 [],
     op_callback '''' OP_ILLEGAL 0 0 [],
     op_callback '''' OP_ILLEGAL 0 0 [],
     op_callback '''' OP_ILLEGAL 0 0 [],
     op_callback '''' OP_ILLEGAL 0 0 [],
     op_callback '''' OP_ILLEGAL 0 0 [],
     op_callback '''' OP_ILLEGAL 0 0 [],
     op_callback '''' OP_ILLEGAL 0 0 []]"

definition kCallbackTable :: "OpCallback list" where
  "kCallbackTable =
     kCallbackTable_00 @
     kCallbackTable_10 @
     kCallbackTable_20 @
     kCallbackTable_30 @
     kCallbackTable_40 @
     kCallbackTable_50 @
     kCallbackTable_60 @
     kCallbackTable_70 @
     kCallbackTable_80 @
     kCallbackTable_90 @
     kCallbackTable_a0 @
     kCallbackTable_b0 @
     kCallbackTable_c0 @
     kCallbackTable_d0 @
     kCallbackTable_e0 @
     kCallbackTable_f0"

section \<open>What the handlers need\<close>

text \<open>Stack values and operands a handler takes without testing for them.\<close>

fun stack_needed :: "DwarfOpHandleFunc \<Rightarrow> nat" where
  "stack_needed OP_DEREF = 1"
| "stack_needed OP_DEREF_SIZE = 1"
| "stack_needed OP_DUP = 1"
| "stack_needed OP_DROP = 1"
| "stack_needed OP_OVER = 2"
| "stack_needed OP_SWAP = 2"
| "stack_needed OP_ROT = 3"
| "stack_needed OP_ABS = 1"
| "stack_needed OP_NEG = 1"
| "stack_needed OP_NOT = 1"
| "stack_needed OP_PLUS_UCONST = 1"
| "stack_needed OP_BRA = 1"
| "stack_needed h = (if h \<in> {OP_AND, OP_DIV, OP_MINUS, OP_MOD, OP_MUL, OP_OR, OP_PLUS, OP_SHL, OP_SHR, OP_SHRA, OP_XOR,
     OP_EQ, OP_GE, OP_GT, OP_LE, OP_LT, OP_NE} then 2 else 0)"

definition operands_needed :: "DwarfOpHandleFunc \<Rightarrow> nat" where
  "operands_needed h = (if h = OP_BREGX then 2
     else if h \<in> {OP_DEREF_SIZE, OP_PICK, OP_PLUS_UCONST, OP_BRA, OP_SKIP, OP_REGX, OP_BREG} then 1 else 0)"

text \<open>The operand encodings of the table; all of them are plain data.\<close>

definition table_encodings :: "u8 list" where
  "table_encodings =
     [DW_EH_PE_absptr, DW_EH_PE_uleb128, DW_EH_PE_udata2, DW_EH_PE_udata4, DW_EH_PE_udata8, DW_EH_PE_sleb128,
      DW_EH_PE_sdata2, DW_EH_PE_sdata4, DW_EH_PE_sdata8, DW_EH_PE_udata1, DW_EH_PE_sdata1]"

definition entry_ok :: "OpCallback \<Rightarrow> bool" where
  "entry_ok op \<longleftrightarrow>
     stack_needed (oc_handle_func op) \<le> oc_num_required_stack_values op \<and>
     operands_needed (oc_handle_func op) \<le> oc_num_operands op \<and>
     length (oc_operands op) = oc_num_operands op \<and> oc_num_operands op \<le> 2 \<and>
     list_all (\<lambda>e. List.member table_encodings e) (oc_operands op)"

lemma kCallbackTable_length: "length kCallbackTable = 256"
  by code_simp

lemma kCallbackTable_ok: "list_all entry_ok kCallbackTable"
  by code_simp

end
