(* ===== verification/DwarfOps.thy ===== *)
theory DwarfOps
  imports DwarfOpTable CText "HOL-Library.Signed_Division"
begin

text \<open>
  The evaluator of DWARF expressions of the vendored unwinder
  (\<^verbatim>\<open>unwindstack/DwarfOp.cpp\<close>, \<^verbatim>\<open>unwindstack/DwarfOp.h\<close>): the handlers, one \<^verbatim>\<open>Decode\<close> and the
  loop of \<^verbatim>\<open>Eval\<close>. The template parameter \<^verbatim>\<open>AddressType\<close> is the word length \<open>'a\<close>; the
  code instantiates it at 32 and 64 bits.
\<close>

unbundle bit_operations_syntax

datatype DwarfErrorCode =
    DWARF_ERROR_NONE
  | DWARF_ERROR_MEMORY_INVALID
  | DWARF_ERROR_ILLEGAL_VALUE
  | DWARF_ERROR_ILLEGAL_STATE
  | DWARF_ERROR_STACK_INDEX_NOT_VALID
  | DWARF_ERROR_NOT_IMPLEMENTED
  | DWARF_ERROR_TOO_MANY_ITERATIONS
  | DWARF_ERROR_CFA_NOT_DEFINED
  | DWARF_ERROR_UNSUPPORTED_VERSION
  | DWARF_ERROR_NO_FDES

section \<open>Registers\<close>

definition MAX_REGISTERS :: nat where "MAX_REGISTERS = 64"

record (overloaded) ('a :: len) regs_info =
  ri_regs :: "'a word list"
  ri_saved_reg_map :: u64
  ri_saved_regs :: "'a word list"

definition RegsInfo_Total :: "'a :: len regs_info \<Rightarrow> 16 word" where
  "RegsInfo_Total r = of_nat (length (ri_regs r))"

definition IsSaved :: "'a :: len regs_info \<Rightarrow> u32 \<Rightarrow> undefined_behaviour + bool" where
  "IsSaved r reg =
     (if unat reg > MAX_REGISTERS then Inl CheckFailed
      else if unat reg \<ge> 64 then Inl ShiftTooLarge
      else Inr (ri_saved_reg_map r AND push_bit (unat reg) 1 \<noteq> 0))"

definition array_at :: "'b list \<Rightarrow> nat \<Rightarrow> undefined_behaviour + 'b" where
  "array_at xs i = (if i < length xs then Inr (xs ! i) else Inl RegisterOutOfRange)"

definition Get :: "'a :: len regs_info \<Rightarrow> u32 \<Rightarrow> undefined_behaviour + 'a word" where
  "Get r reg =
     (case IsSaved r reg of
        Inl u \<Rightarrow> Inl u
      | Inr True \<Rightarrow> array_at (ri_saved_regs r) (unat reg)
      | Inr False \<Rightarrow> array_at (ri_regs r) (unat reg))"

definition Save :: "'a :: len regs_info \<Rightarrow> u32 \<Rightarrow> undefined_behaviour + 'a regs_info" where
  "Save r reg =
     (if unat reg \<ge> MAX_REGISTERS then Inl CheckFailed
      else case array_at (ri_regs r) (unat reg) of
        Inl u \<Rightarrow> Inl u
      | Inr v \<Rightarrow> Inr (r\<lparr> ri_saved_reg_map := ri_saved_reg_map r OR push_bit (unat reg) 1,
                        ri_saved_regs := (ri_saved_regs r)[unat reg := v] \<rparr>))"

section \<open>State\<close>

record (overloaded) ('a :: len) dwarf_op =
  op_memory :: dwarf_memory
  op_dex_pc_set :: bool
  op_is_register :: bool
  op_error :: DwarfErrorCode
  op_error_address :: u64
  op_cur_op :: u8
  op_operands :: "'a word list"
  op_stack :: "'a word list"

record (overloaded) ('a :: len) op_env =
  oe_memory :: memory
  oe_regular_memory :: memory
  oe_regs_info :: "'a regs_info"

type_synonym 'a op_run = "undefined_behaviour + bool \<times> 'a dwarf_op"

text \<open>\<^verbatim>\<open>cur_op_\<close> is not initialised by the constructor; its first value is a parameter.\<close>

definition DwarfOp_new :: "u8 \<Rightarrow> dwarf_memory \<Rightarrow> 'a :: len dwarf_op" where
  "DwarfOp_new cur_op mem =
     \<lparr> op_memory = mem, op_dex_pc_set = False, op_is_register = False, op_error = DWARF_ERROR_NONE,
       op_error_address = 0, op_cur_op = cur_op, op_operands = [], op_stack = [] \<rparr>"

definition op_ok :: "'a :: len dwarf_op \<Rightarrow> 'a op_run" where
  "op_ok s = Inr (True, s)"

definition op_fail :: "DwarfErrorCode \<Rightarrow> 'a :: len dwarf_op \<Rightarrow> 'a op_run" where
  "op_fail code s = Inr (False, s\<lparr> op_error := code \<rparr>)"

definition op_memory_invalid :: "u64 \<Rightarrow> 'a :: len dwarf_op \<Rightarrow> 'a op_run" where
  "op_memory_invalid addr s = op_fail DWARF_ERROR_MEMORY_INVALID (s\<lparr> op_error_address := addr \<rparr>)"

definition StackAt :: "nat \<Rightarrow> 'a :: len dwarf_op \<Rightarrow> undefined_behaviour + 'a word" where
  "StackAt index s = (if index < length (op_stack s) then Inr (op_stack s ! index) else Inl StackUnderflow)"

definition OperandAt :: "nat \<Rightarrow> 'a :: len dwarf_op \<Rightarrow> undefined_behaviour + 'a word" where
  "OperandAt index s = (if index < length (op_operands s) then Inr (op_operands s ! index) else Inl OperandMissing)"

definition StackPop :: "'a :: len dwarf_op \<Rightarrow> undefined_behaviour + 'a word \<times> 'a dwarf_op" where
  "StackPop s = (case op_stack s of [] \<Rightarrow> Inl StackUnderflow | topv # st \<Rightarrow> Inr (topv, s\<lparr> op_stack := st \<rparr>))"

definition push_front :: "'a :: len word \<Rightarrow> 'a dwarf_op \<Rightarrow> 'a dwarf_op" where
  "push_front v s = s\<lparr> op_stack := v # op_stack s \<rparr>"

definition bool_to_dwarf_bool :: "bool \<Rightarrow> 'a :: len word" where
  "bool_to_dwarf_bool value = (if value then 1 else 0)"

text \<open>Sequencing of the parts of a handler that may be undefined, and assignment to \<^verbatim>\<open>stack_[0]\<close>.\<close>

definition ub_bind :: "undefined_behaviour + 'b \<Rightarrow> ('b \<Rightarrow> undefined_behaviour + 'c) \<Rightarrow> undefined_behaviour + 'c" where
  "ub_bind r f = (case r of Inl u \<Rightarrow> Inl u | Inr v \<Rightarrow> f v)"

definition set_top :: "('a :: len word \<Rightarrow> undefined_behaviour + 'a word) \<Rightarrow> 'a dwarf_op \<Rightarrow> 'a op_run" where
  "set_top f s =
     (case op_stack s of
        [] \<Rightarrow> Inl StackUnderflow
      | x # st \<Rightarrow> ub_bind (f x) (\<lambda>v. op_ok (s\<lparr> op_stack := v # st \<rparr>)))"

definition binop :: "('a :: len word \<Rightarrow> 'a word \<Rightarrow> 'a word) \<Rightarrow> 'a dwarf_op \<Rightarrow> 'a op_run" where
  "binop f s = ub_bind (StackPop s) (\<lambda>(topv, s). set_top (\<lambda>x. Inr (f x topv)) s)"

section \<open>Handlers\<close>

definition sizeof_address :: "'a :: len itself \<Rightarrow> nat" where
  "sizeof_address t = LENGTH('a) div 8"

definition op_deref :: "'a :: len op_env \<Rightarrow> 'a dwarf_op \<Rightarrow> 'a op_run" where
  "op_deref env s =
     ub_bind (StackPop s) (\<lambda>(addr, s).
       case ReadFully (oe_regular_memory env) (ucast addr) (sizeof_address TYPE('a)) of
         None \<Rightarrow> op_memory_invalid (ucast addr) s
       | Some bytes \<Rightarrow> op_ok (push_front (ucast (le_value bytes)) s))"

definition op_deref_size :: "'a :: len op_env \<Rightarrow> 'a dwarf_op \<Rightarrow> 'a op_run" where
  "op_deref_size env s =
     ub_bind (OperandAt 0 s) (\<lambda>bytes_to_read.
       if unat bytes_to_read > sizeof_address TYPE('a) \<or> bytes_to_read = 0 then op_fail DWARF_ERROR_ILLEGAL_VALUE s
       else ub_bind (StackPop s) (\<lambda>(addr, s).
         case ReadFully (oe_regular_memory env) (ucast addr) (unat bytes_to_read) of
           None \<Rightarrow> op_memory_invalid (ucast addr) s
         | Some bytes \<Rightarrow> op_ok (push_front (ucast (le_value bytes)) s)))"

definition op_push :: "'a :: len dwarf_op \<Rightarrow> 'a op_run" where
  "op_push s = op_ok (fold push_front (op_operands s) s)"

definition op_dup :: "'a :: len dwarf_op \<Rightarrow> 'a op_run" where
  "op_dup s = ub_bind (StackAt 0 s) (\<lambda>v. op_ok (push_front v s))"

definition op_drop :: "'a :: len dwarf_op \<Rightarrow> 'a op_run" where
  "op_drop s = ub_bind (StackPop s) (\<lambda>(topv, s). op_ok s)"

definition op_over :: "'a :: len dwarf_op \<Rightarrow> 'a op_run" where
  "op_over s = ub_bind (StackAt 1 s) (\<lambda>v. op_ok (push_front v s))"

definition op_pick :: "'a :: len dwarf_op \<Rightarrow> 'a op_run" where
  "op_pick s =
     ub_bind (OperandAt 0 s) (\<lambda>index.
       if unat index \<ge> length (op_stack s) then op_fail DWARF_ERROR_STACK_INDEX_NOT_VALID s
       else ub_bind (StackAt (unat index) s) (\<lambda>v. op_ok (push_front v s)))"

definition op_swap :: "'a :: len dwarf_op \<Rightarrow> 'a op_run" where
  "op_swap s =
     (case op_stack s of
        x # y # st \<Rightarrow> op_ok (s\<lparr> op_stack := y # x # st \<rparr>)
      | _ \<Rightarrow> Inl StackUnderflow)"

definition op_rot :: "'a :: len dwarf_op \<Rightarrow> 'a op_run" where
  "op_rot s =
     (case op_stack s of
        x # y # z # st \<Rightarrow> op_ok (s\<lparr> op_stack := y # z # x # st \<rparr>)
      | _ \<Rightarrow> Inl StackUnderflow)"

text \<open>Negating the least value of the signed type, or dividing it by -1, is undefined.\<close>

definition signed_min :: "'a :: len word \<Rightarrow> bool" where
  "signed_min x \<longleftrightarrow> sint x = - (2 ^ (LENGTH('a) - 1))"

definition signed_neg :: "'a :: len word \<Rightarrow> undefined_behaviour + 'a word" where
  "signed_neg x = (if signed_min x then Inl SignedOverflow else Inr (- x))"

definition signed_div :: "'a :: len word \<Rightarrow> 'a word \<Rightarrow> undefined_behaviour + 'a word" where
  "signed_div x y =
     (if signed_min x \<and> sint y = - 1 then Inl SignedOverflow else Inr (word_of_int (sint x sdiv sint y)))"

definition op_abs :: "'a :: len dwarf_op \<Rightarrow> 'a op_run" where
  "op_abs s = set_top (\<lambda>x. if sint x < 0 then signed_neg x else Inr x) s"

definition op_and :: "'a :: len dwarf_op \<Rightarrow> 'a op_run" where
  "op_and s = binop (\<lambda>x topv. x AND topv) s"

definition op_div :: "'a :: len dwarf_op \<Rightarrow> 'a op_run" where
  "op_div s =
     ub_bind (StackPop s) (\<lambda>(topv, s).
       if topv = 0 then op_fail DWARF_ERROR_ILLEGAL_VALUE s
       else set_top (\<lambda>x. signed_div x topv) s)"

definition op_minus :: "'a :: len dwarf_op \<Rightarrow> 'a op_run" where
  "op_minus s = binop (\<lambda>x topv. x - topv) s"

definition op_mod :: "'a :: len dwarf_op \<Rightarrow> 'a op_run" where
  "op_mod s =
     ub_bind (StackPop s) (\<lambda>(topv, s).
       if topv = 0 then op_fail DWARF_ERROR_ILLEGAL_VALUE s
       else set_top (\<lambda>x. Inr (x mod topv)) s)"

definition op_mul :: "'a :: len dwarf_op \<Rightarrow> 'a op_run" where
  "op_mul s = binop (\<lambda>x topv. x * topv) s"

definition op_neg :: "'a :: len dwarf_op \<Rightarrow> 'a op_run" where
  "op_neg s = set_top signed_neg s"

definition op_not :: "'a :: len dwarf_op \<Rightarrow> 'a op_run" where
  "op_not s = set_top (\<lambda>x. Inr (NOT x)) s"

definition op_or :: "'a :: len dwarf_op \<Rightarrow> 'a op_run" where
  "op_or s = binop (\<lambda>x topv. x OR topv) s"

definition op_plus :: "'a :: len dwarf_op \<Rightarrow> 'a op_run" where
  "op_plus s = binop (\<lambda>x topv. x + topv) s"

definition op_plus_uconst :: "'a :: len dwarf_op \<Rightarrow> 'a op_run" where
  "op_plus_uconst s = ub_bind (OperandAt 0 s) (\<lambda>v. set_top (\<lambda>x. Inr (x + v)) s)"

text \<open>A shift by the width of its operand or more is undefined.\<close>

definition shift_by :: "(nat \<Rightarrow> 'a :: len word \<Rightarrow> 'a word) \<Rightarrow> 'a word \<Rightarrow> 'a word \<Rightarrow> undefined_behaviour + 'a word" where
  "shift_by f x amount = (if unat amount \<ge> LENGTH('a) then Inl ShiftTooLarge else Inr (f (unat amount) x))"

definition op_shl :: "'a :: len dwarf_op \<Rightarrow> 'a op_run" where
  "op_shl s = ub_bind (StackPop s) (\<lambda>(topv, s). set_top (\<lambda>x. shift_by push_bit x topv) s)"

definition op_shr :: "'a :: len dwarf_op \<Rightarrow> 'a op_run" where
  "op_shr s = ub_bind (StackPop s) (\<lambda>(topv, s). set_top (\<lambda>x. shift_by drop_bit x topv) s)"

definition op_shra :: "'a :: len dwarf_op \<Rightarrow> 'a op_run" where
  "op_shra s = ub_bind (StackPop s) (\<lambda>(topv, s). set_top (\<lambda>x. shift_by signed_drop_bit x topv) s)"

definition op_xor :: "'a :: len dwarf_op \<Rightarrow> 'a op_run" where
  "op_xor s = binop (\<lambda>x topv. x XOR topv) s"

definition int16_offset :: "'a :: len word \<Rightarrow> u64" where
  "int16_offset v = scast (ucast v :: 16 word)"

definition jump_to :: "u64 \<Rightarrow> 'a :: len dwarf_op \<Rightarrow> 'a dwarf_op" where
  "jump_to off s = s\<lparr> op_memory := set_cur_offset off (op_memory s) \<rparr>"

definition op_bra :: "'a :: len dwarf_op \<Rightarrow> 'a op_run" where
  "op_bra s =
     ub_bind (StackPop s) (\<lambda>(topv, s).
       ub_bind (OperandAt 0 s) (\<lambda>v.
         let offset = int16_offset v;
             cur_offset = (if topv \<noteq> 0 then dm_cur_offset (op_memory s) + offset else dm_cur_offset (op_memory s) - offset)
         in op_ok (jump_to cur_offset s)))"

definition op_eq :: "'a :: len dwarf_op \<Rightarrow> 'a op_run" where
  "op_eq s = binop (\<lambda>x topv. bool_to_dwarf_bool (x = topv)) s"

definition op_ge :: "'a :: len dwarf_op \<Rightarrow> 'a op_run" where
  "op_ge s = binop (\<lambda>x topv. bool_to_dwarf_bool (x \<ge> topv)) s"

definition op_gt :: "'a :: len dwarf_op \<Rightarrow> 'a op_run" where
  "op_gt s = binop (\<lambda>x topv. bool_to_dwarf_bool (x > topv)) s"

definition op_le :: "'a :: len dwarf_op \<Rightarrow> 'a op_run" where
  "op_le s = binop (\<lambda>x topv. bool_to_dwarf_bool (x \<le> topv)) s"

definition op_lt :: "'a :: len dwarf_op \<Rightarrow> 'a op_run" where
  "op_lt s = binop (\<lambda>x topv. bool_to_dwarf_bool (x < topv)) s"

definition op_ne :: "'a :: len dwarf_op \<Rightarrow> 'a op_run" where
  "op_ne s = binop (\<lambda>x topv. bool_to_dwarf_bool (x \<noteq> topv)) s"

definition op_skip :: "'a :: len dwarf_op \<Rightarrow> 'a op_run" where
  "op_skip s = ub_bind (OperandAt 0 s) (\<lambda>v. op_ok (jump_to (dm_cur_offset (op_memory s) + int16_offset v) s))"

definition op_lit :: "'a :: len dwarf_op \<Rightarrow> 'a op_run" where
  "op_lit s = op_ok (push_front (ucast (op_cur_op s) - 0x30) s)"

definition op_reg :: "'a :: len dwarf_op \<Rightarrow> 'a op_run" where
  "op_reg s = op_ok (push_front (ucast (op_cur_op s) - 0x50) (s\<lparr> op_is_register := True \<rparr>))"

definition op_regx :: "'a :: len dwarf_op \<Rightarrow> 'a op_run" where
  "op_regx s = ub_bind (OperandAt 0 s) (\<lambda>v. op_ok (push_front v (s\<lparr> op_is_register := True \<rparr>)))"

definition op_breg :: "'a :: len op_env \<Rightarrow> 'a dwarf_op \<Rightarrow> 'a op_run" where
  "op_breg env s =
     (let reg = ucast (op_cur_op s) - 0x70 :: 16 word
      in if reg \<ge> RegsInfo_Total (oe_regs_info env) then op_fail DWARF_ERROR_ILLEGAL_VALUE s
         else ub_bind (Get (oe_regs_info env) (ucast reg)) (\<lambda>v.
                ub_bind (OperandAt 0 s) (\<lambda>off. op_ok (push_front (v + off) s))))"

definition op_bregx :: "'a :: len op_env \<Rightarrow> 'a dwarf_op \<Rightarrow> 'a op_run" where
  "op_bregx env s =
     ub_bind (OperandAt 0 s) (\<lambda>reg.
       if unat reg \<ge> unat (RegsInfo_Total (oe_regs_info env)) then op_fail DWARF_ERROR_ILLEGAL_VALUE s
       else ub_bind (Get (oe_regs_info env) (ucast reg)) (\<lambda>v.
              ub_bind (OperandAt 1 s) (\<lambda>off. op_ok (push_front (v + off) s))))"

definition op_nop :: "'a :: len dwarf_op \<Rightarrow> 'a op_run" where
  "op_nop s = op_ok s"

definition op_not_implemented :: "'a :: len dwarf_op \<Rightarrow> 'a op_run" where
  "op_not_implemented s = op_fail DWARF_ERROR_NOT_IMPLEMENTED s"

section \<open>Decode and Eval\<close>

fun kOpHandleFuncList :: "DwarfOpHandleFunc \<Rightarrow> 'a :: len op_env \<Rightarrow> 'a dwarf_op \<Rightarrow> 'a op_run" where
  "kOpHandleFuncList OP_ILLEGAL env s = Inl NullCall"
| "kOpHandleFuncList OP_DEREF env s = op_deref env s"
| "kOpHandleFuncList OP_DEREF_SIZE env s = op_deref_size env s"
| "kOpHandleFuncList OP_PUSH env s = op_push s"
| "kOpHandleFuncList OP_DUP env s = op_dup s"
| "kOpHandleFuncList OP_DROP env s = op_drop s"
| "kOpHandleFuncList OP_OVER env s = op_over s"
| "kOpHandleFuncList OP_PICK env s = op_pick s"
| "kOpHandleFuncList OP_SWAP env s = op_swap s"
| "kOpHandleFuncList OP_ROT env s = op_rot s"
| "kOpHandleFuncList OP_ABS env s = op_abs s"
| "kOpHandleFuncList OP_AND env s = op_and s"
| "kOpHandleFuncList OP_DIV env s = op_div s"
| "kOpHandleFuncList OP_MINUS env s = op_minus s"
| "kOpHandleFuncList OP_MOD env s = op_mod s"
| "kOpHandleFuncList OP_MUL env s = op_mul s"
| "kOpHandleFuncList OP_NEG env s = op_neg s"
| "kOpHandleFuncList OP_NOT env s = op_not s"
| "kOpHandleFuncList OP_OR env s = op_or s"
| "kOpHandleFuncList OP_PLUS env s = op_plus s"
| "kOpHandleFuncList OP_PLUS_UCONST env s = op_plus_uconst s"
| "kOpHandleFuncList OP_SHL env s = op_shl s"
| "kOpHandleFuncList OP_SHR env s = op_shr s"
| "kOpHandleFuncList OP_SHRA env s = op_shra s"
| "kOpHandleFuncList OP_XOR env s = op_xor s"
| "kOpHandleFuncList OP_BRA env s = op_bra s"
| "kOpHandleFuncList OP_EQ env s = op_eq s"
| "kOpHandleFuncList OP_GE env s = op_ge s"
| "kOpHandleFuncList OP_GT env s = op_gt s"
| "kOpHandleFuncList OP_LE env s = op_le s"
| "kOpHandleFuncList OP_LT env s = op_lt s"
| "kOpHandleFuncList OP_NE env s = op_ne s"
| "kOpHandleFuncList OP_SKIP env s = op_skip s"
| "kOpHandleFuncList OP_LIT env s = op_lit s"
| "kOpHandleFuncList OP_REG env s = op_reg s"
| "kOpHandleFuncList OP_REGX env s = op_regx s"
| "kOpHandleFuncList OP_BREG env s = op_breg env s"
| "kOpHandleFuncList OP_BREGX env s = op_bregx env s"
| "kOpHandleFuncList OP_NOP env s = op_nop s"
| "kOpHandleFuncList OP_NOT_IMPLEMENTED env s = op_not_implemented s"

fun read_operands :: "'a :: len op_env \<Rightarrow> OpCallback \<Rightarrow> nat list \<Rightarrow> 'a dwarf_op \<Rightarrow> 'a op_run" where
  "read_operands env op [] s = op_ok s"
| "read_operands env op (i # is) s =
     (case ReadEncodedValue (oe_memory env) (sizeof_address TYPE('a)) (oc_operand op i) (op_memory s) of
        Inl u \<Rightarrow> Inl u
      | Inr (None, d) \<Rightarrow> op_memory_invalid (dm_cur_offset d) (s\<lparr> op_memory := d \<rparr>)
      | Inr (Some value, d) \<Rightarrow>
          read_operands env op is (s\<lparr> op_memory := d, op_operands := op_operands s @ [ucast value] \<rparr>))"

definition Decode_op :: "'a :: len op_env \<Rightarrow> OpCallback \<Rightarrow> 'a dwarf_op \<Rightarrow> 'a op_run" where
  "Decode_op env op s =
     (if oc_handle_func op = OP_ILLEGAL then op_fail DWARF_ERROR_ILLEGAL_VALUE s
      else if length (op_stack s) < oc_num_required_stack_values op then op_fail DWARF_ERROR_STACK_INDEX_NOT_VALID s
      else ub_bind (read_operands env op [0..<oc_num_operands op] (s\<lparr> op_operands := [] \<rparr>)) (\<lambda>(ok, s).
             if \<not> ok then Inr (False, s)
             else kOpHandleFuncList (oc_handle_func op) env s))"

definition Decode :: "'a :: len op_env \<Rightarrow> 'a dwarf_op \<Rightarrow> 'a op_run" where
  "Decode env s =
     (let s = s\<lparr> op_error := DWARF_ERROR_NONE \<rparr>
      in case ReadBytes (oe_memory env) 1 (op_memory s) of
           (None, d) \<Rightarrow> op_memory_invalid (dm_cur_offset d) (s\<lparr> op_memory := d \<rparr>)
         | (Some bytes, d) \<Rightarrow>
             Decode_op env (kCallbackTable ! unat (hd bytes)) (s\<lparr> op_memory := d, op_cur_op := hd bytes \<rparr>))"

definition op_in :: "u64 \<Rightarrow> 'a :: len dwarf_op \<Rightarrow> bool" where
  "op_in end_offset s \<longleftrightarrow> dm_cur_offset (op_memory s) < end_offset"

function eval_loop :: "'a :: len op_env \<Rightarrow> u64 \<Rightarrow> u32 \<Rightarrow> 'a dwarf_op \<Rightarrow> 'a op_run" where
  "eval_loop env end_offset iterations s =
     (if \<not> op_in end_offset s then op_ok s
      else case Decode env s of
        Inl u \<Rightarrow> Inl u
      | Inr (False, s) \<Rightarrow> Inr (False, s)
      | Inr (True, s) \<Rightarrow>
          if iterations = 1000 then op_fail DWARF_ERROR_TOO_MANY_ITERATIONS s
          else eval_loop env end_offset (iterations + 1) s)"
  by pat_completeness auto

termination
  by (relation "measure (\<lambda>(env, end_offset, iterations, s). unat (1000 - iterations))") (use word_count_down [of _ "1000 :: u32"] in \<open>auto simp: algebra_simps\<close>)

declare eval_loop.simps [simp del]

definition dex1_pending :: "'a :: len dwarf_op \<Rightarrow> undefined_behaviour + bool" where
  "dex1_pending s =
     (if op_cur_op s = 0x0c
      then if op_operands s = [] then Inl OperandMissing else Inr (ucast (last (op_operands s)) = (0x31584544 :: u64))
      else Inr False)"

definition Eval :: "'a :: len op_env \<Rightarrow> u64 \<Rightarrow> u64 \<Rightarrow> 'a dwarf_op \<Rightarrow> 'a op_run" where
  "Eval env start end_offset s =
     (let s = jump_to start (s\<lparr> op_is_register := False, op_stack := [], op_dex_pc_set := False \<rparr>)
      in if \<not> op_in end_offset s then op_ok s
         else ub_bind (Decode env s) (\<lambda>(ok, s).
           if \<not> ok then Inr (False, s)
           else ub_bind (dex1_pending s) (\<lambda>check_for_drop.
             if \<not> op_in end_offset s then op_ok s
             else ub_bind (Decode env s) (\<lambda>(ok, s).
               if \<not> ok then Inr (False, s)
               else eval_loop env end_offset 2
                      (if check_for_drop \<and> op_cur_op s = 0x13 then s\<lparr> op_dex_pc_set := True \<rparr> else s)))))"

end
