(* ===== verification/DwarfEval.thy ===== *)
theory DwarfEval
  imports DwarfOps
begin

text \<open>
  What the evaluator of DWARF expressions guarantees: no byte string, however
  malformed, makes it pop an empty stack, use an operand it did not read or index
  a register out of range, and it gives up after a bounded number of operations.
\<close>

unbundle bit_operations_syntax

section \<open>Which undefined behaviour is left\<close>

definition arithmetic_ub :: "undefined_behaviour \<Rightarrow> bool" where
  "arithmetic_ub u \<longleftrightarrow> u = ShiftTooLarge \<or> u = SignedOverflow"

definition ub_safe :: "undefined_behaviour + 'b \<Rightarrow> bool" where
  "ub_safe r = (case r of Inl u \<Rightarrow> arithmetic_ub u | Inr v \<Rightarrow> True)"

named_theorems safe_intros \<open>introduction rules for results without undefined behaviour other than of arithmetic\<close>

lemma ub_safe_Inr [simp, safe_intros]: "ub_safe (Inr v)"
  by (simp add: ub_safe_def)

lemma ub_safe_arith [simp]: "ub_safe (Inl ShiftTooLarge)" "ub_safe (Inl SignedOverflow)"
  by (simp_all add: ub_safe_def arithmetic_ub_def)

lemma ub_safe_bind [safe_intros]: "\<lbrakk> ub_safe r; \<And>v. r = Inr v \<Longrightarrow> ub_safe (f v) \<rbrakk> \<Longrightarrow> ub_safe (ub_bind r f)"
  by (cases r) (simp_all add: ub_bind_def ub_safe_def)

lemma ub_bind_Inr [simp]: "ub_bind (Inr v) f = f v"
  by (simp add: ub_bind_def)

lemma ub_bind_Inl [simp]: "ub_bind (Inl u) f = Inl u"
  by (simp add: ub_bind_def)

lemma op_ok_safe [simp]: "ub_safe (op_ok s)" "ub_safe (op_fail c s)" "ub_safe (op_memory_invalid a s)"
  by (simp_all add: op_ok_def op_fail_def op_memory_invalid_def)

subsection \<open>Reading\<close>

lemma ReadUnsigned_safe: "ub_safe (ReadUnsigned m n d)"
  by (simp add: ReadUnsigned_def split: option.split prod.split)

lemma ReadSigned_safe: "ub_safe (ReadSigned m n d)"
  by (simp add: ReadSigned_def split: option.split prod.split)

lemma leb_loop_safe: "ub_safe (leb_loop m v sh d)"
  by (induction m v sh d rule: leb_loop.induct)
    (subst leb_loop.simps, simp add: Let_def split: option.split prod.split)

lemma ReadULEB128_safe: "ub_safe (ReadULEB128 m d)"
  using leb_loop_safe [of m 0 0 d]
  by (auto simp: ReadULEB128_def ub_safe_def split: sum.splits option.splits prod.splits)

lemma ReadSLEB128_safe: "ub_safe (ReadSLEB128 m d)"
  using leb_loop_safe [of m 0 0 d]
  by (auto simp: ReadSLEB128_def ub_safe_def arithmetic_ub_def split: sum.splits option.splits prod.splits)

lemma read_data_safe: "ub_safe (read_data m n e d)"
  by (simp add: read_data_def ReadUnsigned_safe ReadSigned_safe ReadULEB128_safe ReadSLEB128_safe)

lemma AdjustEncodedValue_safe: "ub_safe (AdjustEncodedValue (e AND 0x70) v d)"
proof -
  have "(e AND 0x70) AND 0x0f = (0 :: u8)"
    by (simp add: and.assoc)
  then show ?thesis
    by (simp add: AdjustEncodedValue_def)
qed

lemma ReadEncodedValue_safe: "ub_safe (ReadEncodedValue m n e d)"
  using read_data_safe [of m n "e AND 0x0f" d]
  by (auto simp: ReadEncodedValue_def Let_def ub_safe_def [of "Inl u" for u] ReadUnsigned_safe
      intro: AdjustEncodedValue_safe split: sum.splits option.splits prod.splits)

subsection \<open>Handlers\<close>

text \<open>The supported architectures have fewer than 64 registers (\<^verbatim>\<open>RegsInfo.h\<close>).\<close>

definition regs_ok :: "'a :: len regs_info \<Rightarrow> bool" where
  "regs_ok r \<longleftrightarrow> length (ri_regs r) < MAX_REGISTERS \<and> length (ri_saved_regs r) = MAX_REGISTERS"

lemma RegsInfo_Total_unat: "regs_ok r \<Longrightarrow> unat (RegsInfo_Total r) = length (ri_regs r)"
  by (simp add: RegsInfo_Total_def regs_ok_def MAX_REGISTERS_def unat_of_nat take_bit_nat_eq_self)

lemma Get_safe: "\<lbrakk> regs_ok r; unat reg < length (ri_regs r) \<rbrakk> \<Longrightarrow> ub_safe (Get r reg)"
  by (auto simp: Get_def IsSaved_def array_at_def regs_ok_def MAX_REGISTERS_def split: bool.split)

lemma unat_ucast_reg: "unat x < 64 \<Longrightarrow> unat (ucast x :: u32) = unat x" for x :: "'a :: len word"
  by (simp add: unsigned_ucast_eq take_bit_nat_eq_self)

lemma Get_ucast_safe: "\<lbrakk> regs_ok r; unat x < length (ri_regs r) \<rbrakk> \<Longrightarrow> ub_safe (Get r (ucast x))" for x :: "'b :: len word"
  by (rule Get_safe) (simp_all add: unat_ucast_reg regs_ok_def MAX_REGISTERS_def)

lemma pop_cons: "op_stack s = x # st \<Longrightarrow> StackPop s = Inr (x, s\<lparr> op_stack := st \<rparr>)"
  by (simp add: StackPop_def)

lemma set_top_safe: "\<lbrakk> op_stack s \<noteq> []; \<And>x. ub_safe (f x) \<rbrakk> \<Longrightarrow> ub_safe (set_top f s)"
  by (auto simp: set_top_def split: list.split intro!: ub_safe_bind)

lemma binop_safe: "2 \<le> length (op_stack s) \<Longrightarrow> ub_safe (binop f s)"
  by (auto simp: binop_def StackPop_def split: list.split intro!: set_top_safe)

lemma signed_neg_safe [simp]: "ub_safe (signed_neg x)"
  by (simp add: signed_neg_def)

lemma signed_div_safe [simp]: "ub_safe (signed_div x y)"
  by (simp add: signed_div_def)

lemma shift_by_safe [simp]: "ub_safe (shift_by f x y)"
  by (simp add: shift_by_def)

lemmas handler_defs =
  op_deref_def op_deref_size_def op_push_def op_dup_def op_drop_def op_over_def op_pick_def op_swap_def op_rot_def op_abs_def
  op_and_def op_div_def op_minus_def op_mod_def op_mul_def op_neg_def op_not_def op_or_def op_plus_def op_plus_uconst_def
  op_shl_def op_shr_def op_shra_def op_xor_def op_bra_def op_eq_def op_ge_def op_gt_def op_le_def op_lt_def op_ne_def
  op_skip_def op_lit_def op_reg_def op_regx_def op_nop_def op_not_implemented_def

lemma op_breg_safe: "\<lbrakk> regs_ok (oe_regs_info env); Suc 0 \<le> length (op_operands s) \<rbrakk> \<Longrightarrow> ub_safe (op_breg env s)"
  by (auto simp: op_breg_def Let_def OperandAt_def not_le word_less_nat_alt RegsInfo_Total_unat intro!: ub_safe_bind Get_ucast_safe)

lemma op_bregx_safe: "\<lbrakk> regs_ok (oe_regs_info env); 2 \<le> length (op_operands s) \<rbrakk> \<Longrightarrow> ub_safe (op_bregx env s)"
  by (auto simp: op_bregx_def OperandAt_def not_le RegsInfo_Total_unat intro!: ub_safe_bind Get_ucast_safe)

lemma handler_safe:
  assumes "h \<noteq> OP_ILLEGAL" "regs_ok (oe_regs_info env)"
    and "stack_needed h \<le> length (op_stack s)" "operands_needed h \<le> length (op_operands s)"
  shows "ub_safe (kOpHandleFuncList h env s)"
proof (cases "h = OP_BREG \<or> h = OP_BREGX")
  case True
  then show ?thesis
    using assms by (auto simp: operands_needed_def op_breg_safe op_bregx_safe)
next
  case False
  then show ?thesis
    using assms
    by (cases h; simp add: operands_needed_def handler_defs binop_safe)
      (auto simp: StackPop_def StackAt_def OperandAt_def Let_def intro!: ub_safe_bind set_top_safe split: list.split option.split)
qed

subsection \<open>Decode and Eval\<close>

lemma read_operands_safe: "ub_safe (read_operands env op is s)"
proof (induction "is" arbitrary: s)
  case (Cons i "is")
  then show ?case
    using ReadEncodedValue_safe [of "oe_memory env" "sizeof_address TYPE('a)" "oc_operand op i" "op_memory s"]
    by (auto simp: ub_safe_def [of "Inl u" for u] split: sum.split option.split)
qed simp

lemma read_operands_True:
  "read_operands env op is s = Inr (True, t) \<Longrightarrow>
     op_stack t = op_stack s \<and> length (op_operands t) = length (op_operands s) + length is"
  by (induction "is" arbitrary: s)
    (auto simp: op_ok_def op_fail_def op_memory_invalid_def split: sum.splits option.splits prod.splits)

lemma table_entry_ok: "entry_ok (kCallbackTable ! unat (b :: u8))"
proof -
  have "unat b < length kCallbackTable"
    using unsigned_less [of b] by (simp add: kCallbackTable_length)
  then show ?thesis
    using kCallbackTable_ok by (simp add: list_all_length)
qed

lemma Decode_op_safe:
  assumes "entry_ok op" "regs_ok (oe_regs_info env)"
  shows "ub_safe (Decode_op env op s)"
proof -
  have "ub_safe (kOpHandleFuncList (oc_handle_func op) env t)"
    if "oc_handle_func op \<noteq> OP_ILLEGAL" "oc_num_required_stack_values op \<le> length (op_stack s)"
      "read_operands env op [0..<oc_num_operands op] (s\<lparr> op_operands := [] \<rparr>) = Inr (True, t)" for t
    using assms that read_operands_True [OF that(3)] by (intro handler_safe) (auto simp: entry_ok_def)
  then show ?thesis
    by (auto simp: Decode_op_def not_less intro!: ub_safe_bind read_operands_safe)
qed

lemma Decode_safe: "regs_ok (oe_regs_info env) \<Longrightarrow> ub_safe (Decode env s)"
  by (auto simp: Decode_def Let_def intro!: Decode_op_safe table_entry_ok split: option.split prod.split)

lemma eval_loop_safe: "regs_ok (oe_regs_info env) \<Longrightarrow> ub_safe (eval_loop env e i s)"
proof (induction env e i s rule: eval_loop.induct)
  case (1 env e i s)
  then show ?case
    using Decode_safe [of env s]
    by (subst eval_loop.simps) (auto simp: ub_safe_def [of "Inl u" for u] split: sum.split bool.split)
qed

text \<open>A handler leaves the decoded operation alone.\<close>

definition same_op :: "'a :: len dwarf_op \<Rightarrow> 'a dwarf_op \<Rightarrow> bool" where
  "same_op s t \<longleftrightarrow> op_operands t = op_operands s \<and> op_cur_op t = op_cur_op s"

definition keeps_op :: "'a :: len dwarf_op \<Rightarrow> 'a op_run \<Rightarrow> bool" where
  "keeps_op s r = (case r of Inl u \<Rightarrow> True | Inr (ok, t) \<Rightarrow> same_op s t)"

lemma keeps_op_simps [simp]:
  "keeps_op s (Inl u)"
  "keeps_op s (op_ok t) = same_op s t"
  "keeps_op s (op_fail c t) = same_op s t"
  "keeps_op s (op_memory_invalid a t) = same_op s t"
  by (simp_all add: keeps_op_def op_ok_def op_fail_def op_memory_invalid_def same_op_def)

lemma same_op_simps [simp]:
  "same_op s (push_front v t) = same_op s t"
  "same_op s (t\<lparr> op_stack := st \<rparr>) = same_op s t"
  "same_op s (t\<lparr> op_is_register := b \<rparr>) = same_op s t"
  "same_op s (jump_to off t) = same_op s t"
  "same_op s s"
  by (simp_all add: same_op_def push_front_def jump_to_def)

lemma same_op_push [simp]: "same_op s (fold push_front vs t) = same_op s t"
  by (induction vs arbitrary: t) simp_all

lemma keeps_op_bind: "(\<And>v. r = Inr v \<Longrightarrow> keeps_op s (f v)) \<Longrightarrow> keeps_op s (ub_bind r f)"
  by (cases r) simp_all

lemma keeps_op_set_top: "same_op s t \<Longrightarrow> keeps_op s (set_top f t)"
  by (auto simp: set_top_def intro!: keeps_op_bind split: list.split)

lemma StackPop_same: "StackPop s = Inr (v, t) \<Longrightarrow> same_op s t"
  by (auto simp: StackPop_def split: list.splits)

lemma keeps_op_binop: "keeps_op s (binop f s)"
  by (auto simp: binop_def intro!: keeps_op_bind keeps_op_set_top dest: StackPop_same)

lemma handler_keeps_op: "keeps_op s (kOpHandleFuncList h env s)"
  by (cases h; simp add: handler_defs op_breg_def op_bregx_def keeps_op_binop)
    (auto simp: Let_def StackPop_def intro!: keeps_op_bind keeps_op_set_top split: list.splits option.split)

lemma read_operands_cur_op: "read_operands env op is s = Inr (True, t) \<Longrightarrow> op_cur_op t = op_cur_op s"
  by (induction "is" arbitrary: s)
    (auto simp: op_ok_def op_fail_def op_memory_invalid_def split: sum.splits option.splits prod.splits)

lemma Decode_op_operands:
  assumes "Decode_op env op s = Inr (True, t)"
  shows "length (op_operands t) = oc_num_operands op \<and> op_cur_op t = op_cur_op s"
proof -
  obtain u where u: "read_operands env op [0..<oc_num_operands op] (s\<lparr> op_operands := [] \<rparr>) = Inr (True, u)"
    and t: "kOpHandleFuncList (oc_handle_func op) env u = Inr (True, t)"
    using assms by (auto simp: Decode_op_def op_fail_def ub_bind_def split: if_splits sum.splits)
  have "same_op u t"
    using handler_keeps_op [of u "oc_handle_func op" env] t by (simp add: keeps_op_def)
  then show ?thesis
    using read_operands_True [OF u] read_operands_cur_op [OF u] by (simp add: same_op_def)
qed

lemma Decode_operands:
  assumes "Decode env s = Inr (True, t)"
  shows "length (op_operands t) = oc_num_operands (kCallbackTable ! unat (op_cur_op t))"
  using assms by (auto simp: Decode_def Let_def op_memory_invalid_def op_fail_def split: option.splits prod.splits dest!: Decode_op_operands)

lemma const4u_operands: "oc_num_operands (kCallbackTable ! unat (0x0c :: u8)) = 1"
  by code_simp

lemma dex1_pending_safe: "Decode env s = Inr (True, t) \<Longrightarrow> ub_safe (dex1_pending t)"
  using Decode_operands [of env s t] const4u_operands by (auto simp: dex1_pending_def)

text \<open>C29: However malformed the expression, its evaluation never pops an empty stack, uses an operand that was not
  read, indexes a register out of range, fails a check or calls a missing handler: the only undefined behaviour it can
  run into is that of shifts and of signed arithmetic.\<close>

theorem Eval_never_stuck:
  assumes "regs_ok (oe_regs_info env)"
  shows "ub_safe (Eval env start end_offset s)"
  using assms
  by (auto simp: Eval_def Let_def intro!: ub_safe_bind Decode_safe eval_loop_safe dex1_pending_safe)

theorem Eval_never_stuck_witness:
  "regs_ok \<lparr> ri_regs = [0x1000 :: u64, 0x2000], ri_saved_reg_map = 0, ri_saved_regs = replicate 64 0 \<rparr> \<and>
   ub_safe (Eval \<lparr> oe_memory = bytes_at 0 [0x13, 0x17], oe_regular_memory = bytes_at 0 [],
       oe_regs_info = \<lparr> ri_regs = [0x1000 :: u64, 0x2000], ri_saved_reg_map = 0, ri_saved_regs = replicate 64 0 \<rparr> \<rparr>
     0 2 (DwarfOp_new 0 DwarfMemory_new))"
proof -
  have "regs_ok \<lparr> ri_regs = [0x1000 :: u64, 0x2000], ri_saved_reg_map = 0, ri_saved_regs = replicate 64 0 \<rparr>"
    by (simp add: regs_ok_def MAX_REGISTERS_def)
  then show ?thesis
    using Eval_never_stuck [of "\<lparr> oe_memory = bytes_at 0 [0x13, 0x17], oe_regular_memory = bytes_at 0 [],
      oe_regs_info = \<lparr> ri_regs = [0x1000 :: u64, 0x2000], ri_saved_reg_map = 0, ri_saved_regs = replicate 64 0 \<rparr> \<rparr>"]
    by simp
qed

text \<open>A register saved before it is overwritten still reads as it did before.\<close>

lemma Get_after_Save:
  assumes "regs_ok r" "IsSaved r reg = Inr False" "Save r reg = Inr r'"
  shows "Get (r'\<lparr> ri_regs := regs \<rparr>) reg = Get r reg"
proof -
  have reg: "unat reg < 64"
    using assms(2) by (simp add: IsSaved_def split: if_splits)
  have "(m OR push_bit (unat reg) 1) AND push_bit (unat reg) 1 \<noteq> 0" for m :: u64
    using reg by (auto simp: bit_eq_iff bit_simps intro!: exI [of _ "unat reg"])
  then show ?thesis
    using assms reg by (auto simp: Get_def Save_def IsSaved_def array_at_def regs_ok_def MAX_REGISTERS_def split: if_splits)
qed

text \<open>The branch operation with a zero on the stack does not fall through: it jumps back by its offset.\<close>

lemma op_bra_zero:
  assumes "op_stack s = 0 # st" "op_operands s = [v]"
  shows "op_bra s = op_ok (jump_to (dm_cur_offset (op_memory s) - int16_offset v) (s\<lparr> op_stack := st \<rparr>))"
  using assms by (simp add: op_bra_def StackPop_def OperandAt_def)

section \<open>The budget of operations\<close>

definition set_dex :: "bool \<Rightarrow> 'a :: len dwarf_op \<Rightarrow> 'a dwarf_op" where
  "set_dex b s = s\<lparr> op_dex_pc_set := b \<rparr>"

definition run_dex :: "bool \<Rightarrow> 'a :: len op_run \<Rightarrow> 'a op_run" where
  "run_dex b r = map_sum id (map_prod id (set_dex b)) r"

lemma set_dex_fields [simp]:
  "op_memory (set_dex b s) = op_memory s" "op_stack (set_dex b s) = op_stack s"
  "op_operands (set_dex b s) = op_operands s" "op_cur_op (set_dex b s) = op_cur_op s"
  "op_is_register (set_dex b s) = op_is_register s"
  by (simp_all add: set_dex_def)

lemma set_dex_updates:
  "set_dex b s\<lparr> op_stack := st \<rparr> = set_dex b (s\<lparr> op_stack := st \<rparr>)"
  "set_dex b s\<lparr> op_error := c \<rparr> = set_dex b (s\<lparr> op_error := c \<rparr>)"
  "set_dex b s\<lparr> op_error_address := a \<rparr> = set_dex b (s\<lparr> op_error_address := a \<rparr>)"
  "set_dex b s\<lparr> op_memory := d \<rparr> = set_dex b (s\<lparr> op_memory := d \<rparr>)"
  "set_dex b s\<lparr> op_cur_op := x \<rparr> = set_dex b (s\<lparr> op_cur_op := x \<rparr>)"
  "set_dex b s\<lparr> op_operands := os \<rparr> = set_dex b (s\<lparr> op_operands := os \<rparr>)"
  "set_dex b s\<lparr> op_is_register := r \<rparr> = set_dex b (s\<lparr> op_is_register := r \<rparr>)"
  "push_front v (set_dex b s) = set_dex b (push_front v s)"
  "jump_to off (set_dex b s) = set_dex b (jump_to off s)"
  by (simp_all add: set_dex_def push_front_def jump_to_def)

lemma run_dex_simps [simp]:
  "run_dex b (Inl u) = Inl u"
  "run_dex b (Inr (ok, s)) = Inr (ok, set_dex b s)"
  "run_dex b (op_ok s) = op_ok (set_dex b s)"
  "run_dex b (op_fail c s) = op_fail c (set_dex b s)"
  "run_dex b (op_memory_invalid a s) = op_memory_invalid a (set_dex b s)"
  by (simp_all add: run_dex_def op_ok_def op_fail_def op_memory_invalid_def set_dex_def)

lemma fold_push_dex: "fold push_front vs (set_dex b s) = set_dex b (fold push_front vs s)"
  by (induction vs arbitrary: s) (simp_all add: set_dex_updates)

lemma set_top_dex: "set_top f (set_dex b s) = run_dex b (set_top f s)"
  by (auto simp: set_top_def ub_bind_def set_dex_updates split: list.split sum.split)

lemma binop_dex: "binop f (set_dex b s) = run_dex b (binop f s)"
  by (auto simp: binop_def StackPop_def set_dex_updates set_top_dex split: list.split)

lemma handler_dex: "kOpHandleFuncList h env (set_dex b s) = run_dex b (kOpHandleFuncList h env s)"
  by (cases h; simp add: handler_defs op_breg_def op_bregx_def binop_dex set_top_dex fold_push_dex set_dex_updates)
    (auto simp: StackPop_def StackAt_def OperandAt_def Let_def set_dex_updates set_top_dex ub_bind_def
      split: list.split option.split sum.split)

lemma read_operands_dex: "read_operands env op is (set_dex b s) = run_dex b (read_operands env op is s)"
  by (induction "is" arbitrary: s) (auto simp: set_dex_updates split: sum.split option.split)

lemma Decode_op_dex: "Decode_op env op (set_dex b s) = run_dex b (Decode_op env op s)"
  by (auto simp: Decode_op_def set_dex_updates read_operands_dex handler_dex ub_bind_def run_dex_def [of b "Inr x" for x]
      split: sum.split)

lemma Decode_dex: "Decode env (set_dex b s) = run_dex b (Decode env s)"
  by (auto simp: Decode_def Let_def set_dex_updates Decode_op_dex split: option.split prod.split)

fun decode_steps :: "'a :: len op_env \<Rightarrow> u64 \<Rightarrow> nat \<Rightarrow> 'a dwarf_op \<Rightarrow> 'a dwarf_op option" where
  "decode_steps env e 0 s = Some s"
| "decode_steps env e (Suc n) s =
     (if op_in e s then case Decode env s of Inr (True, t) \<Rightarrow> decode_steps env e n t | _ \<Rightarrow> None else None)"

lemma op_in_dex [simp]: "op_in e (set_dex b s) = op_in e s"
  by (simp add: op_in_def)

lemma decode_steps_dex: "decode_steps env e n (set_dex b s) = map_option (set_dex b) (decode_steps env e n s)"
  by (induction n arbitrary: s) (auto simp: Decode_dex split: sum.split bool.split)

lemma eval_loop_iff:
  "k \<le> 1000 \<Longrightarrow> eval_loop env e (of_nat k) s = Inr (True, t) \<longleftrightarrow>
     (\<exists>n. n + k \<le> 1000 \<and> decode_steps env e n s = Some t \<and> \<not> op_in e t)"
proof (induction "1000 - k" arbitrary: k s)
  case 0
  then have k: "k = 1000" by simp
  show ?case
    by (subst eval_loop.simps) (auto simp: k op_ok_def op_fail_def split: sum.split bool.split)
next
  case (Suc j)
  then have "(of_nat k :: u32) \<noteq> 1000"
    by (simp add: word_unat_eq_iff unat_of_nat take_bit_nat_eq_self)
  moreover have "eval_loop env e (of_nat (Suc k)) u = Inr (True, t) \<longleftrightarrow>
      (\<exists>n. n + Suc k \<le> 1000 \<and> decode_steps env e n u = Some t \<and> \<not> op_in e t)" for u
    by (rule Suc.hyps(1)) (use Suc in auto)
  ultimately show ?case
    using Suc.prems by (subst eval_loop.simps, subst ex_nat_split) (auto simp: op_ok_def add.commute split: sum.split bool.split)
qed

text \<open>The state every evaluation starts from, and what its caller looks at in the end.\<close>

definition eval_start :: "u64 \<Rightarrow> 'a :: len dwarf_op \<Rightarrow> 'a dwarf_op" where
  "eval_start start s = jump_to start (s\<lparr> op_is_register := False, op_stack := [], op_dex_pc_set := False \<rparr>)"

lemma Eval_unfold:
  "Eval env start e s =
     (if \<not> op_in e (eval_start start s) then op_ok (eval_start start s)
      else ub_bind (Decode env (eval_start start s)) (\<lambda>(ok, t).
        if \<not> ok then Inr (False, t)
        else ub_bind (dex1_pending t) (\<lambda>b.
          if \<not> op_in e t then op_ok t
          else ub_bind (Decode env t) (\<lambda>(ok, u).
            if \<not> ok then Inr (False, u)
            else eval_loop env e 2 (set_dex (b \<and> op_cur_op u = 0x13 \<or> op_dex_pc_set u) u)))))"
proof -
  have dex: "(if b \<and> op_cur_op u = 0x13 then u\<lparr> op_dex_pc_set := True \<rparr> else u) =
      set_dex (b \<and> op_cur_op u = 0x13 \<or> op_dex_pc_set u) u" for b and u :: "'a dwarf_op"
    by (cases u) (auto simp: set_dex_def)
  show ?thesis
    unfolding Eval_def eval_start_def Let_def dex by (rule refl)
qed

lemma dex1_pending_Inr: "Decode env s = Inr (True, t) \<Longrightarrow> \<exists>b. dex1_pending t = Inr b"
  using Decode_operands [of env s t] const4u_operands by (auto simp: dex1_pending_def)

text \<open>What the caller of an evaluation looks at.\<close>

definition eval_result :: "'a :: len dwarf_op \<Rightarrow> 'a word list \<times> bool" where
  "eval_result s = (op_stack s, op_is_register s)"

lemma eval_result_dex [simp]: "eval_result (set_dex b s) = eval_result s"
  by (simp add: eval_result_def)

lemma eval_loop_result:
  "(\<exists>t. eval_loop env e 2 (set_dex b u) = Inr (True, t) \<and> eval_result t = r) \<longleftrightarrow>
     (\<exists>n t. n + 2 \<le> 1000 \<and> decode_steps env e n u = Some t \<and> \<not> op_in e t \<and> eval_result t = r)"
proof -
  have loop: "eval_loop env e 2 (set_dex b u) = Inr (True, t) \<longleftrightarrow>
      (\<exists>n z. n + 2 \<le> 1000 \<and> decode_steps env e n u = Some z \<and> \<not> op_in e z \<and> t = set_dex b z)" for t
    using eval_loop_iff [of 2 env e "set_dex b u" t] by (auto simp: decode_steps_dex)
  show ?thesis
    unfolding loop by (metis (no_types, lifting) eval_result_dex)
qed

lemma Eval_success_iff:
  "(\<exists>t. Eval env start e s = Inr (True, t) \<and> eval_result t = r) \<longleftrightarrow>
     (\<exists>n t. n \<le> 1000 \<and> decode_steps env e n (eval_start start s) = Some t \<and> \<not> op_in e t \<and> eval_result t = r)"
proof -
  let ?s = "eval_start start s"
  consider (out) "\<not> op_in e ?s" | (fail) "op_in e ?s" "\<nexists>t. Decode env ?s = Inr (True, t)"
    | (one) t where "op_in e ?s" "Decode env ?s = Inr (True, t)" "\<not> op_in e t"
    | (fail2) t where "op_in e ?s" "Decode env ?s = Inr (True, t)" "op_in e t" "\<nexists>u. Decode env t = Inr (True, u)"
    | (more) t u where "op_in e ?s" "Decode env ?s = Inr (True, t)" "op_in e t" "Decode env t = Inr (True, u)"
    by blast
  then show ?thesis
  proof cases
    case out
    then show ?thesis
      by (subst ex_nat_split) (auto simp: Eval_unfold op_ok_def)
  next
    case fail
    then show ?thesis
      by (subst ex_nat_split) (auto simp: Eval_unfold ub_bind_def split: sum.splits bool.splits)
  next
    case one
    then show ?thesis
      using dex1_pending_Inr [OF one(2)]
      by (subst ex_nat_split, subst ex_nat_split) (auto simp: Eval_unfold op_ok_def)
  next
    case fail2
    then show ?thesis
      using dex1_pending_Inr [OF fail2(2)]
      by (subst ex_nat_split, subst ex_nat_split) (auto simp: Eval_unfold ub_bind_def split: sum.splits bool.splits)
  next
    case more
    then obtain b where "Eval env start e s = eval_loop env e 2 (set_dex b u)"
      using dex1_pending_Inr [OF more(2)] by (auto simp: Eval_unfold)
    then show ?thesis
      using more by (subst ex_nat_split, subst ex_nat_split) (simp add: eval_loop_result)
  qed
qed

text \<open>C31: An evaluation succeeds exactly when some number of operations, at most 1000, can be decoded one after the
  other and lead out of the expression, and its result is the one they lead to.\<close>

theorem Eval_budget:
  "(\<exists>t. Eval env start e s = Inr (True, t) \<and> eval_result t = r) \<longleftrightarrow>
     (\<exists>n t. n \<le> 1000 \<and> decode_steps env e n (eval_start start s) = Some t \<and> \<not> op_in e t \<and> eval_result t = r)"
  by (rule Eval_success_iff)

end
