(* ===== verification/DwarfCompile.thy ===== *)
theory DwarfCompile
  imports DwarfEval
begin

text \<open>
  The evaluator of DWARF expressions against a compiler: the byte code a tree of
  constants, register offsets, loads and operators stands for is evaluated to the
  value of the tree, and nothing else is left on the stack.
\<close>

unbundle bit_operations_syntax

section \<open>Expressions, their values and their code\<close>

datatype dbin = DAnd | DMinus | DMul | DOr | DPlus | DXor | DEq | DGe | DGt | DLe | DLt | DNe

datatype dexpr =
    DLit nat
  | DConst u64
  | DBreg nat int
  | DDeref dexpr
  | DNot dexpr
  | DPlusConst dexpr u64
  | DBin dbin dexpr dexpr

fun dbin_value :: "dbin \<Rightarrow> 'a :: len word \<Rightarrow> 'a word \<Rightarrow> 'a word" where
  "dbin_value DAnd x y = x AND y"
| "dbin_value DMinus x y = x - y"
| "dbin_value DMul x y = x * y"
| "dbin_value DOr x y = x OR y"
| "dbin_value DPlus x y = x + y"
| "dbin_value DXor x y = x XOR y"
| "dbin_value DEq x y = of_bool (x = y)"
| "dbin_value DGe x y = of_bool (y \<le> x)"
| "dbin_value DGt x y = of_bool (y < x)"
| "dbin_value DLe x y = of_bool (x \<le> y)"
| "dbin_value DLt x y = of_bool (x < y)"
| "dbin_value DNe x y = of_bool (x \<noteq> y)"

text \<open>The value of an expression, if its registers exist and its loads can be read.\<close>

fun dvalue :: "'a :: len op_env \<Rightarrow> dexpr \<Rightarrow> 'a word option" where
  "dvalue env (DLit n) = Some (of_nat n)"
| "dvalue env (DConst v) = Some (ucast v)"
| "dvalue env (DBreg r k) =
     (if of_nat r < RegsInfo_Total (oe_regs_info env)
      then case Get (oe_regs_info env) (of_nat r) of Inr v \<Rightarrow> Some (v + ucast (of_int k :: u64)) | Inl u \<Rightarrow> None
      else None)"
| "dvalue env (DDeref e) =
     (case dvalue env e of
        None \<Rightarrow> None
      | Some a \<Rightarrow> map_option (\<lambda>bs. ucast (le_value bs)) (ReadFully (oe_regular_memory env) (ucast a) (sizeof_address TYPE('a))))"
| "dvalue env (DNot e) = map_option (\<lambda>x. NOT x) (dvalue env e)"
| "dvalue env (DPlusConst e v) = map_option (\<lambda>x. x + ucast v) (dvalue env e)"
| "dvalue env (DBin b e f) =
     (case (dvalue env e, dvalue env f) of (Some x, Some y) \<Rightarrow> Some (dbin_value b x y) | _ \<Rightarrow> None)"

fun dbin_code :: "dbin \<Rightarrow> u8" where
  "dbin_code DAnd = 0x1a"
| "dbin_code DMinus = 0x1c"
| "dbin_code DMul = 0x1e"
| "dbin_code DOr = 0x21"
| "dbin_code DPlus = 0x22"
| "dbin_code DXor = 0x27"
| "dbin_code DEq = 0x29"
| "dbin_code DGe = 0x2a"
| "dbin_code DGt = 0x2b"
| "dbin_code DLe = 0x2c"
| "dbin_code DLt = 0x2d"
| "dbin_code DNe = 0x2e"

definition op_byte :: "nat \<Rightarrow> nat \<Rightarrow> u8" where
  "op_byte first n = of_nat (first + n)"

fun dcode :: "dexpr \<Rightarrow> u8 list" where
  "dcode (DLit n) = [op_byte 0x30 n]"
| "dcode (DConst v) = 0x10 # uleb_encode (unat v)"
| "dcode (DBreg r k) = op_byte 0x70 r # sleb_encode k"
| "dcode (DDeref e) = dcode e @ [0x06]"
| "dcode (DNot e) = dcode e @ [0x20]"
| "dcode (DPlusConst e v) = dcode e @ 0x23 # uleb_encode (unat v)"
| "dcode (DBin b e f) = dcode e @ dcode f @ [dbin_code b]"

fun dops :: "dexpr \<Rightarrow> nat" where
  "dops (DDeref e) = Suc (dops e)"
| "dops (DNot e) = Suc (dops e)"
| "dops (DPlusConst e v) = Suc (dops e)"
| "dops (DBin b e f) = Suc (dops e + dops f)"
| "dops e = 1"

text \<open>Literals and registers that have an operation of their own, and offsets the reader can read back.\<close>

fun dwf :: "dexpr \<Rightarrow> bool" where
  "dwf (DLit n) \<longleftrightarrow> n < 32"
| "dwf (DBreg r k) \<longleftrightarrow> r < 32 \<and> - (2 ^ 62) \<le> k \<and> k < 2 ^ 63"
| "dwf (DDeref e) \<longleftrightarrow> dwf e"
| "dwf (DNot e) \<longleftrightarrow> dwf e"
| "dwf (DPlusConst e v) \<longleftrightarrow> dwf e"
| "dwf (DBin b e f) \<longleftrightarrow> dwf e \<and> dwf f"
| "dwf (DConst v) \<longleftrightarrow> True"

section \<open>Decoding one operation\<close>

definition entry_is :: "nat \<Rightarrow> DwarfOpHandleFunc \<Rightarrow> nat \<Rightarrow> u8 list \<Rightarrow> bool" where
  "entry_is b h r es \<longleftrightarrow>
     oc_handle_func (kCallbackTable ! b) = h \<and> oc_num_required_stack_values (kCallbackTable ! b) = r \<and>
     oc_operands (kCallbackTable ! b) = es \<and> oc_num_operands (kCallbackTable ! b) = length es"

lemma entries:
  "entry_is 6 OP_DEREF 1 []"
  "entry_is 16 OP_PUSH 0 [DW_EH_PE_uleb128]"
  "entry_is 32 OP_NOT 1 []"
  "entry_is 35 OP_PLUS_UCONST 1 [DW_EH_PE_uleb128]"
  by code_simp+

fun dbin_handler :: "dbin \<Rightarrow> DwarfOpHandleFunc" where
  "dbin_handler DAnd = OP_AND"
| "dbin_handler DMinus = OP_MINUS"
| "dbin_handler DMul = OP_MUL"
| "dbin_handler DOr = OP_OR"
| "dbin_handler DPlus = OP_PLUS"
| "dbin_handler DXor = OP_XOR"
| "dbin_handler DEq = OP_EQ"
| "dbin_handler DGe = OP_GE"
| "dbin_handler DGt = OP_GT"
| "dbin_handler DLe = OP_LE"
| "dbin_handler DLt = OP_LT"
| "dbin_handler DNe = OP_NE"

lemma dbin_entries:
  "list_all (\<lambda>b. entry_is (unat (dbin_code b)) (dbin_handler b) 2 [])
     [DAnd, DMinus, DMul, DOr, DPlus, DXor, DEq, DGe, DGt, DLe, DLt, DNe]"
  by code_simp

lemma dbin_entry: "entry_is (unat (dbin_code b)) (dbin_handler b) 2 []"
  using dbin_entries by (cases b) simp_all

lemma lit_entries: "list_all (\<lambda>n. entry_is (0x30 + n) OP_LIT 0 []) [0..<32]"
  by code_simp

lemma breg_entries: "list_all (\<lambda>n. entry_is (0x70 + n) OP_BREG 0 [DW_EH_PE_sleb128]) [0..<32]"
  by code_simp

lemma ReadEncodedValue_leb:
  "ReadEncodedValue m n DW_EH_PE_uleb128 d = ReadULEB128 m d"
  "ReadEncodedValue m n DW_EH_PE_sleb128 d = ReadSLEB128 m d"
  by (simp_all add: ReadEncodedValue_def read_data_def AdjustEncodedValue_def dw_encodings split: sum.split option.split prod.split)

definition op_offset :: "'a :: len dwarf_op \<Rightarrow> u64" where
  "op_offset s = dm_cur_offset (op_memory s)"

text \<open>The state in which the operands of the operation \<open>b\<close> are read.\<close>

definition at_operands :: "u8 \<Rightarrow> 'a :: len dwarf_op \<Rightarrow> 'a dwarf_op" where
  "at_operands b s =
     s\<lparr> op_error := DWARF_ERROR_NONE, op_memory := set_cur_offset (op_offset s + 1) (op_memory s), op_cur_op := b, op_operands := [] \<rparr>"

lemma at_operands_simps [simp]:
  "op_stack (at_operands b s) = op_stack s" "op_operands (at_operands b s) = []" "op_cur_op (at_operands b s) = b"
  "op_is_register (at_operands b s) = op_is_register s" "op_offset (at_operands b s) = op_offset s + 1"
  by (simp_all add: at_operands_def op_offset_def set_cur_offset_def)

lemma Decode_entry:
  assumes "holds (oe_memory env) (op_offset s) (b # bs)" "entry_is (unat b) h r es" "h \<noteq> OP_ILLEGAL" "r \<le> length (op_stack s)"
  shows "Decode env s =
    ub_bind (read_operands env (kCallbackTable ! unat b) [0..<length es] (at_operands b s)) (\<lambda>(ok, s).
      if \<not> ok then Inr (False, s) else kOpHandleFuncList h env s)"
  using holds_Cons [OF assms(1)] assms(2-4)
  by (auto simp: Decode_def Decode_op_def ReadBytes_def ReadFully_def entry_is_def at_operands_def op_offset_def set_cur_offset_def Let_def)

lemma Decode_plain:
  assumes "holds (oe_memory env) (op_offset s) (b # bs)" "entry_is (unat b) h r []" "h \<noteq> OP_ILLEGAL" "r \<le> length (op_stack s)"
  shows "Decode env s = kOpHandleFuncList h env (at_operands b s)"
  by (simp add: Decode_entry [OF assms] op_ok_def)

definition with_operand :: "'a :: len word \<Rightarrow> nat \<Rightarrow> 'a dwarf_op \<Rightarrow> 'a dwarf_op" where
  "with_operand v k s = s\<lparr> op_memory := set_cur_offset (op_offset s + of_nat k) (op_memory s), op_operands := [v] \<rparr>"

lemma with_operand_simps [simp]:
  "op_stack (with_operand v k s) = op_stack s" "op_operands (with_operand v k s) = [v]" "op_cur_op (with_operand v k s) = op_cur_op s"
  "op_is_register (with_operand v k s) = op_is_register s" "op_offset (with_operand v k s) = op_offset s + of_nat k"
  by (simp_all add: with_operand_def op_offset_def set_cur_offset_def)

lemma Decode_uleb:
  assumes "holds (oe_memory env) (op_offset s) (b # uleb_encode n)" "n < 2 ^ 64"
    and "entry_is (unat b) h r [DW_EH_PE_uleb128]" "h \<noteq> OP_ILLEGAL" "r \<le> length (op_stack s)"
  shows "Decode env s = kOpHandleFuncList h env (with_operand (ucast (of_nat n :: u64)) (length (uleb_encode n)) (at_operands b s))"
proof -
  have "holds (oe_memory env) (dm_cur_offset (op_memory (at_operands b s))) (uleb_encode n)"
    using holds_Cons [OF assms(1)] by (simp flip: op_offset_def)
  from ReadULEB128_encode [OF this assms(2)] show ?thesis
    using assms(3) by (simp add: Decode_entry [OF assms(1,3-5)] oc_operand_def entry_is_def ReadEncodedValue_leb op_ok_def
        with_operand_def op_offset_def set_cur_offset_def)
qed

lemma Decode_sleb:
  assumes "holds (oe_memory env) (op_offset s) (b # sleb_encode k)" "- (2 ^ 62) \<le> k" "k < 2 ^ 63"
    and "entry_is (unat b) h r [DW_EH_PE_sleb128]" "h \<noteq> OP_ILLEGAL" "r \<le> length (op_stack s)"
  shows "Decode env s = kOpHandleFuncList h env (with_operand (ucast (of_int k :: u64)) (length (sleb_encode k)) (at_operands b s))"
proof -
  have "holds (oe_memory env) (dm_cur_offset (op_memory (at_operands b s))) (sleb_encode k)"
    using holds_Cons [OF assms(1)] by (simp flip: op_offset_def)
  from ReadSLEB128_encode [OF this assms(2,3)] show ?thesis
    using assms(4) by (simp add: Decode_entry [OF assms(1,4-6)] oc_operand_def entry_is_def ReadEncodedValue_leb op_ok_def
        with_operand_def op_offset_def set_cur_offset_def)
qed

section \<open>The code of an expression computes its value\<close>

text \<open>\<open>reaches\<close>: after some operations that take \<open>k\<close> bytes the stack is \<open>st\<close>.\<close>

definition reaches :: "'a :: len op_env \<Rightarrow> u64 \<Rightarrow> nat \<Rightarrow> 'a dwarf_op \<Rightarrow> nat \<Rightarrow> 'a word list \<Rightarrow> 'a dwarf_op \<Rightarrow> bool" where
  "reaches env e n s k st t \<longleftrightarrow>
     decode_steps env e n s = Some t \<and> op_stack t = st \<and> op_offset t = op_offset s + of_nat k \<and> op_is_register t = op_is_register s"

definition within :: "u64 \<Rightarrow> 'a :: len dwarf_op \<Rightarrow> nat \<Rightarrow> bool" where
  "within e s k \<longleftrightarrow> unat (op_offset s) + k \<le> unat e"

lemma within_offset: "within e s k \<Longrightarrow> unat (op_offset s + of_nat k) = unat (op_offset s) + k"
  using unsigned_less [of e, where 'a = nat] by (simp add: within_def unat_add_fits unat_of_nat_small)

lemma decode_steps_add: "decode_steps env e (n + m) s = Option.bind (decode_steps env e n s) (decode_steps env e m)"
  by (induction n arbitrary: s) (auto split: sum.split bool.split)

lemma reaches_append:
  "\<lbrakk> reaches env e n s j st t; reaches env e m t k st' u \<rbrakk> \<Longrightarrow> reaches env e (n + m) s (j + k) st' u"
  by (auto simp: reaches_def decode_steps_add add.assoc)

lemma reaches_within: "\<lbrakk> reaches env e n s j st t; within e s (j + k) \<rbrakk> \<Longrightarrow> within e t k"
  using within_offset [of e s j] by (auto simp: reaches_def within_def)

lemma reaches_one:
  assumes "Decode env s = op_ok t" "within e s k" "0 < k"
    and "op_stack t = st" "op_offset t = op_offset s + of_nat k" "op_is_register t = op_is_register s"
  shows "\<exists>t. reaches env e 1 s k st t"
  using assms by (auto simp: reaches_def within_def op_in_def word_less_nat_alt op_ok_def simp flip: op_offset_def)

lemma push_front_simps [simp]:
  "op_stack (push_front v s) = v # op_stack s" "op_offset (push_front v s) = op_offset s" "op_is_register (push_front v s) = op_is_register s"
  by (simp_all add: push_front_def op_offset_def)

lemma binop_cons: "op_stack s = y # x # st \<Longrightarrow> binop f s = op_ok (s\<lparr> op_stack := f x y # st \<rparr>)"
  by (simp add: binop_def StackPop_def set_top_def)

lemma op_offset_stack [simp]: "op_offset (s\<lparr> op_stack := st \<rparr>) = op_offset s"
  by (simp add: op_offset_def)

lemma dbin_run:
  assumes "op_stack s = y # x # st"
  shows "kOpHandleFuncList (dbin_handler b) env s = op_ok (s\<lparr> op_stack := dbin_value b x y # st \<rparr>)"
  by (cases b) (simp_all add: handler_defs binop_cons [OF assms] bool_to_dwarf_bool_def)

lemma unat_op_byte: "\<lbrakk> first \<le> 0x70; n < 32 \<rbrakk> \<Longrightarrow> unat (op_byte first n) = first + n"
  unfolding op_byte_def by (simp only: unat_of_nat take_bit_nat_eq_self_iff) simp

lemma ucast_op_byte: "\<lbrakk> first \<le> 0x70; n < 32 \<rbrakk> \<Longrightarrow> ucast (op_byte first n) = (of_nat (first + n) :: 'a :: len word)"
  by (metis of_nat_unat unat_op_byte)

lemma reaches_lit:
  assumes "n < 32" "holds (oe_memory env) (op_offset s) [op_byte 0x30 n]" "within e s 1"
  shows "\<exists>t. reaches env e 1 s 1 (of_nat n # op_stack s) t"
proof -
  have "entry_is (unat (op_byte 0x30 n)) OP_LIT 0 []"
    using lit_entries assms(1) by (simp add: list_all_iff unat_op_byte)
  from Decode_plain [OF assms(2) this]
  have "Decode env s = op_ok (push_front (of_nat n) (at_operands (op_byte 0x30 n) s))"
    using assms(1) by (simp add: op_lit_def ucast_op_byte)
  then show ?thesis
    by (rule reaches_one) (simp_all add: assms(3) [simplified])
qed

lemma reaches_const:
  fixes env :: "'a :: len op_env" and v :: u64
  assumes "holds (oe_memory env) (op_offset s) (0x10 # uleb_encode (unat v))" "within e s (Suc (length (uleb_encode (unat v))))"
  shows "\<exists>t. reaches env e 1 s (Suc (length (uleb_encode (unat v)))) (ucast v # op_stack s) t"
proof -
  let ?s = "with_operand (ucast v :: 'a word) (length (uleb_encode (unat v))) (at_operands 0x10 s)"
  have "Decode env s = op_ok (push_front (ucast v) ?s)"
    using Decode_uleb [OF assms(1) u64_range, of OP_PUSH 0] entries(2) by (simp add: op_push_def)
  then show ?thesis
    by (rule reaches_one) (simp_all add: assms(2) add.assoc)
qed

lemma reaches_breg:
  fixes env :: "'a :: len op_env"
  assumes "r < 32" "- (2 ^ 62) \<le> k" "k < 2 ^ 63" "of_nat r < RegsInfo_Total (oe_regs_info env)" "Get (oe_regs_info env) (of_nat r) = Inr v"
    and "holds (oe_memory env) (op_offset s) (op_byte 0x70 r # sleb_encode k)" "within e s (Suc (length (sleb_encode k)))"
  shows "\<exists>t. reaches env e 1 s (Suc (length (sleb_encode k))) ((v + ucast (of_int k :: u64)) # op_stack s) t"
proof -
  let ?s = "with_operand (ucast (of_int k :: u64)) (length (sleb_encode k)) (at_operands (op_byte 0x70 r) s)"
  have "entry_is (unat (op_byte 0x70 r)) OP_BREG 0 [DW_EH_PE_sleb128]"
    using breg_entries assms(1) by (simp add: list_all_iff unat_op_byte)
  from Decode_sleb [OF assms(6,2,3) this] have "Decode env s = op_breg env ?s"
    by simp
  moreover have "(ucast (op_cur_op ?s) - 0x70 :: 16 word) = of_nat r" "(ucast (of_nat r :: 16 word) :: u32) = of_nat r"
    using assms(1) by (simp_all add: ucast_op_byte unsigned_of_nat take_bit_nat_eq_self)
  ultimately have "Decode env s = op_ok (push_front (v + ucast (of_int k :: u64)) ?s)"
    using assms(5) by (simp add: op_breg_def OperandAt_def Let_def linorder_not_le [THEN iffD2, OF assms(4)])
  then show ?thesis
    by (rule reaches_one) (simp_all add: assms(7) add.assoc)
qed

lemma reaches_bin:
  assumes "holds (oe_memory env) (op_offset s) [dbin_code b]" "within e s 1" "op_stack s = y # x # st"
  shows "\<exists>t. reaches env e 1 s 1 (dbin_value b x y # st) t"
proof -
  have "dbin_handler b \<noteq> OP_ILLEGAL"
    by (cases b) simp_all
  then have "Decode env s = op_ok ((at_operands (dbin_code b) s)\<lparr> op_stack := dbin_value b x y # st \<rparr>)"
    using assms(3) Decode_plain [OF assms(1) dbin_entry] dbin_run [of "at_operands (dbin_code b) s" y x st] by simp
  then show ?thesis
    by (rule reaches_one) (simp_all add: assms(2) [simplified])
qed

lemma reaches_not:
  assumes "holds (oe_memory env) (op_offset s) [0x20]" "within e s 1" "op_stack s = x # st"
  shows "\<exists>t. reaches env e 1 s 1 (NOT x # st) t"
proof -
  have "Decode env s = op_ok ((at_operands 0x20 s)\<lparr> op_stack := NOT x # st \<rparr>)"
    using Decode_plain [OF assms(1), of OP_NOT 1] assms(3) entries(3) by (simp add: op_not_def set_top_def)
  then show ?thesis
    by (rule reaches_one) (simp_all add: assms(2) [simplified])
qed

lemma reaches_deref:
  fixes env :: "'a :: len op_env"
  assumes "holds (oe_memory env) (op_offset s) [0x06]" "within e s 1" "op_stack s = a # st"
    and "ReadFully (oe_regular_memory env) (ucast a) (sizeof_address TYPE('a)) = Some bs"
  shows "\<exists>t. reaches env e 1 s 1 (ucast (le_value bs) # st) t"
proof -
  have "Decode env s = op_ok (push_front (ucast (le_value bs)) ((at_operands 0x06 s)\<lparr> op_stack := st \<rparr>))"
    using Decode_plain [OF assms(1), of OP_DEREF 1] assms(3,4) entries(1) by (simp add: op_deref_def StackPop_def)
  then show ?thesis
    by (rule reaches_one) (simp_all add: assms(2) [simplified])
qed

lemma reaches_plus_const:
  fixes env :: "'a :: len op_env" and v :: u64
  assumes "holds (oe_memory env) (op_offset s) (0x23 # uleb_encode (unat v))" "within e s (Suc (length (uleb_encode (unat v))))"
    and "op_stack s = x # st"
  shows "\<exists>t. reaches env e 1 s (Suc (length (uleb_encode (unat v)))) ((x + ucast v) # st) t"
proof -
  let ?s = "with_operand (ucast v :: 'a word) (length (uleb_encode (unat v))) (at_operands 0x23 s)"
  have "Decode env s = op_ok (?s\<lparr> op_stack := (x + ucast v) # st \<rparr>)"
    using Decode_uleb [OF assms(1) u64_range, of OP_PLUS_UCONST 1] entries(4) assms(3)
    by (simp add: op_plus_uconst_def OperandAt_def set_top_def)
  then show ?thesis
    by (rule reaches_one) (simp_all add: assms(2) add.assoc)
qed

lemma dcode_nonempty [simp]: "dcode e \<noteq> []"
  by (cases e) simp_all

lemma reaches_then:
  assumes "reaches env e n s (length bs) st t" "holds (oe_memory env) (op_offset s) (bs @ cs)" "within e s (length (bs @ cs))"
    and "\<lbrakk> holds (oe_memory env) (op_offset t) cs; within e t (length cs); op_stack t = st \<rbrakk> \<Longrightarrow> \<exists>u. reaches env e m t (length cs) st' u"
  shows "\<exists>u. reaches env e (n + m) s (length (bs @ cs)) st' u"
proof -
  have "holds (oe_memory env) (op_offset t) cs" "op_stack t = st"
    using assms(1) holds_append [OF assms(2)] by (auto simp: reaches_def)
  moreover have "within e t (length cs)"
    using assms(3) by (intro reaches_within [OF assms(1)]) simp
  ultimately show ?thesis
    using assms(4) reaches_append [OF assms(1)] by fastforce
qed

lemma holds_within_prefix:
  "holds m (op_offset s) (bs @ cs) \<and> within e s (length (bs @ cs)) \<Longrightarrow> holds m (op_offset s) bs \<and> within e s (length bs)"
  by (auto dest: holds_append simp: within_def)

lemma dcode_reaches:
  "\<lbrakk> dwf ex; dvalue env ex = Some v; holds (oe_memory env) (op_offset s) (dcode ex); within e s (length (dcode ex)) \<rbrakk> \<Longrightarrow>
     \<exists>t. reaches env e (dops ex) s (length (dcode ex)) (v # op_stack s) t"
proof (induction ex arbitrary: s v)
  case (DLit n)
  then show ?case
    using reaches_lit [of n env s e] by simp
next
  case (DConst c)
  then show ?case
    using reaches_const [of env s c e] by simp
next
  case (DBreg r k)
  then show ?case
    using reaches_breg [of r k env _ s e] by (auto split: if_splits sum.splits)
next
  case (DDeref ex)
  then obtain a bs where a: "dvalue env ex = Some a" and v: "v = ucast (le_value bs)"
    and bs: "ReadFully (oe_regular_memory env) (ucast a) (sizeof_address TYPE('a)) = Some bs"
    by (auto split: option.splits)
  obtain t where t: "reaches env e (dops ex) s (length (dcode ex)) (a # op_stack s) t"
    using DDeref.IH [OF _ a] DDeref.prems holds_within_prefix [of _ s "dcode ex" "[0x06]" e] by auto
  from reaches_then [OF t, of "[0x06]" 1 "v # op_stack s"] show ?case
    using DDeref.prems reaches_deref [of env t e a "op_stack s" bs] bs v by simp
next
  case (DNot ex)
  then obtain x where x: "dvalue env ex = Some x" and v: "v = NOT x"
    by auto
  obtain t where t: "reaches env e (dops ex) s (length (dcode ex)) (x # op_stack s) t"
    using DNot.IH [OF _ x] DNot.prems holds_within_prefix [of _ s "dcode ex" "[0x20]" e] by auto
  from reaches_then [OF t, of "[0x20]" 1 "v # op_stack s"] show ?case
    using DNot.prems reaches_not [of env t e x "op_stack s"] v by simp
next
  case (DPlusConst ex c)
  then obtain x where x: "dvalue env ex = Some x" and v: "v = x + ucast c"
    by auto
  obtain t where t: "reaches env e (dops ex) s (length (dcode ex)) (x # op_stack s) t"
    using DPlusConst.IH [OF _ x] DPlusConst.prems holds_within_prefix [of _ s "dcode ex" "0x23 # uleb_encode (unat c)" e] by auto
  from reaches_then [OF t, of "0x23 # uleb_encode (unat c)" 1 "v # op_stack s"] show ?case
    using DPlusConst.prems reaches_plus_const [of env t c e x "op_stack s"] v by simp
next
  case (DBin b ex f)
  then obtain x y where x: "dvalue env ex = Some x" and y: "dvalue env f = Some y" and v: "v = dbin_value b x y"
    by (auto split: option.splits)
  obtain t where t: "reaches env e (dops ex) s (length (dcode ex)) (x # op_stack s) t"
    using DBin.IH(1) [OF _ x] DBin.prems holds_within_prefix [of _ s "dcode ex" "dcode f @ [dbin_code b]" e] by auto
  have "\<exists>u. reaches env e (dops ex + (dops f + 1)) s (length (dcode ex @ dcode f @ [dbin_code b])) (v # op_stack s) u"
  proof (rule reaches_then [OF t])
    assume h: "holds (oe_memory env) (op_offset t) (dcode f @ [dbin_code b])" "within e t (length (dcode f @ [dbin_code b]))"
      and st: "op_stack t = x # op_stack s"
    obtain u where u: "reaches env e (dops f) t (length (dcode f)) (y # op_stack t) u"
      using DBin.IH(2) [OF _ y] DBin.prems(1) h holds_within_prefix [of _ t "dcode f" "[dbin_code b]" e] by auto
    from reaches_then [OF u h, of 1 "v # op_stack s"]
    show "\<exists>u. reaches env e (dops f + 1) t (length (dcode f @ [dbin_code b])) (v # op_stack s) u"
      using reaches_bin [of env u b e y x "op_stack s"] v st by simp
  qed (use DBin.prems in simp_all)
  then show ?case
    by simp
qed

text \<open>C30: The code of an expression evaluates to the value of the expression: over any memory that holds the code,
  with registers and loads that can be read, the evaluation succeeds, the value is the whole stack, and it is not taken
  for a register number. The expression may have up to 1000 operations.\<close>

theorem Eval_dcode:
  assumes "dwf ex" "dvalue env ex = Some v" "dops ex \<le> 1000"
    and "holds (oe_memory env) start (dcode ex)" "unat start + length (dcode ex) < 2 ^ 64"
  shows "\<exists>t. Eval env start (start + of_nat (length (dcode ex))) s = Inr (True, t) \<and> eval_result t = ([v], False)"
proof -
  let ?s = "eval_start start s" and ?e = "start + of_nat (length (dcode ex))"
  have s: "op_offset ?s = start" "op_stack ?s = []" "\<not> op_is_register ?s"
    by (simp_all add: eval_start_def jump_to_def set_cur_offset_def op_offset_def)
  have "within ?e ?s (length (dcode ex))"
    using assms(5) by (simp add: within_def s unat_add_fits unat_of_nat_small)
  with assms(1,2,4) obtain t where "reaches env ?e (dops ex) ?s (length (dcode ex)) [v] t"
    using dcode_reaches [of ex env v ?s ?e] by (auto simp: s)
  then show ?thesis
    unfolding Eval_success_iff using assms(3)
    by (intro exI [of _ "dops ex"] exI [of _ t]) (auto simp: reaches_def s eval_result_def op_in_def simp flip: op_offset_def)
qed

theorem Eval_dcode_witness:
  "\<exists>t. Eval \<lparr> oe_memory = bytes_at 0x400 (dcode (DPlusConst (DDeref (DBreg 1 8)) 5)),
        oe_regular_memory = bytes_at 0x2008 [0x34, 0x12, 0, 0, 0, 0, 0, 0],
        oe_regs_info = \<lparr> ri_regs = [0x1000 :: u64, 0x2000], ri_saved_reg_map = 0, ri_saved_regs = replicate 64 0 \<rparr> \<rparr>
      0x400 0x405 (DwarfOp_new 0 DwarfMemory_new) = Inr (True, t) \<and> eval_result t = ([0x1239], False)"
proof -
  let ?ex = "DPlusConst (DDeref (DBreg 1 8)) 5"
  let ?env = "\<lparr> oe_memory = bytes_at 0x400 (dcode ?ex), oe_regular_memory = bytes_at 0x2008 [0x34, 0x12, 0, 0, 0, 0, 0, 0],
    oe_regs_info = \<lparr> ri_regs = [0x1000 :: u64, 0x2000], ri_saved_reg_map = 0, ri_saved_regs = replicate 64 0 \<rparr> \<rparr>"
  have len: "length (dcode ?ex) = 5"
    by code_simp
  have "dvalue ?env ?ex = Some 0x1239"
    by code_simp
  moreover have "holds (oe_memory ?env) 0x400 (dcode ?ex)"
    unfolding op_env.simps by (rule holds_bytes_at) (simp only: len, simp)
  ultimately show ?thesis
    using Eval_dcode [of ?ex ?env "0x1239" "0x400" "DwarfOp_new 0 DwarfMemory_new"] unfolding len by simp
qed

end
