(* ===== verification/Spec2Isabelle.thy ===== *)
theory Spec2Isabelle
  imports Prelude CText LiveMap SortBy HookSource StackCapture HookConfig PointerFilter FrameTable
    PointerTable ReportList ObservedTypes PeakSnapshot Tracker PeakRetention ProcText InodeSet ProcReaders ObservedReading
    PeakSampler DmaBuf HookOps HookTracking HeapTracking ObserveOnly Bootstrap EntryPoints
    ModuleRegistry AsyncPipeline AsyncCaches AsyncPromises DwarfMemory DwarfOpTable DwarfOps
    DwarfEval DwarfCompile
begin

text \<open>
  A verification library for the allocation hook, a shared library that is loaded in front of the C library, interposes its
  allocation and mapping functions, records every live allocation with the stack that made it, and watches the memory
  footprint the kernel reports for the process.

  \<^bold>\<open>The program and how its parts interact.\<close> An application's call enters an exported function of
  \<^verbatim>\<open>src/src/alloc_hook.cpp\<close>, which sends it to the bootstrap allocator (while the symbols of the C library are being looked
  up), straight to the C library, or to a wrapper of \<^verbatim>\<open>backtrace/src/malloc_debug.cpp\<close>. A wrapper calls the C library or the
  kernel, keeps the table of device buffers, and reports the outcome to the tracker of \<^verbatim>\<open>backtrace/src/PointerData.cpp\<close>. The
  tracker captures a stack (\<^verbatim>\<open>UnwindBacktrace.cpp\<close>), stores it once in the table of unique stacks, keeps the live records in 64
  shards with byte counters, and retains a snapshot at a peak. A sampler thread (\<^verbatim>\<open>ObservedMemory.cpp\<close>) reads the footprint
  from files under \<^verbatim>\<open>/proc\<close> on a schedule and offers its peaks to the tracker. Captured stacks go through the asynchronous
  pipeline of \<^verbatim>\<open>AsyncStackPipeline.cpp\<close> to a worker that names their modules and symbols. \<^verbatim>\<open>Config.cpp\<close> and
  \<^verbatim>\<open>ObserveOnlyProbe.cpp\<close> decide from the environment which copy of the library does what in which process. One capture backend
  uses the vendored unwinder under \<^verbatim>\<open>src/unwindstack\<close>. Paths below are relative to \<^verbatim>\<open>src/\<close>.

  \<^bold>\<open>Shared theories.\<close>
  \<^item> \<open>Prelude\<close>: machine types, rewrite collections (\<open>umap_lengths\<close>, \<open>unat_fits\<close>), facts on words, lists, association lists.
  \<^item> \<open>CText\<close>: the C string functions the parsers use, with the round trip of decimal numbers.
  \<^item> \<open>LiveMap\<close>: the locale \<open>live_map\<close>, the contract of a table of records, with sums over its entries derived once. It is
    interpreted for association lists (\<open>um\<close>) and for the sharded pointer table (\<open>sm\<close>, in \<open>PointerTable\<close>).
  \<^item> \<open>SortBy\<close>: \<^verbatim>\<open>std::sort\<close> and the locale \<open>strict_weak_order\<close>, interpreted for the report order (\<open>up\<close>, in \<open>ReportList\<close>).

  \<^bold>\<open>The tracker.\<close>
  \<^item> \<open>HookSource\<close> (\<^verbatim>\<open>HookSourcePolicy.h\<close>, \<^verbatim>\<open>debug_disable.cpp\<close>): what counts as success, and the switch that hides the hook's own
    allocations, restored on every exit.
  \<^item> \<open>StackCapture\<close> (\<^verbatim>\<open>UnwindBacktrace.cpp\<close>): the four backends and \<open>CaptureStackInto\<close>. C36: a record never holds more frames
    than asked for; C37: the frame-pointer walk reads only inside the thread's stack.
  \<^item> \<open>HookConfig\<close> (\<^verbatim>\<open>Config.cpp\<close>): the parsers and the mode decisions; the two modes exclude each other.
  \<^item> \<open>PointerFilter\<close>: the membership filter and the locale \<open>membership_filter\<close> (interpretation \<open>pf\<close>). \<open>FrameTable\<close>: unique stacks
    with reference counts, C34. \<open>PointerTable\<close>: the shards and their critical sections, C33. \<open>ReportList\<close>: the lists a
    report is written from, C35. \<open>ObservedTypes\<close>, \<open>PeakSnapshot\<close>: the whole object with its snapshots.
  \<^item> \<open>Tracker\<close>: the relation \<open>reach\<close> generates every state that any interleaving of critical sections of any number of
    threads can produce. C1 and C2: counters and reference counts are exact in every such state; C3: the public
    operations implement a map.
  \<^item> \<open>PeakRetention\<close>: which snapshot a report shows (C20), that the first crossing is taken (C21) and stays (C22), and the byte
    budget of climb mode (C23).

  \<^bold>\<open>The observed footprint\<close> (\<^verbatim>\<open>ObservedMemory.cpp\<close>).
  \<^item> \<open>ProcText\<close>: the read loop, independent of how the kernel splits the text. \<open>InodeSet\<close>: the set that dedups device buffers,
    with the locale \<open>dedup_set\<close> (interpretation \<open>ids\<close>), C17, and its overflow, C38. \<open>ProcReaders\<close>: the line parsers, C13, C18,
    C19, C39. \<open>ObservedReading\<close>: caches, gates and the schedule, C16. \<open>PeakSampler\<close>: the thread, C14, C15, C40.

  \<^bold>\<open>The calls.\<close>
  \<^item> \<open>DmaBuf\<close>: the table of device buffers. \<open>HookOps\<close>: the wrappers. \<open>HookTracking\<close>: C5, every sequence of calls keeps the
    accounting exact; C6, the caller sees what the C library answered. \<open>HeapTracking\<close>: C4, with the laws of the C heap the
    records are exactly the live blocks.
  \<^item> \<open>ObserveOnly\<close> (\<^verbatim>\<open>ObserveOnlyProbe.cpp\<close>): target and report owner are elected at most once, C11 and C12.
  \<^item> \<open>Bootstrap\<close>: the list of mapped blocks; C9, it never hangs; C10, its blocks do not overlap. \<open>EntryPoints\<close>: the exported
    functions, C7 and C8.

  \<^bold>\<open>Symbols.\<close>
  \<^item> \<open>ModuleRegistry\<close>: snapshots of loaded modules; C28, a generation resolves to itself as long as it is retained.
  \<^item> \<open>AsyncPipeline\<close>, \<open>AsyncCaches\<close>, \<open>AsyncPromises\<close>: every critical section of the pipeline, the invariant of its caches, and
    what callers get: C24, accepted stacks are processed once; C25, a shutdown drains the queue; C26 and C27.

  \<^bold>\<open>The unwinder's expression evaluator.\<close>
  \<^item> \<open>DwarfMemory\<close> (\<^verbatim>\<open>unwindstack/DwarfMemory.cpp\<close>): the reader; C32, the LEB128 round trip. \<open>DwarfOpTable\<close>, \<open>DwarfOps\<close>
    (\<^verbatim>\<open>unwindstack/DwarfOp.cpp\<close>, \<^verbatim>\<open>RegsInfo.h\<close>): the table of all 256 operations, the handlers, \<^verbatim>\<open>Decode\<close> and \<^verbatim>\<open>Eval\<close> at any
    address width. \<open>DwarfEval\<close>: C29, no expression makes it run off its stack, operands or registers; C31, the budget of
    operations. \<open>DwarfCompile\<close>: C30, the code of an expression evaluates to its value.

  \<^bold>\<open>How code becomes definitions.\<close> Structures are records, enumerations datatypes, fixed-width integers words of their width.
  An operation takes and returns the state it changes. What runs under one lock is one function, and a concurrent run is a
  sequence of such functions. Targets are LP64 and little-endian. Unordered maps are association lists with distinct keys.
  Failures are values: \<open>None\<close>, error codes, or, where C++ leaves the behaviour undefined, \<open>Inl\<close>. Identifiers and statistics of
  the pipeline are natural numbers, since they count submissions. The resolution of one stack against a module snapshot is
  one step.

  \<^bold>\<open>What is assumed, by name.\<close> The C library, the kernel, \<^verbatim>\<open>dlsym\<close> and \<^verbatim>\<open>dlopen\<close> (one lookup), \<^verbatim>\<open>dl_iterate_phdr\<close>, \<^verbatim>\<open>dladdr\<close>, the
  platform unwinders, clocks, the environment and the texts under \<^verbatim>\<open>/proc\<close> are parameters. \<open>heap_laws\<close> (\<open>HeapTracking\<close>) is what
  the C standard says of allocation, \<open>kernel_ok\<close> (\<open>Bootstrap\<close>) what \<^verbatim>\<open>mmap\<close> and \<^verbatim>\<open>munmap\<close> promise, \<open>capture_ok\<close> (\<open>FrameTable\<close>) the
  form of a captured stack, which is proved of \<open>CaptureStack\<close>, and \<open>regs_ok\<close> (\<open>DwarfEval\<close>) that an architecture has fewer than
  64 registers. Generations of modules stay below \<open>2 ^ 64\<close>.

  \<^bold>\<open>Loops and bounds.\<close> Recursion is structural or has a termination proof; no fuel is used. The two walks of the bootstrap list
  are partial functions with no result when they do not return, and C9 shows that they do. Reading a LEB128 number ends
  because the shift grows, and an evaluation because its 32-bit iteration counter meets 1000.

  \<^bold>\<open>Not modelled.\<close>
  \<^item> Construction and teardown of the global data, thread keys, fork handlers and signal handling of \<^verbatim>\<open>malloc_debug.cpp\<close>, and
    the library constructor, the \<^verbatim>\<open>AllocHook\<close> object and heap tagging of \<^verbatim>\<open>alloc_hook.cpp\<close>: calls of the system around the
    modelled operations.
  \<^item> The text of reports (\<^verbatim>\<open>PointerData.cpp\<close>, \<^verbatim>\<open>ObserveOnlyProbe.cpp\<close>) and of expression logs (\<^verbatim>\<open>DwarfOp::GetLogInfo\<close>):
    formatting of modelled data.
  \<^item> \<^verbatim>\<open>memory_hook.cpp\<close>, which holds only function pointers; the standalone device probe; the OpenCL stub; the tests.
  \<^item> The rest of the vendored unwinder (ELF and map parsing, call frame information, ARM tables, JIT and DEX support): the hook
    only calls it, and the frames it answers are a parameter of \<open>StackCapture\<close>.
\<close>

end
